(* ===== verification/Prelude.thy ===== *)
theory Prelude
  imports Main
begin

text \<open>
  What every component of the model shares: the collections its automation is kept in, JavaScript's
  string and array operations as far as the modelled code uses them, and the generic facts about
  lists, options and sums the component proofs rest on.

  A JavaScript string is a \<^typ>\<open>string\<close>, the list of the bytes of its UTF-8 spelling: every literal of the
  modelled code is written that way, and the few operations that look at characters (\<open>trim\<close>,
  \<open>toLowerCase\<close>) are the ASCII ones, which is what they are applied to.  A JavaScript number that
  counts (a revision, a number of bytes) is a \<^typ>\<open>nat\<close>.  An optional or nullable field is an
  \<^typ>\<open>'a option\<close>; where the source treats \<open>null\<close> and an absent field alike (\<open>?? null\<close>) both are
  \<^const>\<open>None\<close>.
\<close>

named_theorems machine_defs \<open>definitions of the operation reducer, unfolded when a step is analysed\<close>
named_theorems store_defs \<open>definitions of the operation store\<close>
named_theorems digits_simps \<open>evaluation of number rendering\<close>

section \<open>Results\<close>

type_synonym bytes = nat

text \<open>Decimal rendering of a number in a template literal.\<close>

definition digit_char :: "nat \<Rightarrow> char" where
  "digit_char d = char_of (48 + d)"

fun show_nat :: "nat \<Rightarrow> string" where
  "show_nat n = (if n < 10 then [digit_char n] else show_nat (n div 10) @ [digit_char (n mod 10)])"

declare show_nat.simps [simp del]

definition show_int :: "int \<Rightarrow> string" where
  "show_int i = (if i < 0 then ''-'' @ show_nat (nat (- i)) else show_nat (nat i))"

text \<open>
  \<open>Number(n)\<close> of a natural number: a double holds 53 significant bits and rounds ties to even.  The numbers
  that overflow to \<open>Infinity\<close>, of more than three hundred digits, are not values here.
\<close>

fun bit_length :: "nat \<Rightarrow> nat" where
  "bit_length n = (if n = 0 then 0 else Suc (bit_length (n div 2)))"

declare bit_length.simps [simp del]

definition to_number :: "nat \<Rightarrow> nat" where
  "to_number n =
     (if n \<le> 2 ^ 53 then n
      else let unit = 2 ^ (bit_length n - 53); q = n div unit; r = n mod unit in
        if 2 * r < unit \<or> 2 * r = unit \<and> even q then q * unit else (q + 1) * unit)"

lemma to_number_exact: "n \<le> 2 ^ 53 \<Longrightarrow> to_number n = n"
  by (simp add: to_number_def)

text \<open>The value of a string of decimal digits, before rounding.\<close>

definition is_digit :: "char \<Rightarrow> bool" where
  "is_digit c \<longleftrightarrow> (let n = of_char c :: nat in 48 \<le> n \<and> n \<le> 57)"

definition digits_value :: "string \<Rightarrow> nat" where
  "digits_value ds = foldl (\<lambda>acc c. acc * 10 + (of_char c - 48)) 0 ds"

section \<open>Strings\<close>

definition is_space :: "char \<Rightarrow> bool" where
  "is_space c \<longleftrightarrow> c \<in> {CHR 0x09, CHR 0x0A, CHR 0x0B, CHR 0x0C, CHR 0x0D, CHR 0x20}"

definition js_trim :: "string \<Rightarrow> string" where
  "js_trim s = rev (dropWhile is_space (rev (dropWhile is_space s)))"

definition lower_char :: "char \<Rightarrow> char" where
  "lower_char c = (let n = of_char c :: nat in if 65 \<le> n \<and> n \<le> 90 then char_of (n + 32) else c)"

definition js_lower :: "string \<Rightarrow> string" where
  "js_lower s = map lower_char s"

text \<open>\<open>hay.includes(needle)\<close>.\<close>

fun js_prefix :: "string \<Rightarrow> string \<Rightarrow> bool" where
  "js_prefix [] ys = True"
| "js_prefix (x # xs) [] = False"
| "js_prefix (x # xs) (y # ys) = (x = y \<and> js_prefix xs ys)"

fun js_includes :: "string \<Rightarrow> string \<Rightarrow> bool" where
  "js_includes [] needle = (needle = [])"
| "js_includes (c # cs) needle = (js_prefix needle (c # cs) \<or> js_includes cs needle)"

text \<open>\<open>xs.join(sep)\<close>.\<close>

fun js_join :: "string \<Rightarrow> string list \<Rightarrow> string" where
  "js_join sep [] = []"
| "js_join sep [x] = x"
| "js_join sep (x # y # ys) = x @ sep @ js_join sep (y # ys)"

text \<open>\<open>s.split(c)\<close> for a one-character separator.\<close>

fun js_split :: "char \<Rightarrow> string \<Rightarrow> string list" where
  "js_split c [] = [[]]"
| "js_split c (x # xs) =
     (if x = c then [] # js_split c xs
      else case js_split c xs of [] \<Rightarrow> [[x]] | w # ws \<Rightarrow> (x # w) # ws)"

section \<open>Arrays and sets\<close>

text \<open>\<open>[...new Set(xs)]\<close>: the first occurrence of each element, in order.\<close>

fun js_unique_from :: "'a list \<Rightarrow> 'a list \<Rightarrow> 'a list" where
  "js_unique_from seen [] = []"
| "js_unique_from seen (x # xs) =
     (if x \<in> set seen then js_unique_from seen xs else x # js_unique_from (x # seen) xs)"

definition js_unique :: "'a list \<Rightarrow> 'a list" where
  "js_unique xs = js_unique_from [] xs"

lemma set_js_unique_from: "set (js_unique_from seen xs) = set xs - set seen"
  by (induction xs arbitrary: seen) auto

lemma distinct_js_unique_from: "distinct (js_unique_from seen xs)"
  by (induction xs arbitrary: seen) (auto simp: set_js_unique_from)

lemma set_js_unique [simp]: "set (js_unique xs) = set xs"
  by (simp add: js_unique_def set_js_unique_from)

lemma distinct_js_unique [simp]: "distinct (js_unique xs)"
  by (simp add: js_unique_def distinct_js_unique_from)

lemma js_unique_from_distinct:
  "distinct xs \<Longrightarrow> set xs \<inter> set seen = {} \<Longrightarrow> js_unique_from seen xs = xs"
  by (induction xs arbitrary: seen) auto

lemma js_unique_distinct [simp]: "distinct xs \<Longrightarrow> js_unique xs = xs"
  by (simp add: js_unique_def js_unique_from_distinct)

lemma js_unique_from_cong:
  "set s = set t \<Longrightarrow> js_unique_from s ys = js_unique_from t ys"
proof (induction ys arbitrary: s t)
  case (Cons y ys)
  from Cons.prems have "set (y # s) = set (y # t)" by simp
  then show ?case using Cons.IH [OF Cons.prems] Cons.IH [of "y # s" "y # t"] Cons.prems by simp
qed simp

lemma js_unique_from_append:
  "js_unique_from seen (xs @ ys) = js_unique_from seen xs @ js_unique_from (rev xs @ seen) ys"
proof (induction xs arbitrary: seen)
  case (Cons x xs)
  show ?case
  proof (cases "x \<in> set seen")
    case True
    then have "js_unique_from (rev xs @ x # seen) ys = js_unique_from (rev xs @ seen) ys"
      by (intro js_unique_from_cong) auto
    with True show ?thesis by (simp add: Cons.IH)
  qed (simp add: Cons.IH)
qed simp

lemma js_unique_append_distinct:
  "distinct xs \<Longrightarrow> \<exists>zs. js_unique (xs @ ys) = xs @ zs"
  by (simp add: js_unique_def js_unique_from_append js_unique_from_distinct)

lemma js_unique_absorb:
  "distinct xs \<Longrightarrow> set ys \<subseteq> set xs \<Longrightarrow> js_unique (xs @ ys) = xs"
proof -
  assume d: "distinct xs" and sub: "set ys \<subseteq> set xs"
  have "js_unique_from seen ys = []" if "set ys \<subseteq> set seen" for seen :: "'a list"
    using that by (induction ys arbitrary: seen) auto
  with d sub show ?thesis
    by (simp add: js_unique_def js_unique_from_append js_unique_from_distinct)
qed

section \<open>Finding in an array\<close>

lemma length_filter_update:
  "i < length xs \<Longrightarrow>
   length (filter P (xs[i := y])) + (if P (xs ! i) then 1 else 0) = length (filter P xs) + (if P y then 1 else 0)"
proof (induction xs arbitrary: i)
  case (Cons x xs)
  show ?case
  proof (cases i)
    case (Suc n)
    then show ?thesis using Cons.IH [of n] Cons.prems by (simp split: if_splits)
  qed simp
qed simp

lemma find_SomeD: "find P xs = Some x \<Longrightarrow> P x \<and> x \<in> set xs"
  by (induction xs) (auto split: if_splits)

lemma find_NoneD: "find P xs = None \<Longrightarrow> x \<in> set xs \<Longrightarrow> \<not> P x"
  by (induction xs) (auto split: if_splits)

section \<open>Number rendering\<close>

lemma digit_char_inj: "d < 10 \<Longrightarrow> e < 10 \<Longrightarrow> digit_char d = digit_char e \<Longrightarrow> d = e"
proof -
  assume "d < 10" "e < 10" "digit_char d = digit_char e"
  then have "of_char (char_of (48 + d)) = (of_char (char_of (48 + e)) :: nat)"
    by (simp add: digit_char_def)
  with \<open>d < 10\<close> \<open>e < 10\<close> show "d = e" by simp
qed

lemma show_nat_nonempty: "show_nat n \<noteq> []"
  by (subst show_nat.simps) simp

lemma show_nat_inj: "show_nat m = show_nat n \<Longrightarrow> m = n"
proof (induction m arbitrary: n rule: show_nat.induct)
  case (1 m)
  show ?case
  proof (cases "m < 10")
    case True
    then have m: "show_nat m = [digit_char m]" by (simp add: show_nat.simps)
    show ?thesis
    proof (cases "n < 10")
      case True
      with m "1.prems" \<open>m < 10\<close> show ?thesis by (simp add: show_nat.simps digit_char_inj)
    next
      case False
      then have "show_nat n = show_nat (n div 10) @ [digit_char (n mod 10)]"
        by (simp add: show_nat.simps [of n])
      with m "1.prems" have "length (show_nat (n div 10)) = 0" by simp
      then show ?thesis by (simp add: show_nat_nonempty)
    qed
  next
    case False
    then have m: "show_nat m = show_nat (m div 10) @ [digit_char (m mod 10)]"
      by (simp add: show_nat.simps [of m])
    show ?thesis
    proof (cases "n < 10")
      case True
      then have "show_nat n = [digit_char n]" by (simp add: show_nat.simps)
      with m "1.prems" have "length (show_nat (m div 10)) = 0" by simp
      then show ?thesis by (simp add: show_nat_nonempty)
    next
      case n: False
      then have "show_nat n = show_nat (n div 10) @ [digit_char (n mod 10)]"
        by (simp add: show_nat.simps [of n])
      with m "1.prems" have "show_nat (m div 10) = show_nat (n div 10)"
        and d: "digit_char (m mod 10) = digit_char (n mod 10)" by simp_all
      then have "m div 10 = n div 10" using "1.IH" False by blast
      moreover have "m mod 10 = n mod 10" using d by (simp add: digit_char_inj)
      ultimately show ?thesis by (metis div_mult_mod_eq)
    qed
  qed
qed

lemma digits_value_snoc: "digits_value (ds @ [c]) = digits_value ds * 10 + (of_char c - 48)"
  by (simp add: digits_value_def)

lemma digits_value_show: "digits_value (show_nat n) = n"
proof (induction n rule: show_nat.induct)
  case (1 n)
  show ?case
  proof (cases "n < 10")
    case True
    then show ?thesis by (subst show_nat.simps) (simp add: digits_value_def digit_char_def)
  next
    case False
    with 1 show ?thesis by (subst show_nat.simps) (simp add: digits_value_snoc digit_char_def)
  qed
qed

lemma digit_char_is_digit: "d < 10 \<Longrightarrow> is_digit (digit_char d)"
  by (simp add: is_digit_def digit_char_def Let_def)

lemma show_nat_digits: "c \<in> set (show_nat n) \<Longrightarrow> is_digit c"
proof (induction n rule: show_nat.induct)
  case (1 n)
  show ?case
  proof (cases "n < 10")
    case True
    with 1 show ?thesis by (simp add: show_nat.simps [of n] digit_char_is_digit)
  next
    case False
    with 1 show ?thesis by (auto simp: show_nat.simps [of n] digit_char_is_digit)
  qed
qed

section \<open>Transition systems\<close>

text \<open>
  The shape every state machine of the program shares: states that satisfy \<open>start\<close>, and a step
  relation.  A predicate the start states have and every step keeps holds wherever a run can get to.
\<close>

inductive reached :: "('s \<Rightarrow> bool) \<Rightarrow> ('s \<Rightarrow> 's \<Rightarrow> bool) \<Rightarrow> 's \<Rightarrow> bool"
  for start :: "'s \<Rightarrow> bool" and step :: "'s \<Rightarrow> 's \<Rightarrow> bool" where
  reached_start: "start s \<Longrightarrow> reached start step s"
| reached_step: "reached start step s \<Longrightarrow> step s t \<Longrightarrow> reached start step t"

locale invariant_system =
  fixes start :: "'s \<Rightarrow> bool"
    and step :: "'s \<Rightarrow> 's \<Rightarrow> bool"
    and inv :: "'s \<Rightarrow> bool"
  assumes inv_start: "start s \<Longrightarrow> inv s"
    and inv_step: "inv s \<Longrightarrow> step s t \<Longrightarrow> inv t"
begin

lemma reached_inv: "reached start step s \<Longrightarrow> inv s"
  by (induction rule: reached.induct) (auto intro: inv_start inv_step)

lemma reached_implies: "(\<And>s. inv s \<Longrightarrow> P s) \<Longrightarrow> reached start step s \<Longrightarrow> P s"
  using reached_inv by blast

end

end
