(* ===== verification/Errors.thy ===== *)
theory Errors
  imports Prelude
begin

text \<open>
  The error codes the core shares with its clients (\<open>src/src/contracts/errors.ts\<close>), the wire shape of an
  error and the returned failure of \<open>src/src/util/result.ts\<close>.  A code is the string itself, as in the
  source, where the app matches on it verbatim; \<open>ERROR_CODES\<close> is the catalogue.

  An \<open>AtomicCoreError\<close> that is thrown and an \<open>ErrorBody\<close> that is returned carry the same three fields and
  are one type here; a function that may throw returns a sum, \<^const>\<open>Inl\<close> holding the error.
\<close>

section \<open>Error codes\<close>

definition RUNTIME_CODES :: "string list" where
  "RUNTIME_CODES = [
    ''BINARY_NOT_FOUND'', ''MODEL_LOAD_FAILED'', ''MODEL_FILE_NOT_FOUND'',
    ''MODEL_LOAD_TIMED_OUT'', ''MODEL_LOAD_CANCELLED'', ''INVALID_ARGUMENT'', ''IO_ERROR'',
    ''INTERNAL_ERROR'', ''DEVICE_LIST_PARSE_FAILED'', ''OS_VERSION_UNSUPPORTED'',
    ''OUT_OF_MEMORY'', ''MODEL_ARCH_NOT_SUPPORTED'', ''MULTIMODAL_PROJECTOR_LOAD_FAILED'',
    ''MODEL_FILE_CORRUPT'', ''LLAMA_CPP_PROCESS_ERROR'', ''GPU_BACKEND_INCOMPATIBLE'',
    ''ENGINE_BINARY_BROKEN'', ''CPU_INSTRUCTION_UNSUPPORTED'', ''MLX_PROCESS_ERROR'',
    ''FOUNDATION_MODELS_UNAVAILABLE'', ''FOUNDRY_LOCAL_ACCELERATOR_NOT_PREPARED'',
    ''FOUNDRY_LOCAL_VARIANT_UNSUPPORTED'', ''FOUNDRY_LOCAL_HOST_ERROR'',
    ''LITERT_LM_HOST_ERROR'', ''LITERT_LM_VARIANT_UNSUPPORTED'',
    ''LITERT_LM_ACCELERATOR_NOT_PREPARED'', ''LITERT_LM_MODEL_REQUIRES_NEWER_ENGINE'',
    ''GENIEX_HOST_ERROR'', ''GENIEX_VARIANT_UNSUPPORTED'',
    ''GENIEX_MODEL_REQUIRES_NEWER_ENGINE'', ''SERVER_START_FAILED'', ''SERVER_START_TIMED_OUT'',
    ''PROCESS_ERROR'']"

definition EXTENSION_CODES :: "string list" where
  "EXTENSION_CODES = [
    ''MODEL_SHARDS_INCOMPLETE'', ''CPU_NO_AVX'', ''BACKEND_TAG_UNRESOLVED'',
    ''BACKEND_INSUFFICIENT_DISK_SPACE'', ''TRANSCRIPTION_MODEL_MISSING'',
    ''TRANSCRIPTION_UNSUPPORTED'']"

definition CORE_CODES :: "string list" where
  "CORE_CODES = [
    ''CORE_ALREADY_RUNNING'', ''CORE_NOT_RUNNING'', ''CORE_START_FAILED'',
    ''CORE_PROTOCOL_MISMATCH'', ''ALREADY_MIGRATED'', ''NO_MODEL_LOADED'', ''MODEL_NOT_LOADED'',
    ''MODEL_NOT_FOUND'', ''PROVIDER_NOT_FOUND'', ''UNAUTHORIZED'', ''FORBIDDEN_HOST'',
    ''AUTH_REQUIRED'', ''AUTH_FAILED'', ''AUTH_CANCELLED'', ''UPSTREAM_ERROR'',
    ''REMOTE_ACCESS_SERVER_STOPPED'', ''REMOTE_ACCESS_OPERATION_IN_PROGRESS'',
    ''REMOTE_ACCESS_STOP_FAILED'', ''DECISION_NOT_CONFIGURED'', ''DECISION_ENGINE_UNSUPPORTED'',
    ''DECISION_UNAVAILABLE'', ''DECISION_CHECKPOINT_INCOMPLETE'', ''DECISION_MODEL_NOT_CHAT'',
    ''EMBEDDING_NOT_CONFIGURED'', ''EMBEDDING_ENGINE_UNSUPPORTED'', ''EMBEDDING_UNAVAILABLE'',
    ''EMBEDDING_MODEL_NOT_EMBEDDING'', ''MODEL_ENGINE_INCOMPATIBLE'', ''MODEL_FORMAT_LEGACY'',
    ''ENGINE_INSTALL_IN_PROGRESS'', ''BACKEND_BUILD_UNAVAILABLE'']"

definition DIFFUSION_ERROR_CODES :: "string list" where
  "DIFFUSION_ERROR_CODES = [
    ''ENGINE_MISSING'', ''ENGINE_UPDATE_REQUIRED'', ''ENGINE_INSTALL_FAILED'',
    ''ENGINE_CRASHED'', ''MODEL_MISSING'', ''SIDE_FILE_MISSING'', ''MODEL_LOAD_FAILED'',
    ''MODEL_INCOMPATIBLE'', ''MODEL_NOT_LOADED'', ''OUT_OF_MEMORY'', ''UNSUPPORTED_BACKEND'',
    ''UNSUPPORTED_WORKFLOW'', ''INVALID_DIMENSIONS'', ''INVALID_REQUEST'', ''INVALID_OUTPUT'',
    ''JOB_BUSY'', ''JOB_NOT_FOUND'', ''QUEUE_FULL'', ''CANCELLED'', ''DISK_FULL'',
    ''BACKEND_IN_USE'', ''NOT_CONFIGURED'', ''INTERNAL'', ''REMOTE_NOT_CONFIGURED'',
    ''REMOTE_AUTH_FAILED'', ''REMOTE_REJECTED'', ''REMOTE_CONTENT_BLOCKED'',
    ''REMOTE_RATE_LIMITED'', ''REMOTE_QUOTA'', ''REMOTE_UNAVAILABLE'', ''REMOTE_TIMEOUT'',
    ''REMOTE_UNSUPPORTED'']"

definition AUDIO_ERROR_CODES :: "string list" where
  "AUDIO_ERROR_CODES = [
    ''ENGINE_MISSING'', ''ENGINE_INSTALL_FAILED'', ''ENGINE_CRASHED'', ''MODEL_MISSING'',
    ''MODEL_LOAD_FAILED'', ''MODEL_INCOMPATIBLE'', ''MODEL_NOT_LOADED'', ''OUT_OF_MEMORY'',
    ''UNSUPPORTED_BACKEND'', ''UNSUPPORTED_MODE'', ''INVALID_REQUEST'', ''REQUEST_REJECTED'',
    ''INVALID_OUTPUT'', ''JOB_BUSY'', ''JOB_NOT_FOUND'', ''CANCELLED'', ''DISK_FULL'',
    ''BACKEND_IN_USE'', ''INTERNAL'']"

definition MANAGED_ERROR_CODES :: "string list" where
  "MANAGED_ERROR_CODES = [
    ''MANAGED_OPERATION_CONFLICT'', ''MANAGED_OPERATION_NOT_FOUND'',
    ''MANAGED_REVISION_CONFLICT'', ''MANAGED_CONSENT_REQUIRED'', ''MANAGED_PLAN_CHANGED'',
    ''MANAGED_HOST_STEP_INVALID'', ''MANAGED_PREREQUISITE_BLOCKED'',
    ''MANAGED_ADAPTER_UNAVAILABLE'', ''MANAGED_IDENTITY_MISMATCH'', ''MANAGED_STOP_UNCONFIRMED'',
    ''MANAGED_RESOURCE_IN_USE'', ''MANAGED_METADATA_INVALID'', ''MANAGED_RECEIPT_CONFLICT'',
    ''MANAGED_ELEVATION_DECLINED'', ''MANAGED_RELOGIN_REQUIRED'', ''MANAGED_REBOOT_REQUIRED'',
    ''MODEL_INCOMPATIBLE'', ''GPU_BUSY'', ''SESSION_GENERATION_STALE'']"

definition ERROR_CODES :: "string list" where
  "ERROR_CODES = RUNTIME_CODES @ EXTENSION_CODES @ CORE_CODES @ DIFFUSION_ERROR_CODES
     @ AUDIO_ERROR_CODES @ MANAGED_ERROR_CODES"

section \<open>The error on the wire, and a returned failure\<close>

record error_body =
  err_code :: string
  err_message :: string
  err_details :: "string option"

type_synonym 'a result = "error_body + 'a"

definition ok :: "'a \<Rightarrow> 'a result" where
  "ok value = Inr value"

definition err :: "string \<Rightarrow> string \<Rightarrow> string option \<Rightarrow> 'a result" where
  "err code message details = Inl \<lparr>err_code = code, err_message = message, err_details = details\<rparr>"

definition is_ok :: "'a result \<Rightarrow> bool" where
  "is_ok r = (case r of Inl _ \<Rightarrow> False | Inr _ \<Rightarrow> True)"

text \<open>An error whose code a client can match on.\<close>

definition known_error :: "('a) error_body_scheme \<Rightarrow> bool" where
  "known_error e \<longleftrightarrow> err_code e \<in> set ERROR_CODES"

lemma is_ok_simps [simp]: "is_ok (Inr x)" "\<not> is_ok (Inl e)" "is_ok (ok x)" "\<not> is_ok (err c m d)"
  by (simp_all add: is_ok_def ok_def err_def)

lemma ok_eq_iff [simp]: "(ok x = Inr y) = (x = y)" "(Inr y = ok x) = (x = y)" "ok x \<noteq> Inl e"
  by (auto simp: ok_def)

lemma err_eq_iff [simp]:
  "err c m d \<noteq> Inr y"
  "(err c m d = Inl e) = (e = \<lparr>err_code = c, err_message = m, err_details = d\<rparr>)"
  by (auto simp: err_def)

end
