(* ===== verification/Env_Types.thy ===== *)
theory Env_Types
  imports Errors
begin

text \<open>
  The managed-runtime types on the wire (\<open>src/src/contracts/environment.ts\<close>): what an operation acts on,
  where it stands, the privileged step it may ask for and the receipt that answers it, the plan the
  user consents to, and the records of installed engines.  A record's fields keep the source's names
  behind a short prefix, because several interfaces name a field alike.
\<close>

type_synonym sha256 = string
type_synonym string_map = "(string \<times> string) list"

section \<open>Operations, targets and phases\<close>

datatype managed_operation_kind = Setup | Update | Remove

datatype managed_operation_target = Target_environment | Target_runtime string string

datatype managed_phase =
    Checking | Awaiting_consent | Preparing_host | Relogin_required | Reboot_required
  | Preparing_environment | Pulling_image | Verifying | Activating | Removing
  | Ready | Removed | Cancelling | Cancelled | Failed

fun phase_name :: "managed_phase \<Rightarrow> string" where
  "phase_name Checking = ''checking''"
| "phase_name Awaiting_consent = ''awaiting-consent''"
| "phase_name Preparing_host = ''preparing-host''"
| "phase_name Relogin_required = ''relogin-required''"
| "phase_name Reboot_required = ''reboot-required''"
| "phase_name Preparing_environment = ''preparing-environment''"
| "phase_name Pulling_image = ''pulling-image''"
| "phase_name Verifying = ''verifying''"
| "phase_name Activating = ''activating''"
| "phase_name Removing = ''removing''"
| "phase_name Ready = ''ready''"
| "phase_name Removed = ''removed''"
| "phase_name Cancelling = ''cancelling''"
| "phase_name Cancelled = ''cancelled''"
| "phase_name Failed = ''failed''"

definition MANAGED_PHASES :: "managed_phase list" where
  "MANAGED_PHASES = [Checking, Awaiting_consent, Preparing_host, Relogin_required, Reboot_required,
     Preparing_environment, Pulling_image, Verifying, Activating, Removing, Ready, Removed,
     Cancelling, Cancelled, Failed]"

datatype managed_availability = Supported | Setup_required | Prerequisite_blocked | Unsupported

datatype runtime_installation_status =
  St_absent | St_installing | St_ready | St_updating | St_removing | St_failed

datatype progress_unit = Unit_bytes | Unit_steps | Unit_unknown

record managed_progress =
  pr_label :: string
  pr_completed :: "nat option"
  pr_total :: "nat option"
  pr_unit :: progress_unit

record runtime_installation =
  ri_installation_id :: string
  ri_engine_id :: string
  ri_environment_id :: string
  ri_active_descriptor_id :: "string option"
  ri_candidate_descriptor_id :: "string option"
  ri_availability :: managed_availability
  ri_status :: runtime_installation_status

section \<open>The privileged step and its receipt\<close>

datatype cpu_arch = X86_64 | Aarch64
datatype package_family = Apt | Dnf

record container_runtime_step_parameters =
  cr_user :: string
  cr_arch :: cpu_arch
  cr_family :: package_family
  cr_distro_id :: string
  cr_version_id :: string
  cr_components :: "string list"

text \<open>The action and its parameters are one union: each action has a parameter shape of its own.\<close>

datatype managed_host_action =
    Linux_install_container_runtime container_runtime_step_parameters
  | Windows_enable_wsl

record managed_host_step =
  hs_step_id :: string
  hs_action :: managed_host_action
  hs_recipe_id :: string
  hs_recipe_digest :: sha256
  hs_parameters_digest :: sha256
  hs_nonce :: string
  hs_expected_operation_revision :: nat

datatype receipt_outcome =
  Out_completed | Out_declined | Out_relogin_required | Out_reboot_required | Out_failed

record managed_host_receipt =
  rc_step_id :: string
  rc_nonce :: string
  rc_expected_operation_revision :: nat
  rc_recipe_digest :: sha256
  rc_parameters_digest :: sha256
  rc_outcome :: receipt_outcome
  rc_receipt_id :: string
  rc_log_tail :: "string option"

section \<open>The durable operation and the requests that drive it\<close>

text \<open>\<open>schema_version\<close> is the literal 1 in every record and is left out.\<close>

record environment_operation =
  op_operation_id :: string
  op_request_id :: string
  op_environment_id :: string
  op_target :: managed_operation_target
  op_kind :: managed_operation_kind
  op_instance_id :: string
  op_revision :: nat
  op_phase :: managed_phase
  op_plan_digest :: "sha256 option"
  op_approved_plan_digest :: "sha256 option"
  op_carried_plan_digest :: "sha256 option"
  op_progress :: "managed_progress option"
  op_pending_host_step :: "managed_host_step option"
  op_completed_step_ids :: "string list"
  op_cancellation_requested :: bool
  op_error :: "error_body option"

record begin_operation =
  bo_request_id :: string
  bo_target :: managed_operation_target
  bo_kind :: managed_operation_kind
  bo_descriptor_id :: "string option"
  bo_retain_models :: "bool option"
  bo_approved_plan_digest :: "sha256 option"

record resume_operation =
  rs_expected_revision :: nat
  rs_approved_plan_digest :: "sha256 option"

section \<open>The requirement plan\<close>

record managed_system_change =
  sc_code :: string
  sc_text :: string
  sc_params :: "string_map option"

record managed_plan_warning =
  pw_code :: string
  pw_text :: string
  pw_params :: "string_map option"

text \<open>A blocker is an error body with more fields.\<close>

record managed_blocker = error_body +
  mb_reason :: "string option"
  mb_params :: "string_map option"
  mb_commands :: "string list option"

record requirement_plan =
  pl_plan_digest :: sha256
  pl_environment_id :: string
  pl_target :: managed_operation_target
  pl_availability :: managed_availability
  pl_recipe_id :: string
  pl_recipe_digest :: sha256
  pl_descriptor_id :: "string option"
  pl_environment_manifest_id :: "string option"
  pl_image_digest :: "sha256 option"
  pl_adopts_existing_engine :: bool
  pl_system_changes :: "managed_system_change list"
  pl_download_bytes :: "bytes option"
  pl_required_disk_bytes :: "bytes option"
  pl_docker_root_dir :: "string option"
  pl_free_disk_bytes :: "bytes option"
  pl_requires_elevation :: bool
  pl_may_require_relogin :: bool
  pl_may_require_reboot :: bool
  pl_blockers :: "managed_blocker list"
  pl_warnings :: "managed_plan_warning list"

record probe_environment_input =
  pe_descriptor_id :: string
  pe_environment_id :: "string option"
  pe_target :: managed_operation_target

record environment_reset_result =
  rr_environment_id :: string
  rr_archived_operation_ids :: "string list"
  rr_archive_path :: "string option"

record platform_image =
  pi_repository :: string
  pi_digest :: sha256

section \<open>Facts the components share\<close>

lemma phase_name_inj: "phase_name p = phase_name q \<Longrightarrow> p = q"
  by (cases p; cases q; simp)

lemma set_MANAGED_PHASES: "p \<in> set MANAGED_PHASES"
  by (cases p) (simp_all add: MANAGED_PHASES_def)

end
