(* ===== verification/Host_Step_Failure.thy ===== *)
theory Host_Step_Failure
  imports Env_Types
begin

text \<open>
  What a failed receipt of the privileged step becomes as the operation's error
  (\<open>src/src/runtime/environment/host-step-failure.ts\<close>): the raw log tail is kept, and a cause the core
  recognises in it is named in the message.
\<close>

definition DOCKER_ADDRESS_POOLS_INSTRUCTION :: string where
  "DOCKER_ADDRESS_POOLS_INSTRUCTION =
     ''Exclude Docker's ranges (172.17.0.0/16 to 172.31.0.0/16 and 192.168.0.0/16) from the VPN, or set '' @
     ''\"default-address-pools\" (or \"bip\") in /etc/docker/daemon.json to a range no route uses, before continuing.''"

definition DOCKER_POOLS_EXHAUSTED :: string where
  "DOCKER_POOLS_EXHAUSTED = ''all predefined address pools have been fully subnetted''"

definition poolsExhaustedIn :: "string option \<Rightarrow> bool" where
  "poolsExhaustedIn logTail =
     js_includes (js_lower (case logTail of None \<Rightarrow> '''' | Some t \<Rightarrow> t)) DOCKER_POOLS_EXHAUSTED"

text \<open>\<open>boolean | 'unknown'\<close>, and absent.\<close>

datatype pools_configured = Pools_known bool | Pools_unknown

definition hostStepFailureError ::
  "managed_host_receipt \<Rightarrow> pools_configured option \<Rightarrow> error_body" where
  "hostStepFailureError receipt addressPoolsConfigured =
     (let tail = (case rc_log_tail receipt of None \<Rightarrow> '''' | Some t \<Rightarrow> js_trim t);
          details = (if tail = '''' then rc_receipt_id receipt else tail);
          failed = ''Preparing the system did not finish: Docker could not start'';
          words = ''(\"'' @ DOCKER_POOLS_EXHAUSTED @ ''\")''
      in if \<not> poolsExhaustedIn (Some tail)
         then \<lparr>err_code = ''MANAGED_PREREQUISITE_BLOCKED'',
               err_message = ''Preparing the system did not finish.'', err_details = Some details\<rparr>
         else \<lparr>err_code = ''MANAGED_PREREQUISITE_BLOCKED'',
               err_message =
                 (if addressPoolsConfigured = Some (Pools_known True)
                  then failed @ '': the address ranges set in /etc/docker/daemon.json (\"default-address-pools\" or '' @
                       ''\"bip\") are used up or overlap routes on this machine '' @ words @
                       ''. Set ranges there that no route '' @ ''uses, then try again.''
                  else if addressPoolsConfigured = Some (Pools_known False)
                  then failed @ '', because the routes on this machine (often a full-tunnel VPN) cover every address '' @
                       ''range Docker uses for its networks by default '' @ words @ ''. '' @
                       DOCKER_ADDRESS_POOLS_INSTRUCTION
                  else failed @ '': it found no free address range for its networks '' @ words @
                       '', most often because the '' @
                       ''routes on this machine (a full-tunnel VPN) cover its default ranges, or because the ranges set '' @
                       ''in /etc/docker/daemon.json are used up. '' @ DOCKER_ADDRESS_POOLS_INSTRUCTION),
               err_details = Some details\<rparr>)"

lemma hostStepFailureError_code [simp]:
  "err_code (hostStepFailureError r c) = ''MANAGED_PREREQUISITE_BLOCKED''"
  by (simp add: hostStepFailureError_def Let_def)

lemma hostStepFailureError_details:
  "err_details (hostStepFailureError r c) =
     Some (if (case rc_log_tail r of None \<Rightarrow> '''' | Some t \<Rightarrow> js_trim t) = '''' then rc_receipt_id r
           else js_trim (the (rc_log_tail r)))"
  by (auto simp: hostStepFailureError_def Let_def split: option.splits)

end
