(* ===== verification/Machine.thy ===== *)
theory Machine
  imports Host_Step_Failure
begin

text \<open>
  The setup, update and removal state machine of \<open>src/src/runtime/environment/state.ts\<close>: a previous state
  and one event in, the next state and at most one effect out.  One definition per case of
  \<open>reduceOperation\<close>, in the order of its \<open>switch\<close>.  A \<open>Partial<EnvironmentOperation>\<close> patch is the function
  that applies it to an operation.
\<close>

section \<open>Effects, the machine and its events\<close>

datatype effect_kind =
    Probe | Host_step | Prepare_environment | Pull_image | Verify | Unload_resident | Activate
  | Remove_effect | Cleanup | Reconcile

fun effect_kind_name :: "effect_kind \<Rightarrow> string" where
  "effect_kind_name Probe = ''probe''"
| "effect_kind_name Host_step = ''host-step''"
| "effect_kind_name Prepare_environment = ''prepare-environment''"
| "effect_kind_name Pull_image = ''pull-image''"
| "effect_kind_name Verify = ''verify''"
| "effect_kind_name Unload_resident = ''unload-resident''"
| "effect_kind_name Activate = ''activate''"
| "effect_kind_name Remove_effect = ''remove''"
| "effect_kind_name Cleanup = ''cleanup''"
| "effect_kind_name Reconcile = ''reconcile''"

record effect_intent =
  ef_effect_id :: string
  ef_operation_id :: string
  ef_expected_revision :: nat
  ef_kind :: effect_kind
  ef_plan_digest :: "sha256 option"

record consent_basis =
  cb_plan_digest :: sha256
  cb_descriptor_id :: "string option"
  cb_image_digest :: "sha256 option"
  cb_environment_manifest_id :: "string option"
  cb_target :: managed_operation_target

record operation_machine =
  m_operation :: environment_operation
  m_pending_effect :: "effect_intent option"
  m_indivisible_host_step_running :: bool
  m_checkpoint :: "managed_phase option"
  m_consented :: "consent_basis option"

record event_identity =
  ei_effect_id :: string
  ei_expected_revision :: nat

record requirements_ready =
  rq_plan :: requirement_plan
  rq_host_step :: "managed_host_step option"
  rq_image_present :: "bool option"

record receipt_verified =
  rv_receipt :: managed_host_receipt
  rv_prerequisites_met :: bool
  rv_needs_relogin :: "bool option"
  rv_probe_error :: "error_body option"
  rv_address_pools_configured :: "pools_configured option"

record reconciled_facts =
  rf_instance_id :: string
  rf_verified_completed_step_ids :: "string list"
  rf_current_plan_digest :: "sha256 option"
  rf_needs_relogin :: bool
  rf_needs_reboot :: bool

datatype operation_event =
    Ev_requirements_ready event_identity requirements_ready
  | Ev_approve resume_operation
  | Ev_host_step_started event_identity
  | Ev_host_receipt_verified event_identity receipt_verified
  | Ev_environment_verified event_identity
  | Ev_image_pulled event_identity
  | Ev_verification_passed event_identity
  | Ev_resident_unloaded event_identity
  | Ev_activation_committed event_identity
  | Ev_removal_completed event_identity
  | Ev_cancel
  | Ev_safe_boundary event_identity
  | Ev_cleanup_completed event_identity
  | Ev_resume resume_operation
  | Ev_failed event_identity error_body
  | Ev_reconciled event_identity reconciled_facts

fun event_type :: "operation_event \<Rightarrow> string" where
  "event_type (Ev_requirements_ready _ _) = ''requirements-ready''"
| "event_type (Ev_approve _) = ''approve''"
| "event_type (Ev_host_step_started _) = ''host-step-started''"
| "event_type (Ev_host_receipt_verified _ _) = ''host-receipt-verified''"
| "event_type (Ev_environment_verified _) = ''environment-verified''"
| "event_type (Ev_image_pulled _) = ''image-pulled''"
| "event_type (Ev_verification_passed _) = ''verification-passed''"
| "event_type (Ev_resident_unloaded _) = ''resident-unloaded''"
| "event_type (Ev_activation_committed _) = ''activation-committed''"
| "event_type (Ev_removal_completed _) = ''removal-completed''"
| "event_type Ev_cancel = ''cancel''"
| "event_type (Ev_safe_boundary _) = ''safe-boundary''"
| "event_type (Ev_cleanup_completed _) = ''cleanup-completed''"
| "event_type (Ev_resume _) = ''resume''"
| "event_type (Ev_failed _ _) = ''failed''"
| "event_type (Ev_reconciled _ _) = ''reconciled''"

text \<open>The identity of an event that answers an effect; a caller's cancel, resume and approve have none.\<close>

fun event_identity_of :: "operation_event \<Rightarrow> event_identity option" where
  "event_identity_of (Ev_requirements_ready i _) = Some i"
| "event_identity_of (Ev_approve _) = None"
| "event_identity_of (Ev_host_step_started i) = Some i"
| "event_identity_of (Ev_host_receipt_verified i _) = Some i"
| "event_identity_of (Ev_environment_verified i) = Some i"
| "event_identity_of (Ev_image_pulled i) = Some i"
| "event_identity_of (Ev_verification_passed i) = Some i"
| "event_identity_of (Ev_resident_unloaded i) = Some i"
| "event_identity_of (Ev_activation_committed i) = Some i"
| "event_identity_of (Ev_removal_completed i) = Some i"
| "event_identity_of Ev_cancel = None"
| "event_identity_of (Ev_safe_boundary i) = Some i"
| "event_identity_of (Ev_cleanup_completed i) = Some i"
| "event_identity_of (Ev_resume _) = None"
| "event_identity_of (Ev_failed i _) = Some i"
| "event_identity_of (Ev_reconciled i _) = Some i"

record transition_input =
  next_effect_id :: string

record start_operation =
  so_operation_id :: string
  so_request_id :: string
  so_environment_id :: string
  so_instance_id :: string
  so_target :: managed_operation_target
  so_kind :: managed_operation_kind
  so_approved_plan_digest :: "sha256 option"

type_synonym transition = "operation_machine \<times> effect_intent list"

section \<open>Tables and small rules\<close>

definition probedDigest ::
  "operation_machine \<Rightarrow> sha256 option \<Rightarrow> environment_operation \<Rightarrow> environment_operation" where
  "probedDigest state digest op =
     (if m_consented state \<noteq> None then op\<lparr>op_carried_plan_digest := digest\<rparr>
      else op\<lparr>op_plan_digest := digest\<rparr>)"

fun sameTarget :: "managed_operation_target \<Rightarrow> managed_operation_target \<Rightarrow> bool" where
  "sameTarget Target_environment Target_environment = True"
| "sameTarget (Target_runtime i e) (Target_runtime i' e') = (i = i' \<and> e = e')"
| "sameTarget _ _ = False"

definition consentCovers ::
  "consent_basis \<Rightarrow> requirement_plan \<Rightarrow> managed_operation_kind \<Rightarrow> bool" where
  "consentCovers basis plan kind \<longleftrightarrow>
     sameTarget (cb_target basis) (pl_target plan) \<and>
     (kind = Remove \<or>
      (cb_descriptor_id basis = pl_descriptor_id plan \<and>
       cb_image_digest basis = pl_image_digest plan \<and>
       cb_environment_manifest_id basis = pl_environment_manifest_id plan))"

definition TERMINAL :: "managed_phase list" where
  "TERMINAL = [Ready, Removed, Cancelled, Failed]"

definition WORK_PHASES :: "managed_phase list" where
  "WORK_PHASES = [Preparing_host, Preparing_environment, Pulling_image, Verifying, Activating, Removing]"

definition errorOf :: "managed_blocker \<Rightarrow> error_body" where
  "errorOf blocker =
     \<lparr>err_code = err_code blocker, err_message = err_message blocker,
      err_details = (case err_details blocker of None \<Rightarrow> mb_reason blocker | Some d \<Rightarrow> Some d)\<rparr>"

definition RELOGIN_ERROR :: error_body where
  "RELOGIN_ERROR =
     \<lparr>err_code = ''MANAGED_RELOGIN_REQUIRED'',
      err_message = ''Log out and back in so the docker group takes effect; setup continues on its own after that.'',
      err_details = None\<rparr>"

fun ANSWERS :: "operation_event \<Rightarrow> effect_kind option" where
  "ANSWERS (Ev_requirements_ready _ _) = Some Probe"
| "ANSWERS (Ev_host_step_started _) = Some Host_step"
| "ANSWERS (Ev_host_receipt_verified _ _) = Some Host_step"
| "ANSWERS (Ev_environment_verified _) = Some Prepare_environment"
| "ANSWERS (Ev_image_pulled _) = Some Pull_image"
| "ANSWERS (Ev_verification_passed _) = Some Verify"
| "ANSWERS (Ev_resident_unloaded _) = Some Unload_resident"
| "ANSWERS (Ev_activation_committed _) = Some Activate"
| "ANSWERS (Ev_removal_completed _) = Some Remove_effect"
| "ANSWERS (Ev_cleanup_completed _) = Some Cleanup"
| "ANSWERS (Ev_reconciled _ _) = Some Reconcile"
| "ANSWERS _ = None"

definition conflict :: "string \<Rightarrow> 'a result" where
  "conflict why =
     err ''MANAGED_OPERATION_CONFLICT'' ''This event does not apply to the operation.'' (Some why)"

datatype next_effect = No_effect | Keep | Issue effect_kind transition_input

section \<open>Building the next machine\<close>

definition issued_effect ::
  "next_effect \<Rightarrow> environment_operation \<Rightarrow> effect_intent option" where
  "issued_effect effect op =
     (case effect of
        No_effect \<Rightarrow> None
      | Keep \<Rightarrow> None
      | Issue kind input \<Rightarrow>
          Some \<lparr>ef_effect_id = next_effect_id input, ef_operation_id = op_operation_id op,
                ef_expected_revision = op_revision op, ef_kind = kind,
                ef_plan_digest = op_plan_digest op\<rparr>)"

definition advance ::
  "operation_machine \<Rightarrow> (environment_operation \<Rightarrow> environment_operation) \<Rightarrow> next_effect \<Rightarrow> bool
     \<Rightarrow> transition result" where
  "advance state patch effect indivisible =
     (let revision = op_revision (m_operation state) + 1;
          nxt = (patch (m_operation state))\<lparr>op_revision := revision\<rparr>;
          issued = issued_effect effect nxt
      in ok (state\<lparr>m_operation := nxt,
                   m_pending_effect := (if effect = Keep then m_pending_effect state else issued),
                   m_indivisible_host_step_running := indivisible,
                   m_checkpoint := (if op_phase nxt \<in> set WORK_PHASES then Some (op_phase nxt)
                                    else m_checkpoint state)\<rparr>,
             case issued of None \<Rightarrow> [] | Some i \<Rightarrow> [i]))"

definition startOperation :: "start_operation \<Rightarrow> transition_input \<Rightarrow> transition" where
  "startOperation input transition =
     (let operation =
            \<lparr>op_operation_id = so_operation_id input, op_request_id = so_request_id input,
             op_environment_id = so_environment_id input, op_target = so_target input,
             op_kind = so_kind input, op_instance_id = so_instance_id input, op_revision = 0,
             op_phase = Checking, op_plan_digest = None,
             op_approved_plan_digest = so_approved_plan_digest input,
             op_carried_plan_digest = None, op_progress = None, op_pending_host_step = None,
             op_completed_step_ids = [], op_cancellation_requested = False, op_error = None\<rparr>;
          intent =
            \<lparr>ef_effect_id = next_effect_id transition, ef_operation_id = so_operation_id input,
             ef_expected_revision = 0, ef_kind = Probe, ef_plan_digest = None\<rparr>
      in (\<lparr>m_operation = operation, m_pending_effect = Some intent,
           m_indivisible_host_step_running = False, m_checkpoint = None, m_consented = None\<rparr>,
          [intent]))"

definition startCancelling :: "operation_machine \<Rightarrow> transition_input \<Rightarrow> transition result" where
  "startCancelling state input =
     advance state (\<lambda>op. op\<lparr>op_phase := Cancelling, op_cancellation_requested := True\<rparr>)
       (Issue Cleanup input) False"

definition afterConsent ::
  "operation_machine \<Rightarrow> transition_input \<Rightarrow> managed_host_step option \<Rightarrow> transition result" where
  "afterConsent state input hostStep =
     (case hostStep of
        Some step \<Rightarrow>
          let issued = step\<lparr>hs_expected_operation_revision := op_revision (m_operation state) + 1\<rparr>
          in advance state
               (\<lambda>op. op\<lparr>op_phase := Preparing_host, op_pending_host_step := Some issued, op_error := None\<rparr>)
               (Issue Host_step input) False
      | None \<Rightarrow>
          (case op_kind (m_operation state) of
             Setup \<Rightarrow> advance state (\<lambda>op. op\<lparr>op_phase := Preparing_environment, op_error := None\<rparr>)
                        (Issue Prepare_environment input) False
           | Update \<Rightarrow> advance state (\<lambda>op. op\<lparr>op_phase := Pulling_image, op_error := None\<rparr>)
                        (Issue Pull_image input) False
           | Remove \<Rightarrow> advance state (\<lambda>op. op\<lparr>op_phase := Removing, op_error := None\<rparr>)
                        (Issue Remove_effect input) False))"

definition continueConsentedWork ::
  "operation_machine \<Rightarrow> transition_input \<Rightarrow> bool \<Rightarrow> transition result" where
  "continueConsentedWork state input imagePresent =
     (let checkpoint = m_checkpoint state;
          kind = op_kind (m_operation state);
          target = op_target (m_operation state);
          pulledSomething = checkpoint \<in> {Some Pulling_image, Some Verifying, Some Activating}
      in if kind \<noteq> Remove \<and> target \<noteq> Target_environment \<and> pulledSomething then
           (if imagePresent
            then advance state (\<lambda>op. op\<lparr>op_phase := Verifying, op_error := None\<rparr>) (Issue Verify input) False
            else advance state (\<lambda>op. op\<lparr>op_phase := Pulling_image, op_error := None\<rparr>) (Issue Pull_image input) False)
         else if kind \<noteq> Remove \<and> target = Target_environment \<and> checkpoint = Some Verifying then
           advance state (\<lambda>op. op\<lparr>op_phase := Verifying, op_error := None\<rparr>) (Issue Verify input) False
         else afterConsent state input None)"

definition continueOrCancel ::
  "operation_machine \<Rightarrow> transition_input \<Rightarrow> transition result \<Rightarrow> transition result" where
  "continueOrCancel state input proceed =
     (if op_cancellation_requested (m_operation state) then startCancelling state input else proceed)"

definition failWith :: "operation_machine \<Rightarrow> error_body \<Rightarrow> bool \<Rightarrow> transition result" where
  "failWith state error keepStep =
     advance state
       (\<lambda>op. let op' = op\<lparr>op_phase := Failed, op_error := Some error\<rparr>
             in if keepStep then op' else op'\<lparr>op_pending_host_step := None\<rparr>)
       No_effect False"

section \<open>One definition per event\<close>

text \<open>The check every event but cancel, resume and approve goes through first.\<close>

definition reduce_guard :: "operation_machine \<Rightarrow> operation_event \<Rightarrow> unit result" where
  "reduce_guard state event =
     (case event_identity_of event of
        None \<Rightarrow> ok ()
      | Some ident \<Rightarrow>
          (case m_pending_effect state of
             None \<Rightarrow> conflict (''no effect is pending in '' @ phase_name (op_phase (m_operation state)))
           | Some pending \<Rightarrow>
               if ef_effect_id pending \<noteq> ei_effect_id ident
               then conflict (''this is another effect'' @ [CHR 0xE2, CHR 0x80, CHR 0x99] @ ''s result'')
               else if ei_expected_revision ident \<noteq> op_revision (m_operation state)
               then conflict (''result is for revision '' @ show_nat (ei_expected_revision ident)
                              @ '', now at '' @ show_nat (op_revision (m_operation state)))
               else (case ANSWERS event of
                       None \<Rightarrow> ok ()
                     | Some answers \<Rightarrow>
                         if answers \<noteq> ef_kind pending
                         then conflict (''a '' @ effect_kind_name (ef_kind pending)
                                        @ '' effect cannot answer with '' @ event_type event)
                         else ok ())))"

definition reduce_cancel :: "operation_machine \<Rightarrow> transition_input \<Rightarrow> transition result" where
  "reduce_cancel state input =
     (let operation = m_operation state; phase = op_phase operation in
      if phase = Ready \<or> phase = Removed \<or> phase = Cancelled then ok (state, [])
      else if phase = Cancelling then ok (state, [])
      else if phase = Failed then
        (if op_completed_step_ids operation = []
         then advance state (\<lambda>op. op\<lparr>op_phase := Cancelled, op_cancellation_requested := True\<rparr>) No_effect False
         else startCancelling state input)
      else if m_indivisible_host_step_running state \<or> phase = Activating then
        (if op_cancellation_requested operation then ok (state, [])
         else advance state (\<lambda>op. op\<lparr>op_cancellation_requested := True\<rparr>) Keep
                (m_indivisible_host_step_running state))
      else startCancelling state input)"

text \<open>\<open>String(digest)\<close> of a nullable digest.\<close>

definition show_digest :: "sha256 option \<Rightarrow> string" where
  "show_digest d = (case d of None \<Rightarrow> ''null'' | Some s \<Rightarrow> s)"

definition reduce_resume ::
  "operation_machine \<Rightarrow> resume_operation \<Rightarrow> transition_input \<Rightarrow> transition result" where
  "reduce_resume state req input =
     (let operation = m_operation state; phase = op_phase operation;
          restated = rs_approved_plan_digest req in
      if phase = Ready \<or> phase = Removed then ok (state, [])
      else if rs_expected_revision req \<noteq> op_revision operation then
        err ''MANAGED_REVISION_CONFLICT'' ''The operation has moved on since this resume was prepared.''
          (Some (''expected '' @ show_nat (rs_expected_revision req) @ '', now at ''
                 @ show_nat (op_revision operation)))
      else if phase \<noteq> Failed \<and> phase \<noteq> Cancelled \<and> phase \<noteq> Relogin_required \<and> phase \<noteq> Reboot_required
      then conflict (phase_name phase @ '' is already running'')
      else if restated \<noteq> None \<and> restated \<noteq> op_plan_digest operation then
        err ''MANAGED_PLAN_CHANGED''
          ''This approval is not for the plan the operation is on; resume without one, and approve the plan it offers.''
          (Some (''approval '' @ show_digest restated @ '', plan '' @ show_digest (op_plan_digest operation)))
      else advance state
             (\<lambda>op. op\<lparr>op_phase := Checking, op_error := None, op_cancellation_requested := False,
                      op_approved_plan_digest :=
                        (case restated of None \<Rightarrow> op_approved_plan_digest operation | Some d \<Rightarrow> Some d)\<rparr>)
             (Issue Reconcile input) False)"

definition reduce_approve ::
  "operation_machine \<Rightarrow> resume_operation \<Rightarrow> transition_input \<Rightarrow> transition result" where
  "reduce_approve state req input =
     (let operation = m_operation state; phase = op_phase operation in
      if phase \<noteq> Awaiting_consent
      then conflict (''nothing is awaiting consent in '' @ phase_name phase)
      else if rs_expected_revision req \<noteq> op_revision operation then
        err ''MANAGED_REVISION_CONFLICT'' ''The operation has moved on since this approval was prepared.''
          (Some (''expected '' @ show_nat (rs_expected_revision req) @ '', now at ''
                 @ show_nat (op_revision operation)))
      else (case rs_approved_plan_digest req of
              None \<Rightarrow> err ''MANAGED_CONSENT_REQUIRED'' ''This operation needs the plan to be approved.'' None
            | Some approved \<Rightarrow>
                advance state
                  (\<lambda>op. op\<lparr>op_phase := Checking, op_approved_plan_digest := Some approved, op_error := None\<rparr>)
                  (Issue Probe input) False))"

definition reduce_blocked ::
  "operation_machine \<Rightarrow> requirement_plan \<Rightarrow> managed_blocker \<Rightarrow> transition result" where
  "reduce_blocked state plan blocker =
     (case find (\<lambda>entry. err_code entry = ''MANAGED_RELOGIN_REQUIRED'') (pl_blockers plan) of
        Some relogin \<Rightarrow>
          if length (pl_blockers plan) = 1
          then advance state
                 (\<lambda>op. (probedDigest state (Some (pl_plan_digest plan)) op)
                         \<lparr>op_phase := Relogin_required, op_error := Some (errorOf relogin)\<rparr>)
                 No_effect False
          else advance state
                 (\<lambda>op. (probedDigest state (Some (pl_plan_digest plan)) op)
                         \<lparr>op_phase := Failed, op_error := Some (errorOf blocker)\<rparr>)
                 No_effect False
      | None \<Rightarrow>
          advance state
            (\<lambda>op. (probedDigest state (Some (pl_plan_digest plan)) op)
                    \<lparr>op_phase := Failed, op_error := Some (errorOf blocker)\<rparr>)
            No_effect False)"

text \<open>The tail of \<open>requirements-ready\<close>: no consent this operation already acted on covers the plan.\<close>

definition reduce_fresh_plan ::
  "operation_machine \<Rightarrow> requirements_ready \<Rightarrow> transition_input \<Rightarrow> transition result" where
  "reduce_fresh_plan state event input =
     (let operation = m_operation state; plan = rq_plan event; digest = pl_plan_digest plan in
      if op_approved_plan_digest operation \<noteq> Some digest then
        advance state
          (\<lambda>op. op\<lparr>op_phase := Awaiting_consent, op_plan_digest := Some digest,
                   op_carried_plan_digest := None,
                   op_error :=
                     (if op_approved_plan_digest operation \<noteq> None
                      then Some \<lparr>err_code = ''MANAGED_PLAN_CHANGED'',
                                 err_message = ''What this setup would do has changed; approve it again.'',
                                 err_details = None\<rparr>
                      else None)\<rparr>)
          No_effect False
      else afterConsent
             (state\<lparr>m_consented :=
                      Some \<lparr>cb_plan_digest = digest, cb_descriptor_id = pl_descriptor_id plan,
                            cb_image_digest = pl_image_digest plan,
                            cb_environment_manifest_id = pl_environment_manifest_id plan,
                            cb_target = pl_target plan\<rparr>,
                    m_operation := operation\<lparr>op_plan_digest := Some digest,
                                             op_carried_plan_digest := None\<rparr>\<rparr>)
             input (rq_host_step event))"

definition reduce_requirements_ready ::
  "operation_machine \<Rightarrow> requirements_ready \<Rightarrow> transition_input \<Rightarrow> transition result" where
  "reduce_requirements_ready state event input =
     (let operation = m_operation state; phase = op_phase operation; plan = rq_plan event;
          digest = pl_plan_digest plan in
      if phase \<noteq> Checking then conflict (''requirements arrived in '' @ phase_name phase)
      else if op_cancellation_requested operation then startCancelling state input
      else (case pl_blockers plan of
        blocker # _ \<Rightarrow> reduce_blocked state plan blocker
      | [] \<Rightarrow>
          (case m_consented state of
             Some basis \<Rightarrow>
               if m_checkpoint state \<noteq> None \<and> rq_host_step event = None
                  \<and> op_approved_plan_digest operation = Some (cb_plan_digest basis)
                  \<and> consentCovers basis plan (op_kind operation)
               then continueConsentedWork
                      (state\<lparr>m_operation := operation\<lparr>op_plan_digest := Some (cb_plan_digest basis),
                                                     op_carried_plan_digest := Some digest\<rparr>\<rparr>)
                      input (case rq_image_present event of None \<Rightarrow> False | Some b \<Rightarrow> b)
               else reduce_fresh_plan state event input
           | None \<Rightarrow> reduce_fresh_plan state event input)))"

definition reduce_host_step_started :: "operation_machine \<Rightarrow> transition result" where
  "reduce_host_step_started state =
     (let phase = op_phase (m_operation state) in
      if phase \<noteq> Preparing_host then conflict (''a host step started in '' @ phase_name phase)
      else advance state (\<lambda>op. op) Keep True)"

definition reduce_safe_boundary :: "operation_machine \<Rightarrow> transition_input \<Rightarrow> transition result" where
  "reduce_safe_boundary state input =
     (if op_cancellation_requested (m_operation state) then startCancelling state input
      else advance state (\<lambda>op. op) Keep False)"

definition receipt_waiting :: "receipt_verified \<Rightarrow> managed_phase option" where
  "receipt_waiting event =
     (if rv_needs_relogin event = Some True then Some Relogin_required
      else if rc_outcome (rv_receipt event) = Out_reboot_required \<and> \<not> rv_prerequisites_met event
      then Some Reboot_required else None)"

definition reduce_host_receipt_verified ::
  "operation_machine \<Rightarrow> receipt_verified \<Rightarrow> transition_input \<Rightarrow> transition result" where
  "reduce_host_receipt_verified state event input =
     (let operation = m_operation state; phase = op_phase operation; receipt = rv_receipt event;
          steps = (if rc_step_id receipt \<in> set (op_completed_step_ids operation)
                   then op_completed_step_ids operation
                   else op_completed_step_ids operation @ [rc_step_id receipt]);
          kept = (\<lambda>op. op\<lparr>op_completed_step_ids := steps, op_pending_host_step := None\<rparr>) in
      if phase \<noteq> Preparing_host then conflict (''a receipt arrived in '' @ phase_name phase)
      else if rc_outcome receipt = Out_declined then
        failWith state
          \<lparr>err_code = ''MANAGED_ELEVATION_DECLINED'',
           err_message = ''The system change was not authorized.'', err_details = None\<rparr> False
      else if rc_outcome receipt = Out_failed then
        failWith state (hostStepFailureError receipt (rv_address_pools_configured event)) False
      else (case receipt_waiting event of
        Some waiting \<Rightarrow>
          if op_cancellation_requested operation
          then advance state (\<lambda>op. (kept op)\<lparr>op_phase := Cancelling\<rparr>) (Issue Cleanup input) False
          else advance state
                 (\<lambda>op. (kept op)\<lparr>op_phase := waiting,
                                op_error := (if waiting = Relogin_required then Some RELOGIN_ERROR else None)\<rparr>)
                 No_effect False
      | None \<Rightarrow>
          if \<not> rv_prerequisites_met event then
            advance state
              (\<lambda>op. (kept op)\<lparr>op_phase := Failed,
                 op_error := Some (case rv_probe_error event of
                   Some e \<Rightarrow> e
                 | None \<Rightarrow> \<lparr>err_code = ''MANAGED_PREREQUISITE_BLOCKED'',
                             err_message = ''The system change was reported as done, but the requirement is still missing.'',
                             err_details = None\<rparr>)\<rparr>)
              No_effect False
          else continueOrCancel (state\<lparr>m_operation := kept operation\<rparr>) input
                 (advance (state\<lparr>m_operation := kept operation\<rparr>)
                    (\<lambda>op. (kept op)\<lparr>op_phase := Preparing_environment, op_error := None\<rparr>)
                    (Issue Prepare_environment input) False)))"

definition reduce_reconciled ::
  "operation_machine \<Rightarrow> reconciled_facts \<Rightarrow> transition_input \<Rightarrow> transition result" where
  "reduce_reconciled state event input =
     (let operation = m_operation state; phase = op_phase operation;
          base = (\<lambda>op. (probedDigest state (rf_current_plan_digest event)
                   (op\<lparr>op_instance_id := rf_instance_id event,
                       op_completed_step_ids := rf_verified_completed_step_ids event\<rparr>))
                   \<lparr>op_pending_host_step := None\<rparr>) in
      if phase \<noteq> Checking then conflict (''reconciliation answered in '' @ phase_name phase)
      else if op_cancellation_requested operation then
        advance state (\<lambda>op. (base op)\<lparr>op_phase := Cancelling\<rparr>) (Issue Cleanup input) False
      else if rf_needs_relogin event then
        advance state (\<lambda>op. (base op)\<lparr>op_phase := Relogin_required, op_error := Some RELOGIN_ERROR\<rparr>)
          No_effect False
      else if rf_needs_reboot event then
        advance state (\<lambda>op. (base op)\<lparr>op_phase := Reboot_required\<rparr>) No_effect False
      else advance state base (Issue Probe input) False)"

definition reduce_environment_verified ::
  "operation_machine \<Rightarrow> transition_input \<Rightarrow> transition result" where
  "reduce_environment_verified state input =
     (let operation = m_operation state; phase = op_phase operation in
      if phase \<noteq> Preparing_environment
      then conflict (''the environment was verified in '' @ phase_name phase)
      else continueOrCancel state input
             (if op_target operation = Target_environment
              then advance state (\<lambda>op. op\<lparr>op_phase := Verifying\<rparr>) (Issue Verify input) False
              else advance state (\<lambda>op. op\<lparr>op_phase := Pulling_image\<rparr>) (Issue Pull_image input) False))"

definition reduce_image_pulled :: "operation_machine \<Rightarrow> transition_input \<Rightarrow> transition result" where
  "reduce_image_pulled state input =
     (let phase = op_phase (m_operation state) in
      if phase \<noteq> Pulling_image then conflict (''an image arrived in '' @ phase_name phase)
      else continueOrCancel state input
             (advance state (\<lambda>op. op\<lparr>op_phase := Verifying, op_progress := None\<rparr>) (Issue Verify input) False))"

definition reduce_verification_passed :: "operation_machine \<Rightarrow> transition_input \<Rightarrow> transition result" where
  "reduce_verification_passed state input =
     (let operation = m_operation state; phase = op_phase operation in
      if phase \<noteq> Verifying then conflict (''verification passed in '' @ phase_name phase)
      else continueOrCancel state input
             (if op_target operation = Target_environment
              then advance state (\<lambda>op. op\<lparr>op_phase := Ready, op_error := None\<rparr>) No_effect False
              else if op_kind operation = Update
              then advance state (\<lambda>op. op\<lparr>op_phase := Activating\<rparr>) (Issue Unload_resident input) False
              else advance state (\<lambda>op. op\<lparr>op_phase := Activating\<rparr>) (Issue Activate input) False))"

definition reduce_resident_unloaded :: "operation_machine \<Rightarrow> transition_input \<Rightarrow> transition result" where
  "reduce_resident_unloaded state input =
     (let phase = op_phase (m_operation state) in
      if phase \<noteq> Activating then conflict (''a model was unloaded in '' @ phase_name phase)
      else advance state (\<lambda>op. op) (Issue Activate input) False)"

definition reduce_activation_committed :: "operation_machine \<Rightarrow> transition result" where
  "reduce_activation_committed state =
     (let phase = op_phase (m_operation state) in
      if phase \<noteq> Activating then conflict (''an activation committed in '' @ phase_name phase)
      else advance state
             (\<lambda>op. op\<lparr>op_phase := Ready, op_cancellation_requested := False, op_error := None\<rparr>)
             No_effect False)"

definition reduce_removal_completed :: "operation_machine \<Rightarrow> transition result" where
  "reduce_removal_completed state =
     (let phase = op_phase (m_operation state) in
      if phase \<noteq> Removing then conflict (''a removal completed in '' @ phase_name phase)
      else advance state (\<lambda>op. op\<lparr>op_phase := Removed, op_error := None\<rparr>) No_effect False)"

definition reduce_cleanup_completed :: "operation_machine \<Rightarrow> transition result" where
  "reduce_cleanup_completed state =
     (let phase = op_phase (m_operation state) in
      if phase \<noteq> Cancelling then conflict (''cleanup completed in '' @ phase_name phase)
      else advance state (\<lambda>op. op\<lparr>op_phase := Cancelled\<rparr>) No_effect False)"

definition reduce_failed :: "operation_machine \<Rightarrow> error_body \<Rightarrow> transition result" where
  "reduce_failed state error =
     (let phase = op_phase (m_operation state) in
      if phase \<in> set TERMINAL then conflict (phase_name phase @ '' has already finished'')
      else failWith state error True)"

fun reduce_event ::
  "operation_machine \<Rightarrow> operation_event \<Rightarrow> transition_input \<Rightarrow> transition result" where
  "reduce_event state Ev_cancel input = reduce_cancel state input"
| "reduce_event state (Ev_resume req) input = reduce_resume state req input"
| "reduce_event state (Ev_approve req) input = reduce_approve state req input"
| "reduce_event state (Ev_requirements_ready _ ev) input = reduce_requirements_ready state ev input"
| "reduce_event state (Ev_host_step_started _) input = reduce_host_step_started state"
| "reduce_event state (Ev_safe_boundary _) input = reduce_safe_boundary state input"
| "reduce_event state (Ev_host_receipt_verified _ ev) input = reduce_host_receipt_verified state ev input"
| "reduce_event state (Ev_reconciled _ ev) input = reduce_reconciled state ev input"
| "reduce_event state (Ev_environment_verified _) input = reduce_environment_verified state input"
| "reduce_event state (Ev_image_pulled _) input = reduce_image_pulled state input"
| "reduce_event state (Ev_verification_passed _) input = reduce_verification_passed state input"
| "reduce_event state (Ev_resident_unloaded _) input = reduce_resident_unloaded state input"
| "reduce_event state (Ev_activation_committed _) input = reduce_activation_committed state"
| "reduce_event state (Ev_removal_completed _) input = reduce_removal_completed state"
| "reduce_event state (Ev_cleanup_completed _) input = reduce_cleanup_completed state"
| "reduce_event state (Ev_failed _ e) input = reduce_failed state e"

definition reduceOperation ::
  "operation_machine \<Rightarrow> operation_event \<Rightarrow> transition_input \<Rightarrow> transition result" where
  "reduceOperation state event input =
     (case reduce_guard state event of Inl e \<Rightarrow> Inl e | Inr _ \<Rightarrow> reduce_event state event input)"

end
