(* ===== verification/Machine_Inv.thy ===== *)
theory Machine_Inv
  imports Machine
begin

text \<open>
  What holds of every machine a run of the reducer can reach: the work in flight fits the phase, work
  runs only under the approval of the plan it names, a checkpoint is the record of a consent acted on,
  and a result is accepted only for the effect that is pending at the revision it is now.
\<close>

section \<open>The invariant\<close>

text \<open>The effect a phase is waiting on; a phase that waits on the user or has ended has none.\<close>

fun effect_fits :: "managed_phase \<Rightarrow> effect_kind option \<Rightarrow> bool" where
  "effect_fits Checking k = (k = Some Probe \<or> k = Some Reconcile)"
| "effect_fits Preparing_host k = (k = Some Host_step)"
| "effect_fits Preparing_environment k = (k = Some Prepare_environment)"
| "effect_fits Pulling_image k = (k = Some Pull_image)"
| "effect_fits Verifying k = (k = Some Verify)"
| "effect_fits Activating k = (k = Some Unload_resident \<or> k = Some Activate)"
| "effect_fits Removing k = (k = Some Remove_effect)"
| "effect_fits Cancelling k = (k = Some Cleanup)"
| "effect_fits _ k = (k = None)"

text \<open>Phases in which something has been, or is being, done to the machine under a consent.\<close>

definition consented_phase :: "managed_phase \<Rightarrow> bool" where
  "consented_phase p \<longleftrightarrow> p \<in> set WORK_PHASES \<or> p = Ready \<or> p = Removed"

definition inv_effect :: "operation_machine \<Rightarrow> bool" where
  "inv_effect m \<longleftrightarrow>
     effect_fits (op_phase (m_operation m)) (map_option ef_kind (m_pending_effect m)) \<and>
     (\<forall>e. m_pending_effect m = Some e \<longrightarrow>
        ef_operation_id e = op_operation_id (m_operation m) \<and>
        ef_expected_revision e \<le> op_revision (m_operation m) \<and>
        (op_phase (m_operation m) \<in> set WORK_PHASES \<longrightarrow>
           ef_plan_digest e = op_plan_digest (m_operation m)))"

definition inv_consent :: "operation_machine \<Rightarrow> bool" where
  "inv_consent m \<longleftrightarrow>
     (consented_phase (op_phase (m_operation m)) \<longrightarrow>
        (\<exists>b. m_consented m = Some b \<and>
             op_plan_digest (m_operation m) = Some (cb_plan_digest b) \<and>
             op_approved_plan_digest (m_operation m) = Some (cb_plan_digest b)))"

definition inv_checkpoint :: "operation_machine \<Rightarrow> bool" where
  "inv_checkpoint m \<longleftrightarrow>
     (op_phase (m_operation m) \<in> set WORK_PHASES \<longrightarrow> m_checkpoint m = Some (op_phase (m_operation m))) \<and>
     (m_checkpoint m = None \<longleftrightarrow> m_consented m = None) \<and>
     (\<forall>p. m_checkpoint m = Some p \<longrightarrow> p \<in> set WORK_PHASES)"

definition inv_host_step :: "operation_machine \<Rightarrow> bool" where
  "inv_host_step m \<longleftrightarrow>
     (m_indivisible_host_step_running m \<longrightarrow> op_phase (m_operation m) = Preparing_host) \<and>
     (op_phase (m_operation m) = Preparing_host \<longrightarrow>
        (\<exists>step. op_pending_host_step (m_operation m) = Some step \<and>
                hs_expected_operation_revision step \<le> op_revision (m_operation m)))"

definition machine_inv :: "operation_machine \<Rightarrow> bool" where
  "machine_inv m \<longleftrightarrow> inv_effect m \<and> inv_consent m \<and> inv_checkpoint m \<and> inv_host_step m"

text \<open>A step of the machine: an accepted event, whoever sends it and whatever fresh id it is given.\<close>

definition machine_step :: "operation_machine \<Rightarrow> operation_machine \<Rightarrow> bool" where
  "machine_step m m' \<longleftrightarrow> (\<exists>event input effs. reduceOperation m event input = Inr (m', effs))"

definition machine_start :: "operation_machine \<Rightarrow> bool" where
  "machine_start m \<longleftrightarrow> (\<exists>input tr. m = fst (startOperation input tr))"

abbreviation machine_reached :: "operation_machine \<Rightarrow> bool" where
  "machine_reached \<equiv> reached machine_start machine_step"

lemmas inv_defs = inv_effect_def inv_consent_def inv_checkpoint_def inv_host_step_def consented_phase_def

lemmas reduce_defs = conflict_def startCancelling_def afterConsent_def continueConsentedWork_def
  continueOrCancel_def failWith_def probedDigest_def

section \<open>Steps of the reducer\<close>

lemma advance_Inr:
  "advance m patch eff ind = Inr (m', effs) \<longleftrightarrow>
     (let op' = (patch (m_operation m))\<lparr>op_revision := op_revision (m_operation m) + 1\<rparr> in
      m' = m\<lparr>m_operation := op',
             m_pending_effect := (if eff = Keep then m_pending_effect m else issued_effect eff op'),
             m_indivisible_host_step_running := ind,
             m_checkpoint := (if op_phase op' \<in> set WORK_PHASES then Some (op_phase op')
                              else m_checkpoint m)\<rparr> \<and>
      effs = (case issued_effect eff op' of None \<Rightarrow> [] | Some i \<Rightarrow> [i]))"
  by (auto simp: advance_def Let_def)

lemma set_WORK_PHASES [simp]:
  "p \<in> set WORK_PHASES \<longleftrightarrow> p = Preparing_host \<or> p = Preparing_environment \<or> p = Pulling_image \<or>
     p = Verifying \<or> p = Activating \<or> p = Removing"
  by (auto simp: WORK_PHASES_def)

lemma set_TERMINAL [simp]:
  "p \<in> set TERMINAL \<longleftrightarrow> p = Ready \<or> p = Removed \<or> p = Cancelled \<or> p = Failed"
  by (auto simp: TERMINAL_def)

lemma issued_effect_simps [simp]:
  "issued_effect No_effect op = None"
  "issued_effect Keep op = None"
  "issued_effect (Issue k i) op =
     Some \<lparr>ef_effect_id = next_effect_id i, ef_operation_id = op_operation_id op,
           ef_expected_revision = op_revision op, ef_kind = k, ef_plan_digest = op_plan_digest op\<rparr>"
  by (simp_all add: issued_effect_def)

section \<open>What one transition has to establish\<close>

text \<open>The half of the invariant that does not depend on the phase.\<close>

definition inv_base :: "operation_machine \<Rightarrow> bool" where
  "inv_base m \<longleftrightarrow> (m_checkpoint m = None \<longleftrightarrow> m_consented m = None) \<and>
     (\<forall>p. m_checkpoint m = Some p \<longrightarrow> p \<in> set WORK_PHASES)"

definition consent_holds :: "operation_machine \<Rightarrow> environment_operation \<Rightarrow> bool" where
  "consent_holds m op \<longleftrightarrow>
     (\<exists>b. m_consented m = Some b \<and> op_plan_digest op = Some (cb_plan_digest b) \<and>
          op_approved_plan_digest op = Some (cb_plan_digest b))"

definition host_step_issued :: "nat \<Rightarrow> environment_operation \<Rightarrow> bool" where
  "host_step_issued r op \<longleftrightarrow>
     (\<exists>step. op_pending_host_step op = Some step \<and> hs_expected_operation_revision step \<le> r)"

lemma inv_baseI: "machine_inv m \<Longrightarrow> inv_base m"
  by (auto simp: machine_inv_def inv_checkpoint_def inv_base_def)

lemma inv_consentD:
  "machine_inv m \<Longrightarrow> consented_phase (op_phase (m_operation m)) \<Longrightarrow> consent_holds m (m_operation m)"
  by (simp add: machine_inv_def inv_consent_def consent_holds_def)

lemma consented_phase_simps [simp]:
  "consented_phase p \<longleftrightarrow> p = Preparing_host \<or> p = Preparing_environment \<or> p = Pulling_image \<or>
     p = Verifying \<or> p = Activating \<or> p = Removing \<or> p = Ready \<or> p = Removed"
  by (auto simp: consented_phase_def)

lemma advance_issue_inv:
  assumes adv: "advance m patch (Issue k i) False = Inr (m', effs)"
    and base: "inv_base m \<or> m_consented m \<noteq> None \<and> op_phase (patch (m_operation m)) \<in> set WORK_PHASES"
    and ident: "op_operation_id (patch (m_operation m)) = op_operation_id (m_operation m)"
    and fits: "effect_fits (op_phase (patch (m_operation m))) (Some k)"
    and consent: "consented_phase (op_phase (patch (m_operation m))) \<Longrightarrow> consent_holds m (patch (m_operation m))"
    and host: "op_phase (patch (m_operation m)) = Preparing_host \<Longrightarrow>
                 host_step_issued (op_revision (m_operation m) + 1) (patch (m_operation m))"
  shows "machine_inv m'"
proof -
  have "m_consented m \<noteq> None" if "op_phase (patch (m_operation m)) \<in> set WORK_PHASES"
    using consent that by (auto simp: consent_holds_def)
  with adv base ident fits consent host show ?thesis
    unfolding machine_inv_def inv_effect_def inv_consent_def inv_checkpoint_def inv_host_step_def
      inv_base_def consent_holds_def host_step_issued_def advance_Inr Let_def
    by (intro conjI) (auto simp del: set_WORK_PHASES)
qed

lemma advance_none_inv:
  assumes adv: "advance m patch No_effect False = Inr (m', effs)"
    and base: "inv_base m"
    and fits: "effect_fits (op_phase (patch (m_operation m))) None"
    and consent: "consented_phase (op_phase (patch (m_operation m))) \<Longrightarrow> consent_holds m (patch (m_operation m))"
  shows "machine_inv m'"
proof -
  have nw: "op_phase (patch (m_operation m)) \<notin> set WORK_PHASES"
    using fits by (cases "op_phase (patch (m_operation m))") auto
  then have "op_phase (patch (m_operation m)) \<noteq> Preparing_host" by auto
  with nw adv base fits consent show ?thesis
    unfolding machine_inv_def inv_effect_def inv_consent_def inv_checkpoint_def inv_host_step_def
      inv_base_def consent_holds_def advance_Inr Let_def
    by (intro conjI) (auto simp del: set_WORK_PHASES)
qed

lemma advance_keep_inv:
  assumes adv: "advance m patch Keep ind = Inr (m', effs)"
    and inv: "machine_inv m"
    and ind: "ind \<Longrightarrow> op_phase (m_operation m) = Preparing_host"
    and same: "op_phase (patch (m_operation m)) = op_phase (m_operation m)"
      "op_operation_id (patch (m_operation m)) = op_operation_id (m_operation m)"
      "op_plan_digest (patch (m_operation m)) = op_plan_digest (m_operation m)"
      "op_approved_plan_digest (patch (m_operation m)) = op_approved_plan_digest (m_operation m)"
      "op_pending_host_step (patch (m_operation m)) = op_pending_host_step (m_operation m)"
  shows "machine_inv m'"
proof -
  from adv same have m': "m_operation m' = (patch (m_operation m))\<lparr>op_revision := op_revision (m_operation m) + 1\<rparr>"
    "m_pending_effect m' = m_pending_effect m" "m_consented m' = m_consented m"
    "m_indivisible_host_step_running m' = ind"
    "m_checkpoint m' = (if op_phase (m_operation m) \<in> set WORK_PHASES then Some (op_phase (m_operation m))
                        else m_checkpoint m)"
    by (simp_all add: advance_Inr Let_def del: set_WORK_PHASES)
  have "inv_effect m'"
    using inv m' same unfolding machine_inv_def inv_effect_def by (auto simp del: set_WORK_PHASES)
  moreover have "inv_consent m'"
    using inv m' same unfolding machine_inv_def inv_consent_def by (auto simp del: consented_phase_simps)
  moreover have "inv_checkpoint m'"
    using inv m' same unfolding machine_inv_def inv_checkpoint_def by (auto simp del: set_WORK_PHASES)
  moreover have "inv_host_step m'"
    using inv m' same ind unfolding machine_inv_def inv_host_step_def by (auto intro: le_SucI)
  ultimately show ?thesis by (simp add: machine_inv_def)
qed

lemmas advance_inv = advance_issue_inv advance_none_inv advance_keep_inv

lemma inv_hostD: "machine_inv m \<Longrightarrow> m_indivisible_host_step_running m \<Longrightarrow>
    op_phase (m_operation m) = Preparing_host"
  by (simp add: machine_inv_def inv_host_step_def)

lemma inv_cancel:
  assumes inv: "machine_inv m" and step: "reduce_cancel m input = Inr (m', effs)"
  shows "machine_inv m'"
  using step inv inv_baseI [OF inv] inv_hostD [OF inv]
  unfolding reduce_cancel_def startCancelling_def Let_def
  by (auto split: if_splits elim!: advance_inv)

lemma inv_resume:
  assumes inv: "machine_inv m" and step: "reduce_resume m req input = Inr (m', effs)"
  shows "machine_inv m'"
  using step inv inv_baseI [OF inv] unfolding reduce_resume_def conflict_def Let_def
  by (auto split: if_splits elim!: advance_inv)

lemma inv_approve:
  assumes inv: "machine_inv m" and step: "reduce_approve m req input = Inr (m', effs)"
  shows "machine_inv m'"
  using step inv_baseI [OF inv] unfolding reduce_approve_def conflict_def Let_def
  by (auto split: if_splits option.splits elim!: advance_inv)

lemma inv_startCancelling:
  assumes "inv_base m" "startCancelling m input = Inr (m', effs)"
  shows "machine_inv m'"
  using assms unfolding startCancelling_def by (auto elim!: advance_inv)

lemma inv_afterConsent:
  assumes step: "afterConsent m input hostStep = Inr (m', effs)"
    and consent: "consent_holds m (m_operation m)"
  shows "machine_inv m'"
  using step consent unfolding afterConsent_def Let_def
  by (auto simp: consent_holds_def host_step_issued_def
      split: option.splits managed_operation_kind.splits elim!: advance_inv)

lemma inv_continueConsentedWork:
  assumes step: "continueConsentedWork m input present = Inr (m', effs)"
    and consent: "consent_holds m (m_operation m)"
  shows "machine_inv m'"
  using step consent unfolding continueConsentedWork_def Let_def
  by (auto simp: consent_holds_def split: if_splits elim!: advance_inv inv_afterConsent)

lemma inv_blocked:
  assumes base: "inv_base m" and step: "reduce_blocked m plan b = Inr (m', effs)"
  shows "machine_inv m'"
  using base step unfolding reduce_blocked_def
  by (auto split: option.splits if_splits elim!: advance_inv)

lemma inv_fresh_plan:
  assumes base: "inv_base m" and step: "reduce_fresh_plan m ev input = Inr (m', effs)"
  shows "machine_inv m'"
  using base step unfolding reduce_fresh_plan_def Let_def
  by (auto simp: consent_holds_def split: if_splits elim!: advance_inv inv_afterConsent)

lemma inv_requirements_ready:
  assumes inv: "machine_inv m" and step: "reduce_requirements_ready m ev input = Inr (m', effs)"
  shows "machine_inv m'"
  using step inv_baseI [OF inv] unfolding reduce_requirements_ready_def conflict_def Let_def
  by (auto simp: consent_holds_def split: if_splits list.splits option.splits
      elim!: inv_startCancelling [rotated] inv_blocked [rotated] inv_fresh_plan [rotated]
        inv_continueConsentedWork)

lemma inv_host_step_started:
  assumes inv: "machine_inv m" and step: "reduce_host_step_started m = Inr (m', effs)"
  shows "machine_inv m'"
  using step inv unfolding reduce_host_step_started_def conflict_def Let_def
  by (auto split: if_splits elim!: advance_inv)

lemma inv_safe_boundary:
  assumes inv: "machine_inv m" and step: "reduce_safe_boundary m input = Inr (m', effs)"
  shows "machine_inv m'"
  using step inv inv_baseI [OF inv] unfolding reduce_safe_boundary_def
  by (auto split: if_splits elim!: advance_inv inv_startCancelling [rotated])

lemma receipt_waiting_phase: "receipt_waiting ev = Some p \<Longrightarrow> p = Relogin_required \<or> p = Reboot_required"
  by (auto simp: receipt_waiting_def split: if_splits)

lemma inv_host_receipt_verified:
  assumes inv: "machine_inv m" and step: "reduce_host_receipt_verified m ev input = Inr (m', effs)"
  shows "machine_inv m'"
proof -
  have consent: "op_phase (m_operation m) = Preparing_host \<Longrightarrow> consent_holds m (m_operation m)"
    using inv_consentD [OF inv] by simp
  show ?thesis
    using step inv_baseI [OF inv] consent
    unfolding reduce_host_receipt_verified_def conflict_def failWith_def continueOrCancel_def Let_def
    by (auto simp: consent_holds_def inv_base_def split: if_splits option.splits
        dest: receipt_waiting_phase elim!: advance_inv inv_startCancelling [rotated])
qed

lemma inv_reconciled:
  assumes inv: "machine_inv m" and step: "reduce_reconciled m ev input = Inr (m', effs)"
  shows "machine_inv m'"
  using step inv_baseI [OF inv] unfolding reduce_reconciled_def conflict_def probedDigest_def Let_def
  by (auto split: if_splits elim!: advance_inv)

lemma inv_environment_verified:
  assumes inv: "machine_inv m" and step: "reduce_environment_verified m input = Inr (m', effs)"
  shows "machine_inv m'"
  using step inv_baseI [OF inv] inv_consentD [OF inv]
  unfolding reduce_environment_verified_def conflict_def continueOrCancel_def Let_def
  by (auto simp: consent_holds_def split: if_splits elim!: advance_inv inv_startCancelling [rotated])

lemma inv_image_pulled:
  assumes inv: "machine_inv m" and step: "reduce_image_pulled m input = Inr (m', effs)"
  shows "machine_inv m'"
  using step inv_baseI [OF inv] inv_consentD [OF inv]
  unfolding reduce_image_pulled_def conflict_def continueOrCancel_def Let_def
  by (auto simp: consent_holds_def split: if_splits elim!: advance_inv inv_startCancelling [rotated])

lemma inv_verification_passed:
  assumes inv: "machine_inv m" and step: "reduce_verification_passed m input = Inr (m', effs)"
  shows "machine_inv m'"
  using step inv_baseI [OF inv] inv_consentD [OF inv]
  unfolding reduce_verification_passed_def conflict_def continueOrCancel_def Let_def
  by (auto simp: consent_holds_def split: if_splits elim!: advance_inv inv_startCancelling [rotated])

lemma inv_activation:
  assumes inv: "machine_inv m"
  shows "reduce_resident_unloaded m input = Inr (m', effs) \<Longrightarrow> machine_inv m'"
    and "reduce_activation_committed m = Inr (m', effs) \<Longrightarrow> machine_inv m'"
  using inv_baseI [OF inv] inv_consentD [OF inv]
  unfolding reduce_resident_unloaded_def reduce_activation_committed_def conflict_def Let_def
  by (auto simp: consent_holds_def split: if_splits elim!: advance_inv)

lemma inv_finish:
  assumes inv: "machine_inv m"
  shows "reduce_removal_completed m = Inr (m', effs) \<Longrightarrow> machine_inv m'"
    and "reduce_cleanup_completed m = Inr (m', effs) \<Longrightarrow> machine_inv m'"
    and "reduce_failed m e = Inr (m', effs) \<Longrightarrow> machine_inv m'"
  using inv_baseI [OF inv] inv_consentD [OF inv]
  unfolding reduce_removal_completed_def reduce_cleanup_completed_def reduce_failed_def failWith_def
    conflict_def Let_def
  by (auto simp: consent_holds_def split: if_splits elim!: advance_inv)

lemmas event_invs = inv_cancel inv_resume inv_approve inv_requirements_ready inv_host_step_started
  inv_safe_boundary inv_host_receipt_verified inv_reconciled inv_environment_verified inv_image_pulled
  inv_verification_passed inv_activation inv_finish

lemma reduceOperation_Inr:
  "reduceOperation m ev input = Inr r \<longleftrightarrow> reduce_guard m ev = Inr () \<and> reduce_event m ev input = Inr r"
  by (auto simp: reduceOperation_def split: sum.splits)

lemma machine_inv_event:
  assumes "machine_inv m" "reduce_event m ev input = Inr (m', effs)"
  shows "machine_inv m'"
  using assms by (cases ev) (auto intro: event_invs)

lemma machine_inv_reduce:
  "machine_inv m \<Longrightarrow> reduceOperation m ev input = Inr (m', effs) \<Longrightarrow> machine_inv m'"
  unfolding reduceOperation_Inr using machine_inv_event by blast

lemma machine_inv_start: "machine_inv (fst (startOperation input tr))"
  by (simp add: startOperation_def machine_inv_def inv_defs Let_def)

interpretation env_machine: invariant_system machine_start machine_step machine_inv
proof
  show "machine_inv s" if "machine_start s" for s
    using that machine_inv_start by (auto simp: machine_start_def)
  show "machine_inv t" if "machine_inv s" "machine_step s t" for s t
    using that machine_inv_event by (auto simp: machine_step_def reduceOperation_Inr)
qed

end
