(* ===== verification/Machine_Props.thy ===== *)
theory Machine_Props
  imports Machine_Inv
begin

text \<open>
  The properties of the operation machine: consent, stale results, revisions, progress, the end of
  every run and what a cancellation does.
\<close>

section \<open>Ranking answers\<close>

text \<open>How many answers a machine can still take before it ends or waits on the user.\<close>

fun phase_rank :: "managed_phase \<Rightarrow> effect_kind option \<Rightarrow> nat" where
  "phase_rank Checking k = (if k = Some Reconcile then 9 else 8)"
| "phase_rank Preparing_host k = 7"
| "phase_rank Preparing_environment k = 6"
| "phase_rank Pulling_image k = 5"
| "phase_rank Verifying k = 4"
| "phase_rank Activating k = (if k = Some Unload_resident then 3 else 2)"
| "phase_rank Removing k = 2"
| "phase_rank Cancelling k = 1"
| "phase_rank _ k = 0"

definition machine_rank :: "operation_machine \<Rightarrow> nat" where
  "machine_rank m = phase_rank (op_phase (m_operation m)) (map_option ef_kind (m_pending_effect m))"

text \<open>An answer that ends its effect; a note that the host step began or reached a safe point does not.\<close>

definition final_answer :: "operation_event \<Rightarrow> bool" where
  "final_answer ev \<longleftrightarrow> event_identity_of ev \<noteq> None \<and>
     (\<forall>i. ev \<noteq> Ev_host_step_started i \<and> ev \<noteq> Ev_safe_boundary i)"

text \<open>The events a run of external work sends, in order; \<open>None\<close> as soon as one is refused.\<close>

fun run_events ::
  "operation_machine \<Rightarrow> (operation_event \<times> transition_input) list \<Rightarrow> operation_machine option" where
  "run_events m [] = Some m"
| "run_events m ((ev, input) # evs) =
     (case reduceOperation m ev input of Inl _ \<Rightarrow> None | Inr (m', _) \<Rightarrow> run_events m' evs)"

section \<open>Helper facts\<close>

lemma guard_Inr:
  "reduce_guard m ev = Inr () \<longleftrightarrow>
     (case event_identity_of ev of None \<Rightarrow> True
      | Some i \<Rightarrow> (\<exists>e. m_pending_effect m = Some e \<and> ef_effect_id e = ei_effect_id i \<and>
                       ei_expected_revision i = op_revision (m_operation m) \<and>
                       (\<forall>k. ANSWERS ev = Some k \<longrightarrow> k = ef_kind e)))"
  by (auto simp: reduce_guard_def conflict_def split: option.splits)

text \<open>
  What every answer of the reducer has in common: a refusal, no change at all, or one step of the
  revision with the identity of the operation untouched and at most one effect, which is then the
  pending one and is bound to the new revision.
\<close>

definition same_operation :: "environment_operation \<Rightarrow> environment_operation \<Rightarrow> bool" where
  "same_operation a b \<longleftrightarrow>
     op_operation_id a = op_operation_id b \<and> op_request_id a = op_request_id b \<and>
     op_environment_id a = op_environment_id b \<and> op_target a = op_target b \<and> op_kind a = op_kind b"

definition moves_once :: "operation_machine \<Rightarrow> transition \<Rightarrow> bool" where
  "moves_once m t \<longleftrightarrow>
     t = (m, []) \<or>
     (op_revision (m_operation (fst t)) = op_revision (m_operation m) + 1 \<and>
      same_operation (m_operation (fst t)) (m_operation m) \<and>
      (snd t = [] \<or>
       (\<exists>e. snd t = [e] \<and> m_pending_effect (fst t) = Some e \<and>
            ef_expected_revision e = op_revision (m_operation (fst t)) \<and>
            ef_operation_id e = op_operation_id (m_operation m))))"

definition moves :: "operation_machine \<Rightarrow> transition result \<Rightarrow> bool" where
  "moves m r \<longleftrightarrow> (case r of Inl _ \<Rightarrow> True | Inr t \<Rightarrow> moves_once m t)"

lemma moves_simps [simp]:
  "moves m (conflict why)" "moves m (err c msg d)" "moves m (ok (m, []))"
  by (simp_all add: moves_def conflict_def err_def ok_def moves_once_def)

lemma moves_advance [simp]:
  assumes "op_revision (m_operation m0) = op_revision (m_operation m)"
    and "same_operation (patch (m_operation m0)) (m_operation m)"
  shows "moves m (advance m0 patch eff ind)"
  using assms
  by (cases eff) (simp_all add: moves_def moves_once_def advance_def ok_def same_operation_def Let_def)

lemma same_operation_refl [simp]: "same_operation op op"
  by (simp add: same_operation_def)

lemma same_operation_updates [simp]:
  "same_operation (op\<lparr>op_phase := p\<rparr>) b = same_operation op b"
  "same_operation (op\<lparr>op_error := e\<rparr>) b = same_operation op b"
  "same_operation (op\<lparr>op_cancellation_requested := c\<rparr>) b = same_operation op b"
  "same_operation (op\<lparr>op_plan_digest := d\<rparr>) b = same_operation op b"
  "same_operation (op\<lparr>op_approved_plan_digest := d\<rparr>) b = same_operation op b"
  "same_operation (op\<lparr>op_carried_plan_digest := d\<rparr>) b = same_operation op b"
  "same_operation (op\<lparr>op_pending_host_step := h\<rparr>) b = same_operation op b"
  "same_operation (op\<lparr>op_completed_step_ids := ss\<rparr>) b = same_operation op b"
  "same_operation (op\<lparr>op_progress := pr\<rparr>) b = same_operation op b"
  "same_operation (op\<lparr>op_instance_id := i\<rparr>) b = same_operation op b"
  by (simp_all add: same_operation_def)

lemma moves_startCancelling [simp]:
  "op_revision (m_operation m0) = op_revision (m_operation m) \<Longrightarrow>
   same_operation (m_operation m0) (m_operation m) \<Longrightarrow> moves m (startCancelling m0 input)"
  by (simp add: startCancelling_def)

lemma moves_afterConsent [simp]:
  "op_revision (m_operation m0) = op_revision (m_operation m) \<Longrightarrow>
   same_operation (m_operation m0) (m_operation m) \<Longrightarrow> moves m (afterConsent m0 input step)"
  by (simp add: afterConsent_def Let_def split: option.splits managed_operation_kind.splits)

lemma moves_continueConsentedWork [simp]:
  "op_revision (m_operation m0) = op_revision (m_operation m) \<Longrightarrow>
   same_operation (m_operation m0) (m_operation m) \<Longrightarrow> moves m (continueConsentedWork m0 input b)"
  by (simp add: continueConsentedWork_def Let_def)

lemma moves_requirements [simp]:
  "moves m (reduce_blocked m plan b)" "moves m (reduce_fresh_plan m ev input)"
  "moves m (reduce_requirements_ready m ev input)"
  by (simp_all add: reduce_blocked_def reduce_fresh_plan_def reduce_requirements_ready_def
      probedDigest_def Let_def split: option.split list.split)

lemma moves_receipt [simp]: "moves m (reduce_host_receipt_verified m ev input)"
  by (simp add: reduce_host_receipt_verified_def failWith_def continueOrCancel_def Let_def
      split: option.split)

lemma moves_event: "moves m (reduce_event m ev input)"
  by (cases ev)
    (simp_all add: reduce_cancel_def reduce_resume_def reduce_approve_def reduce_host_step_started_def
      reduce_safe_boundary_def reduce_reconciled_def reduce_environment_verified_def
      reduce_image_pulled_def reduce_verification_passed_def reduce_resident_unloaded_def
      reduce_activation_committed_def reduce_removal_completed_def reduce_cleanup_completed_def
      reduce_failed_def failWith_def continueOrCancel_def probedDigest_def Let_def
      split: option.split)

text \<open>The rank a transition ends at, where there is one.\<close>

definition rank_below :: "nat \<Rightarrow> transition result \<Rightarrow> bool" where
  "rank_below n r \<longleftrightarrow> (case r of Inl _ \<Rightarrow> True | Inr (m', _) \<Rightarrow> machine_rank m' < n)"

lemma rank_below_simps [simp]:
  "rank_below n (conflict why)"
  "rank_below n (advance m patch (Issue k i) ind) =
     (phase_rank (op_phase (patch (m_operation m))) (Some k) < n)"
  "rank_below n (advance m patch No_effect ind) =
     (phase_rank (op_phase (patch (m_operation m))) None < n)"
  "rank_below n (startCancelling m input) = (1 < n)"
  by (simp_all add: rank_below_def conflict_def err_def advance_def ok_def machine_rank_def
      startCancelling_def Let_def)

lemma rank_below_afterConsent: "7 < n \<Longrightarrow> rank_below n (afterConsent m input step)"
  by (simp add: afterConsent_def Let_def split: option.split managed_operation_kind.split)

lemma rank_below_requirements:
  "machine_rank m = 8 \<Longrightarrow> rank_below 8 (reduce_requirements_ready m ev input)"
  by (simp add: reduce_requirements_ready_def reduce_fresh_plan_def reduce_blocked_def
      continueConsentedWork_def rank_below_afterConsent Let_def split: option.split list.split)

lemma rank_below_receipt: "rank_below 7 (reduce_host_receipt_verified m ev input)"
  by (auto simp: reduce_host_receipt_verified_def failWith_def continueOrCancel_def Let_def
      dest: receipt_waiting_phase split: option.split)

lemma effect_fits_rank: "effect_fits p (Some k) \<Longrightarrow> 0 < phase_rank p (Some k)"
  by (cases p) auto

lemma effect_fits_iff:
  "effect_fits p (Some Probe) = (p = Checking)" "effect_fits p (Some Reconcile) = (p = Checking)"
  "effect_fits p (Some Host_step) = (p = Preparing_host)"
  by (cases p; simp)+

lemma probedDigest_phase [simp]: "op_phase (probedDigest m d op) = op_phase op"
  by (simp add: probedDigest_def)

lemma rank_below_event:
  assumes "m_pending_effect m = Some e" "effect_fits (op_phase (m_operation m)) (Some (ef_kind e))"
    and "\<And>k. ANSWERS ev = Some k \<Longrightarrow> k = ef_kind e" and "final_answer ev"
  shows "rank_below (machine_rank m) (reduce_event m ev input)"
  using assms effect_fits_rank [OF assms(2)]
  by (cases ev)
    (auto simp: final_answer_def machine_rank_def rank_below_requirements rank_below_receipt effect_fits_iff
      reduce_reconciled_def reduce_environment_verified_def reduce_image_pulled_def
      reduce_verification_passed_def reduce_resident_unloaded_def reduce_activation_committed_def
      reduce_removal_completed_def reduce_cleanup_completed_def reduce_failed_def failWith_def
      continueOrCancel_def Let_def)

lemma final_answer_rank:
  assumes inv: "machine_inv m" and fin: "final_answer ev"
    and step: "reduceOperation m ev input = Inr (m', effs)"
  shows "machine_rank m' < machine_rank m"
proof -
  from step fin obtain e where r: "reduce_event m ev input = Inr (m', effs)"
    and e: "m_pending_effect m = Some e" "\<And>k. ANSWERS ev = Some k \<Longrightarrow> k = ef_kind e"
    by (auto simp: reduceOperation_Inr guard_Inr final_answer_def split: option.splits)
  have "effect_fits (op_phase (m_operation m)) (Some (ef_kind e))"
    using inv e by (simp add: machine_inv_def inv_effect_def)
  with e fin r show ?thesis
    using rank_below_event [of m e ev input] by (simp add: rank_below_def)
qed

section \<open>Which answers are accepted, and where they lead\<close>

definition accepted :: "transition result \<Rightarrow> bool" where
  "accepted r \<longleftrightarrow> (\<exists>t. r = Inr t)"

lemma accepted_simps [simp]:
  "accepted (advance m patch eff ind)" "accepted (startCancelling m input)" "accepted (ok t)"
  "accepted (failWith m e keep)" "accepted (afterConsent m input step)"
  "accepted (continueConsentedWork m input b)" "accepted (reduce_blocked m plan bl)"
  "accepted (reduce_fresh_plan m ev input)"
  by (auto simp: accepted_def advance_def ok_def startCancelling_def failWith_def afterConsent_def
      continueConsentedWork_def reduce_blocked_def reduce_fresh_plan_def Let_def
      split: option.split managed_operation_kind.split)

lemma own_answer_accepted:
  assumes "effect_fits (op_phase (m_operation m)) (Some (ef_kind e))"
    and "ANSWERS event = Some (ef_kind e)"
  shows "accepted (reduce_event m event input)"
  using assms
  by (cases event; cases "op_phase (m_operation m)")
    (auto simp: reduce_requirements_ready_def reduce_host_step_started_def
      reduce_host_receipt_verified_def reduce_reconciled_def reduce_environment_verified_def
      reduce_image_pulled_def reduce_verification_passed_def reduce_resident_unloaded_def
      reduce_activation_committed_def reduce_removal_completed_def reduce_cleanup_completed_def
      continueOrCancel_def Let_def split: option.split list.split)

text \<open>Where a transition leads, if it is one.\<close>

definition leads :: "(managed_phase \<Rightarrow> bool) \<Rightarrow> transition result \<Rightarrow> bool" where
  "leads P r \<longleftrightarrow> (case r of Inl _ \<Rightarrow> True | Inr (m', _) \<Rightarrow> P (op_phase (m_operation m')))"

lemma leads_simps [simp]:
  "leads P (conflict why)"
  "leads P (err c msg d)"
  "leads P (advance m patch eff ind) = P (op_phase (patch (m_operation m)))"
  "leads P (startCancelling m input) = P Cancelling"
  "leads P (ok (m, effs)) = P (op_phase (m_operation m))"
  "leads P (failWith m e keep) = P Failed"
  by (simp_all add: leads_def conflict_def err_def advance_def ok_def startCancelling_def failWith_def
      Let_def)

definition after_cancel :: "managed_phase \<Rightarrow> managed_phase \<Rightarrow> bool" where
  "after_cancel old new \<longleftrightarrow> new \<in> {Cancelling, Cancelled, Failed, Ready, Removed} \<or> new = Activating \<and> old = Activating"

lemma cancellation_leads:
  assumes "op_cancellation_requested (m_operation m)" and "final_answer event"
  shows "leads (after_cancel (op_phase (m_operation m))) (reduce_event m event input)"
  using assms
  by (cases event)
    (auto simp: final_answer_def after_cancel_def reduce_requirements_ready_def
      reduce_host_receipt_verified_def reduce_reconciled_def reduce_environment_verified_def
      reduce_image_pulled_def reduce_verification_passed_def reduce_resident_unloaded_def
      reduce_activation_committed_def reduce_removal_completed_def reduce_cleanup_completed_def
      reduce_failed_def continueOrCancel_def Let_def split: option.split)

section \<open>A removal without a host step\<close>

text \<open>The steps of an operation whose plans ask for no privileged step, as every removal plan does.\<close>

definition no_host_step :: "operation_event \<Rightarrow> bool" where
  "no_host_step ev \<longleftrightarrow> (\<forall>i r. ev = Ev_requirements_ready i r \<longrightarrow> rq_host_step r = None)"

definition plain_step :: "operation_machine \<Rightarrow> operation_machine \<Rightarrow> bool" where
  "plain_step m m' \<longleftrightarrow>
     (\<exists>event input effs. no_host_step event \<and> reduceOperation m event input = Inr (m', effs))"

definition removal_start :: "operation_machine \<Rightarrow> bool" where
  "removal_start m \<longleftrightarrow> (\<exists>input tr. so_kind input = Remove \<and> m = fst (startOperation input tr))"

definition removal_phase :: "managed_phase \<Rightarrow> bool" where
  "removal_phase p \<longleftrightarrow> p \<notin> {Preparing_host, Preparing_environment, Pulling_image, Verifying, Activating}"

definition removal_inv :: "operation_machine \<Rightarrow> bool" where
  "removal_inv m \<longleftrightarrow> op_kind (m_operation m) = Remove \<and> removal_phase (op_phase (m_operation m))"

lemma removal_phase_simps [simp]:
  "removal_phase Checking" "removal_phase Awaiting_consent" "removal_phase Relogin_required"
  "removal_phase Reboot_required" "removal_phase Removing" "removal_phase Ready" "removal_phase Removed"
  "removal_phase Cancelling" "removal_phase Cancelled" "removal_phase Failed"
  by (simp_all add: removal_phase_def)

lemma removal_phaseD:
  "removal_phase p \<Longrightarrow> p \<noteq> Preparing_host \<and> p \<noteq> Preparing_environment \<and> p \<noteq> Pulling_image \<and>
     p \<noteq> Verifying \<and> p \<noteq> Activating"
  by (simp add: removal_phase_def)

lemma removal_leads_plan:
  assumes "op_kind (m_operation m) = Remove" "rq_host_step ev = None"
  shows "leads removal_phase (reduce_requirements_ready m ev input)"
  using assms
  by (simp add: reduce_requirements_ready_def reduce_fresh_plan_def reduce_blocked_def
      continueConsentedWork_def afterConsent_def Let_def split: option.split list.split)

lemma removal_leads:
  assumes "removal_inv m" "no_host_step event"
  shows "leads removal_phase (reduce_event m event input)"
proof (cases event)
  case (Ev_requirements_ready i ev)
  with assms show ?thesis by (simp add: removal_inv_def no_host_step_def removal_leads_plan)
qed (use assms in \<open>simp_all add: removal_inv_def removal_phaseD reduce_cancel_def reduce_resume_def
      reduce_approve_def reduce_host_step_started_def reduce_safe_boundary_def
      reduce_host_receipt_verified_def reduce_reconciled_def reduce_environment_verified_def
      reduce_image_pulled_def reduce_verification_passed_def reduce_resident_unloaded_def
      reduce_activation_committed_def reduce_removal_completed_def reduce_cleanup_completed_def
      reduce_failed_def Let_def split: option.split\<close>)

lemma event_keeps_kind:
  assumes "reduceOperation m event input = Inr (m', effs)"
  shows "op_kind (m_operation m') = op_kind (m_operation m)"
  using moves_event [of m event input] assms
  by (auto simp: reduceOperation_Inr moves_def moves_once_def same_operation_def)

interpretation removal_machine: invariant_system removal_start plain_step removal_inv
proof
  show "removal_inv s" if "removal_start s" for s
    using that by (auto simp: removal_start_def removal_inv_def removal_phase_def startOperation_def Let_def)
  show "removal_inv t" if "removal_inv s" "plain_step s t" for s t
  proof -
    obtain event input effs where ev: "no_host_step event"
      and step: "reduceOperation s event input = Inr (t, effs)"
      using \<open>plain_step s t\<close> by (auto simp: plain_step_def)
    have "removal_phase (op_phase (m_operation t))"
      using removal_leads [OF \<open>removal_inv s\<close> ev, of input] step by (simp add: reduceOperation_Inr leads_def)
    moreover have "op_kind (m_operation t) = Remove"
      using event_keeps_kind [OF step] \<open>removal_inv s\<close> by (simp add: removal_inv_def)
    ultimately show ?thesis by (simp add: removal_inv_def)
  qed
qed

section \<open>Properties\<close>

text \<open>
  C1. Nothing is done to the machine without the user's consent to the plan that is being carried out:
  in every work phase, and in \<open>ready\<close> and \<open>removed\<close>, of every machine a run can reach, the operation's
  plan digest is present and equal to the approved one, and it is the digest the recorded consent is for.
\<close>

theorem work_only_under_approval:
  assumes "machine_reached m"
    and "op_phase (m_operation m) \<in> set WORK_PHASES \<union> {Ready, Removed}"
  shows "\<exists>b. m_consented m = Some b \<and>
    op_plan_digest (m_operation m) = Some (cb_plan_digest b) \<and>
    op_approved_plan_digest (m_operation m) = op_plan_digest (m_operation m)"
proof -
  have "machine_inv m" using assms(1) by (rule env_machine.reached_inv)
  then show ?thesis
    using inv_consentD [of m] assms(2) by (auto simp: consent_holds_def)
qed


text \<open>
  C6. Every accepted event either changes nothing and issues nothing, or moves the revision on by
  exactly one, keeps the operation's identity, request, environment, target and kind, and issues at
  most one effect, which is then the pending one and bound to the new revision.
\<close>

theorem every_change_moves_revision_once:
  assumes "reduceOperation m event input = Inr (m', effs)"
  shows "(m' = m \<and> effs = []) \<or>
    (op_revision (m_operation m') = op_revision (m_operation m) + 1 \<and>
     same_operation (m_operation m') (m_operation m) \<and>
     (effs = [] \<or>
      (\<exists>e. effs = [e] \<and> m_pending_effect m' = Some e \<and>
           ef_expected_revision e = op_revision (m_operation m') \<and>
           ef_operation_id e = op_operation_id (m_operation m))))"
  using moves_event [of m event input] assms
  by (auto simp: reduceOperation_Inr moves_def moves_once_def)

text \<open>
  C4. Without the user an operation ends: every answer that closes its effect brings the machine
  strictly closer to a phase that has ended or waits on the user, from at most nine answers away, and
  the rank is zero exactly in those phases.  So no run of external work goes on forever.
\<close>

theorem answers_bring_the_end_closer:
  assumes "machine_reached m"
  shows "machine_rank m \<le> 9 \<and>
    (machine_rank m = 0 \<longleftrightarrow> op_phase (m_operation m) \<in> set TERMINAL \<or>
       op_phase (m_operation m) \<in> {Awaiting_consent, Relogin_required, Reboot_required}) \<and>
    (\<forall>event input m' effs. final_answer event \<longrightarrow> reduceOperation m event input = Inr (m', effs) \<longrightarrow>
       machine_rank m' < machine_rank m)"
proof (intro conjI allI impI)
  have inv: "machine_inv m" using assms by (rule env_machine.reached_inv)
  show "machine_rank m \<le> 9"
    by (cases "op_phase (m_operation m)") (auto simp: machine_rank_def)
  show "machine_rank m = 0 \<longleftrightarrow> op_phase (m_operation m) \<in> set TERMINAL \<or>
      op_phase (m_operation m) \<in> {Awaiting_consent, Relogin_required, Reboot_required}"
    by (cases "op_phase (m_operation m)") (auto simp: machine_rank_def)
  show "machine_rank m' < machine_rank m"
    if "final_answer event" "reduceOperation m event input = Inr (m', effs)" for event input m' effs
    using inv that by (rule final_answer_rank)
qed

text \<open>
  C5. The machine never refuses the answer to its own question: in every reachable machine that has not
  ended and does not wait on the user an effect is pending, and every event that answers that kind of
  effect, for that effect and at the current revision, is accepted.
\<close>

theorem own_answer_is_accepted:
  assumes "machine_reached m"
    and "op_phase (m_operation m) \<notin> set TERMINAL \<union> {Awaiting_consent, Relogin_required, Reboot_required}"
  shows "\<exists>e. m_pending_effect m = Some e \<and>
    (\<forall>event input. event_identity_of event =
         Some \<lparr>ei_effect_id = ef_effect_id e, ei_expected_revision = op_revision (m_operation m)\<rparr> \<longrightarrow>
       ANSWERS event = Some (ef_kind e) \<longrightarrow> (\<exists>t. reduceOperation m event input = Inr t))"
proof -
  have inv: "machine_inv m" using assms(1) by (rule env_machine.reached_inv)
  then have fits: "effect_fits (op_phase (m_operation m)) (map_option ef_kind (m_pending_effect m))"
    by (simp add: machine_inv_def inv_effect_def)
  with assms(2) obtain e where e: "m_pending_effect m = Some e"
    by (cases "op_phase (m_operation m)") auto
  have "\<exists>t. reduceOperation m event input = Inr t"
    if "event_identity_of event = Some \<lparr>ei_effect_id = ef_effect_id e, ei_expected_revision = op_revision (m_operation m)\<rparr>"
      and "ANSWERS event = Some (ef_kind e)" for event input
    using own_answer_accepted [of m e event input] fits e that
    by (auto simp: reduceOperation_Inr guard_Inr accepted_def)
  with e show ?thesis by blast
qed

text \<open>
  C2. Work starts only in two ways: the user approved this very plan, or the operation already acted on
  a consent, that consent is still the approval on record, it covers the plan (same target, and unless
  it is a removal the same descriptor, image and environment manifest) and the plan asks for no
  privileged step.  In particular a privileged step is issued only under an approval of this plan, and
  it is then bound to the revision it is issued at.
\<close>

theorem work_starts_only_under_consent:
  assumes "reduceOperation m (Ev_requirements_ready ident ev) input = Inr (m', effs)"
    and "op_phase (m_operation m') \<in> set WORK_PHASES"
  shows "pl_blockers (rq_plan ev) = [] \<and> \<not> op_cancellation_requested (m_operation m) \<and>
    (op_approved_plan_digest (m_operation m) = Some (pl_plan_digest (rq_plan ev)) \<or>
     (\<exists>b. m_consented m = Some b \<and> op_approved_plan_digest (m_operation m) = Some (cb_plan_digest b) \<and>
          consentCovers b (rq_plan ev) (op_kind (m_operation m)) \<and> rq_host_step ev = None)) \<and>
    (op_phase (m_operation m') = Preparing_host \<longrightarrow>
       op_approved_plan_digest (m_operation m) = Some (pl_plan_digest (rq_plan ev)) \<and>
       (\<exists>step. op_pending_host_step (m_operation m') = Some step \<and>
               hs_expected_operation_revision step = op_revision (m_operation m')))"
  using assms
  unfolding reduceOperation_Inr reduce_event.simps reduce_requirements_ready_def reduce_fresh_plan_def
    reduce_blocked_def conflict_def startCancelling_def continueConsentedWork_def afterConsent_def Let_def
  by (auto simp: advance_Inr Let_def split: if_splits option.splits list.splits
      managed_operation_kind.splits)


text \<open>
  A cancellation that arrives while an activation runs orphans it: the request is recorded under a new
  revision while the effect stays pending at the old one, so every event that carries the identity the
  effect was issued with is refused from then on, the activation's own success and its failure included.
\<close>

theorem cancel_orphans_activation:
  assumes "machine_reached m" and "op_phase (m_operation m) = Activating"
    and "\<not> op_cancellation_requested (m_operation m)"
  shows "\<exists>e m'. m_pending_effect m = Some e \<and> reduceOperation m Ev_cancel input = Inr (m', []) \<and>
    m_pending_effect m' = Some e \<and> op_phase (m_operation m') = Activating \<and>
    (\<forall>event input'. event_identity_of event =
         Some \<lparr>ei_effect_id = ef_effect_id e, ei_expected_revision = ef_expected_revision e\<rparr> \<longrightarrow>
       (\<exists>err. reduceOperation m' event input' = Inl err \<and>
              err_code err = ''MANAGED_OPERATION_CONFLICT''))"
proof -
  have inv: "machine_inv m" using assms(1) by (rule env_machine.reached_inv)
  with assms(2) obtain e where e: "m_pending_effect m = Some e"
      and le: "ef_expected_revision e \<le> op_revision (m_operation m)"
    by (auto simp: machine_inv_def inv_effect_def)
  let ?op = "(m_operation m)\<lparr>op_cancellation_requested := True, op_revision := op_revision (m_operation m) + 1\<rparr>"
  let ?m = "m\<lparr>m_operation := ?op, m_checkpoint := Some Activating\<rparr>"
  have "reduceOperation m Ev_cancel input = Inr (?m, [])"
    using assms(2,3) inv_hostD [OF inv]
    by (auto simp: reduceOperation_Inr guard_Inr reduce_cancel_def advance_Inr Let_def)
  moreover have "\<exists>err. reduceOperation ?m event input' = Inl err \<and> err_code err = ''MANAGED_OPERATION_CONFLICT''"
    if "event_identity_of event = Some \<lparr>ei_effect_id = ef_effect_id e, ei_expected_revision = ef_expected_revision e\<rparr>"
    for event input'
    using that e le by (simp add: reduceOperation_def reduce_guard_def conflict_def err_def)
  ultimately show ?thesis using e assms(2) by (intro exI [of _ e] exI [of _ ?m]) simp
qed

text \<open>
  A removal downloads and prepares nothing: as long as its plans ask for no privileged step, no run
  of it ever enters host or environment preparation, a pull, a verification or an activation.
\<close>

theorem removal_downloads_nothing:
  assumes "reached removal_start plain_step m"
  shows "op_phase (m_operation m) \<notin>
    {Preparing_host, Preparing_environment, Pulling_image, Verifying, Activating}"
  using removal_machine.reached_inv [OF assms] by (simp add: removal_inv_def removal_phase_def)

end
