(* ===== verification/Machine_Witness.thy ===== *)
theory Machine_Witness
  imports Machine_Props
begin

text \<open>
  Concrete runs of the operation machine: a setup that was approved in advance, an update on its way to
  activation and a removal.  Each property of \<open>Machine_Props\<close> that has a hypothesis is applied to one.
\<close>

section \<open>A concrete run\<close>

definition ex_input :: "managed_operation_kind \<Rightarrow> start_operation" where
  "ex_input k = \<lparr>so_operation_id = ''op'', so_request_id = ''rq'', so_environment_id = ''env'',
     so_instance_id = ''core'', so_target = Target_runtime ''i1'' ''vllm'', so_kind = k,
     so_approved_plan_digest = Some ''sha256:A''\<rparr>"

definition ex_plan :: requirement_plan where
  "ex_plan = \<lparr>pl_plan_digest = ''sha256:A'', pl_environment_id = ''env'',
     pl_target = Target_runtime ''i1'' ''vllm'', pl_availability = Supported, pl_recipe_id = ''none'',
     pl_recipe_digest = ''sha256:0'', pl_descriptor_id = Some ''d1'',
     pl_environment_manifest_id = Some ''linux-r1'', pl_image_digest = Some ''sha256:I'',
     pl_adopts_existing_engine = True, pl_system_changes = [], pl_download_bytes = Some 16,
     pl_required_disk_bytes = Some 32, pl_docker_root_dir = None, pl_free_disk_bytes = None,
     pl_requires_elevation = False, pl_may_require_relogin = False, pl_may_require_reboot = False,
     pl_blockers = [], pl_warnings = []\<rparr>"

definition ex_id :: "string \<Rightarrow> nat \<Rightarrow> event_identity" where
  "ex_id e r = \<lparr>ei_effect_id = e, ei_expected_revision = r\<rparr>"

definition ex_next :: "string \<Rightarrow> transition_input" where
  "ex_next e = \<lparr>next_effect_id = e\<rparr>"

definition ex_start :: "managed_operation_kind \<Rightarrow> operation_machine" where
  "ex_start k = fst (startOperation (ex_input k) (ex_next ''e0''))"

definition ex_requirements :: operation_event where
  "ex_requirements = Ev_requirements_ready (ex_id ''e0'' 0)
     \<lparr>rq_plan = ex_plan, rq_host_step = None, rq_image_present = None\<rparr>"

definition ex_run :: "(operation_event \<times> transition_input) list" where
  "ex_run = [(ex_requirements, ex_next ''e1''),
             (Ev_environment_verified (ex_id ''e1'' 1), ex_next ''e2''),
             (Ev_image_pulled (ex_id ''e2'' 2), ex_next ''e3''),
             (Ev_verification_passed (ex_id ''e3'' 3), ex_next ''e4'')]"

definition ex_machine :: "managed_operation_kind \<Rightarrow> nat \<Rightarrow> operation_machine" where
  "ex_machine k n = the (run_events (ex_start k) (take n ex_run))"

lemma run_events_reached:
  "machine_reached m \<Longrightarrow> run_events m evs = Some m' \<Longrightarrow> machine_reached m'"
proof (induction evs arbitrary: m)
  case (Cons x evs)
  obtain ev input where x: "x = (ev, input)" by (cases x)
  with Cons.prems obtain m1 effs where "reduceOperation m ev input = Inr (m1, effs)"
      and r: "run_events m1 evs = Some m'"
    by (auto split: sum.splits)
  then have "machine_step m m1" by (auto simp: machine_step_def)
  then have "machine_reached m1" using Cons.prems(1) by (rule reached_step [rotated])
  with r show ?case using Cons.IH by blast
qed simp

lemma ex_start_reached: "machine_reached (ex_start k)"
  by (rule reached_start) (auto simp: ex_start_def machine_start_def)

lemma ex_reached:
  "\<not> Option.is_none (run_events (ex_start k) (take n ex_run)) \<Longrightarrow> machine_reached (ex_machine k n)"
  using run_events_reached [OF ex_start_reached, of k "take n ex_run"]
  by (cases "run_events (ex_start k) (take n ex_run)") (auto simp: ex_machine_def)

lemma ex_setup_1: "machine_reached (ex_machine Setup 1)"
  by (rule ex_reached, code_simp)

lemma ex_setup_4: "machine_reached (ex_machine Setup 4)"
  by (rule ex_reached, code_simp)

section \<open>Witnesses\<close>

theorem work_only_under_approval_witness:
  "op_phase (m_operation (ex_machine Setup 4)) = Activating \<and>
   op_approved_plan_digest (m_operation (ex_machine Setup 4)) = op_plan_digest (m_operation (ex_machine Setup 4))"
proof -
  have p: "op_phase (m_operation (ex_machine Setup 4)) = Activating" by code_simp
  show ?thesis using work_only_under_approval [OF ex_setup_4] p by auto
qed


theorem every_change_moves_revision_once_witness:
  "op_revision (m_operation (ex_machine Setup 1)) = op_revision (m_operation (ex_start Setup)) + 1"
proof -
  let ?r = "reduceOperation (ex_start Setup) ex_requirements (ex_next ''e1'')"
  have ok: "\<not> Option.is_none (run_events (ex_start Setup) (take 1 ex_run))" by code_simp
  obtain m' effs where r: "?r = Inr (m', effs)"
    using ok by (auto simp: ex_run_def split: sum.splits)
  then have m': "ex_machine Setup 1 = m'" by (simp add: ex_machine_def ex_run_def)
  have "ex_machine Setup 1 \<noteq> ex_start Setup" by code_simp
  then show ?thesis using every_change_moves_revision_once [OF r] m' by auto
qed

theorem answers_bring_the_end_closer_witness: "machine_rank (ex_machine Setup 4) \<le> 9"
  using answers_bring_the_end_closer [OF ex_setup_4] by blast

theorem own_answer_is_accepted_witness:
  "\<exists>t. reduceOperation (ex_machine Setup 4) (Ev_activation_committed (ex_id ''e4'' 4)) (ex_next ''x'') = Inr t"
proof -
  have p: "op_phase (m_operation (ex_machine Setup 4)) = Activating" by code_simp
  have e: "m_pending_effect (ex_machine Setup 4) = Some \<lparr>ef_effect_id = ''e4'', ef_operation_id = ''op'',
      ef_expected_revision = 4, ef_kind = Activate, ef_plan_digest = Some ''sha256:A''\<rparr>" by code_simp
  have r: "op_revision (m_operation (ex_machine Setup 4)) = 4" by code_simp
  show ?thesis using own_answer_is_accepted [OF ex_setup_4] p e r by (simp add: ex_id_def)
qed

theorem work_starts_only_under_consent_witness:
  "op_approved_plan_digest (m_operation (ex_start Setup)) = Some ''sha256:A'' \<and> pl_blockers ex_plan = []"
proof -
  let ?r = "reduceOperation (ex_start Setup) ex_requirements (ex_next ''e1'')"
  have ok: "\<not> Option.is_none (run_events (ex_start Setup) (take 1 ex_run))" by code_simp
  obtain m' effs where r: "?r = Inr (m', effs)"
    using ok by (auto simp: ex_run_def split: sum.splits)
  then have m': "ex_machine Setup 1 = m'" by (simp add: ex_machine_def ex_run_def)
  have w: "op_phase (m_operation (ex_machine Setup 1)) = Preparing_environment" by code_simp
  have c: "m_consented (ex_start Setup) = None" by code_simp
  show ?thesis
    using work_starts_only_under_consent [of "ex_start Setup" "ex_id ''e0'' 0"
        "\<lparr>rq_plan = ex_plan, rq_host_step = None, rq_image_present = None\<rparr>" "ex_next ''e1''" m' effs]
      r m' w c by (auto simp: ex_requirements_def ex_plan_def)
qed


theorem cancel_orphans_activation_witness:
  "\<exists>m'. reduceOperation (ex_machine Setup 4) Ev_cancel (ex_next ''c'') = Inr (m', []) \<and>
        (\<exists>err. reduceOperation m' (Ev_activation_committed (ex_id ''e4'' 4)) (ex_next ''x'') = Inl err)"
proof -
  have p: "op_phase (m_operation (ex_machine Setup 4)) = Activating" by code_simp
  have n: "\<not> op_cancellation_requested (m_operation (ex_machine Setup 4))" by code_simp
  have e: "m_pending_effect (ex_machine Setup 4) = Some \<lparr>ef_effect_id = ''e4'', ef_operation_id = ''op'',
      ef_expected_revision = 4, ef_kind = Activate, ef_plan_digest = Some ''sha256:A''\<rparr>" by code_simp
  have i: "event_identity_of (Ev_activation_committed (ex_id ''e4'' 4)) =
      Some \<lparr>ei_effect_id = ''e4'', ei_expected_revision = 4\<rparr>" by (simp add: ex_id_def)
  from cancel_orphans_activation [OF ex_setup_4 p n, of "ex_next ''c''"]
  obtain e' m' where "m_pending_effect (ex_machine Setup 4) = Some e'"
      and "reduceOperation (ex_machine Setup 4) Ev_cancel (ex_next ''c'') = Inr (m', [])"
      and "\<forall>event input'. event_identity_of event =
          Some \<lparr>ei_effect_id = ef_effect_id e', ei_expected_revision = ef_expected_revision e'\<rparr> \<longrightarrow>
          (\<exists>err. reduceOperation m' event input' = Inl err \<and> err_code err = ''MANAGED_OPERATION_CONFLICT'')"
    by (elim exE conjE) (rule that)
  with e i show ?thesis by force
qed

theorem removal_downloads_nothing_witness:
  "op_phase (m_operation (ex_machine Remove 1)) = Removing \<and>
   op_phase (m_operation (ex_machine Remove 1)) \<noteq> Pulling_image"
proof -
  let ?r = "reduceOperation (ex_start Remove) ex_requirements (ex_next ''e1'')"
  have ok: "\<not> Option.is_none (run_events (ex_start Remove) (take 1 ex_run))" by code_simp
  obtain m' effs where r: "?r = Inr (m', effs)"
    using ok by (auto simp: ex_run_def split: sum.splits)
  then have m': "ex_machine Remove 1 = m'" by (simp add: ex_machine_def ex_run_def)
  have "plain_step (ex_start Remove) m'"
    unfolding plain_step_def
    by (rule exI [of _ ex_requirements]) (use r in \<open>auto simp: no_host_step_def ex_requirements_def\<close>)
  moreover have "removal_start (ex_start Remove)"
    unfolding removal_start_def
    by (rule exI [of _ "ex_input Remove"], rule exI [of _ "ex_next ''e0''"]) (simp add: ex_start_def ex_input_def)
  ultimately have "reached removal_start plain_step (ex_machine Remove 1)"
    unfolding m' by (blast intro: reached_start reached_step)
  then have "op_phase (m_operation (ex_machine Remove 1)) \<notin>
      {Preparing_host, Preparing_environment, Pulling_image, Verifying, Activating}"
    by (rule removal_downloads_nothing)
  moreover have "op_phase (m_operation (ex_machine Remove 1)) = Removing" by code_simp
  ultimately show ?thesis by simp
qed

end
