(* ===== verification/Managed_Ids.thy ===== *)
theory Managed_Ids
  imports Errors
begin

text \<open>
  Managed ids as directory names (\<open>encodeManagedId\<close> and \<open>decodeManagedId\<close> of \<open>src/src/config/paths.ts\<close>)
  and the files of the shared root they name.  A string is well-formed text, held as its UTF-8
  bytes, so \<open>TextEncoder\<close> is the identity (a lone surrogate, which it would replace, is not a value
  here); a segment is ASCII, as every encoded one is, so that \<open>charCodeAt\<close> is its byte;
  \<open>TextDecoder('utf-8', {fatal: true})\<close> is the WHATWG decoder: it refuses malformed input and drops one
  leading byte order mark.
\<close>

section \<open>Characters\<close>

definition UNRESERVED :: "char \<Rightarrow> bool" where
  "UNRESERVED c \<longleftrightarrow> (let n = of_char c :: nat in
     65 \<le> n \<and> n \<le> 90 \<or> 97 \<le> n \<and> n \<le> 122 \<or> 48 \<le> n \<and> n \<le> 57 \<or> n = 46 \<or> n = 95 \<or> n = 45)"

definition hex_char :: "nat \<Rightarrow> char" where
  "hex_char n = char_of (if n < 10 then 48 + n else 55 + n)"

definition unhex :: "char \<Rightarrow> nat option" where
  "unhex c = (let n = of_char c :: nat in
     if 48 \<le> n \<and> n \<le> 57 then Some (n - 48)
     else if 65 \<le> n \<and> n \<le> 70 then Some (n - 55)
     else if 97 \<le> n \<and> n \<le> 102 then Some (n - 87) else None)"

definition percent :: "char \<Rightarrow> string" where
  "percent b = [CHR ''%'', hex_char (of_char b div 16), hex_char (of_char b mod 16)]"

definition WINDOWS_DEVICES :: "string list" where
  "WINDOWS_DEVICES = [''con'', ''prn'', ''aux'', ''nul'',
     ''com1'', ''com2'', ''com3'', ''com4'', ''com5'', ''com6'', ''com7'', ''com8'', ''com9'',
     ''lpt1'', ''lpt2'', ''lpt3'', ''lpt4'', ''lpt5'', ''lpt6'', ''lpt7'', ''lpt8'', ''lpt9'']"

text \<open>The regular expression's test: a device name, alone or followed by a dot and anything.\<close>

definition WINDOWS_DEVICE :: "string \<Rightarrow> bool" where
  "WINDOWS_DEVICE s \<longleftrightarrow> js_lower (takeWhile (\<lambda>c. c \<noteq> CHR ''.'') s) \<in> set WINDOWS_DEVICES"

section \<open>Encoding and decoding\<close>

definition encode_byte :: "char \<Rightarrow> string" where
  "encode_byte b = (if UNRESERVED b then [b] else percent b)"

definition encode_dots :: "string \<Rightarrow> string" where
  "encode_dots s = concat (map (\<lambda>c. if c = CHR ''.'' then ''%2E'' else [c]) s)"

text \<open>\<open>out.replace(/\.+$/, run => '%2E'.repeat(run.length))\<close>.\<close>

definition encode_trailing_dots :: "string \<Rightarrow> string" where
  "encode_trailing_dots s =
     (let run = takeWhile (\<lambda>c. c = CHR ''.'') (rev s)
      in take (length s - length run) s @ encode_dots run)"

definition encodeManagedId :: "string \<Rightarrow> string result" where
  "encodeManagedId ident =
     (if ident = '''' then err ''INVALID_ARGUMENT'' ''A managed id cannot be empty.'' None
      else let out = concat (map encode_byte ident) in
        if \<forall>c \<in> set out. c = CHR ''.'' then ok (encode_dots out)
        else let out = encode_trailing_dots out in
          if WINDOWS_DEVICE out then ok (percent (hd out) @ tl out) else ok out)"

fun decode_bytes :: "string \<Rightarrow> string option" where
  "decode_bytes [] = Some []"
| "decode_bytes (c # cs) =
     (if c \<noteq> CHR ''%'' then map_option (Cons c) (decode_bytes cs)
      else case cs of
        h # l # rest \<Rightarrow>
          (case (unhex h, unhex l) of
             (Some a, Some b) \<Rightarrow> map_option (Cons (char_of (16 * a + b))) (decode_bytes rest)
           | _ \<Rightarrow> None)
      | _ \<Rightarrow> None)"

text \<open>The WHATWG UTF-8 decoder's states: bytes still needed and the range of the next one.\<close>

fun utf8_run :: "nat \<Rightarrow> nat \<Rightarrow> nat \<Rightarrow> nat list \<Rightarrow> bool" where
  "utf8_run n lo hi [] = (n = 0)"
| "utf8_run 0 lo hi (b # bs) =
     (if b \<le> 0x7F then utf8_run 0 0x80 0xBF bs
      else if 0xC2 \<le> b \<and> b \<le> 0xDF then utf8_run 1 0x80 0xBF bs
      else if 0xE0 \<le> b \<and> b \<le> 0xEF then
        utf8_run 2 (if b = 0xE0 then 0xA0 else 0x80) (if b = 0xED then 0x9F else 0xBF) bs
      else if 0xF0 \<le> b \<and> b \<le> 0xF4 then
        utf8_run 3 (if b = 0xF0 then 0x90 else 0x80) (if b = 0xF4 then 0x8F else 0xBF) bs
      else False)"
| "utf8_run (Suc n) lo hi (b # bs) = (lo \<le> b \<and> b \<le> hi \<and> utf8_run n 0x80 0xBF bs)"

definition utf8_valid :: "string \<Rightarrow> bool" where
  "utf8_valid s = utf8_run 0 0x80 0xBF (map of_char s)"

definition byte_order_mark :: string where
  "byte_order_mark = [CHR 0xEF, CHR 0xBB, CHR 0xBF]"

definition text_decode :: "string \<Rightarrow> string option" where
  "text_decode bytes =
     (if \<not> utf8_valid bytes then None
      else if js_prefix byte_order_mark bytes then Some (drop 3 bytes) else Some bytes)"

definition decodeManagedId :: "string \<Rightarrow> string result" where
  "decodeManagedId segment =
     (case Option.bind (decode_bytes segment) text_decode of
        Some ident \<Rightarrow> ok ident
      | None \<Rightarrow> err ''INVALID_ARGUMENT'' (''Not an encoded managed id: '' @ segment) None)"

section \<open>The files of the shared root\<close>

text \<open>\<open>join\<close> of a root and plain segments.\<close>

definition path_join :: "string list \<Rightarrow> string" where
  "path_join segments = js_join ''/'' segments"

definition operationsDir :: "string \<Rightarrow> string" where
  "operationsDir root = path_join [root, ''operations'']"

definition operationFile :: "string \<Rightarrow> string \<Rightarrow> string result" where
  "operationFile root operationId =
     (case encodeManagedId operationId of
        Inl e \<Rightarrow> Inl e
      | Inr seg \<Rightarrow> ok (path_join [operationsDir root, seg @ ''.json'']))"

definition installationFile :: "string \<Rightarrow> string \<Rightarrow> string result" where
  "installationFile root installationId =
     (case encodeManagedId installationId of
        Inl e \<Rightarrow> Inl e
      | Inr seg \<Rightarrow> ok (path_join [path_join [root, ''installations''], seg, ''installation.json'']))"

section \<open>Decoding undoes encoding\<close>

lemma unhex_hex [simp]: "n < 16 \<Longrightarrow> unhex (hex_char n) = Some n"
  by (auto simp: unhex_def hex_char_def Let_def)

lemma high_digit [simp]: "(of_char c :: nat) div 16 < 16"
proof -
  have "(of_char c :: nat) < 16 * 16" by simp
  then show ?thesis by (rule less_mult_imp_div_less)
qed

lemma decode_percent [simp]:
  "decode_bytes (percent c @ rest) = map_option (Cons c) (decode_bytes rest)"
  by (simp add: percent_def)

text \<open>A word spells a byte when it is the byte itself, if unreserved, or its escape.\<close>

definition spells :: "string \<Rightarrow> char \<Rightarrow> bool" where
  "spells w c \<longleftrightarrow> (w = [c] \<and> UNRESERVED c) \<or> w = percent c"

lemma UNRESERVED_percent [simp]: "\<not> UNRESERVED CHR ''%''"
  by code_simp

lemma decode_spelled:
  "list_all2 spells ws cs \<Longrightarrow> decode_bytes (concat ws) = Some cs"
  by (induction ws cs rule: list_all2_induct) (auto simp: spells_def)

lemma spells_encode_byte [simp]: "spells (encode_byte c) c"
  by (auto simp: spells_def encode_byte_def)

lemma spells_dot [simp]: "spells ''%2E'' CHR ''.''"
  unfolding spells_def by (rule disjI2) code_simp

lemma encode_byte_dot [simp]: "encode_byte CHR ''.'' = ''.''"
  by code_simp

lemma unhex_dot [simp]: "unhex CHR ''.'' = None"
  by code_simp

lemma hex_char_not_dot [simp]:
  assumes "n < 16"
  shows "hex_char n \<noteq> CHR ''.''" "UNRESERVED (hex_char n)"
proof -
  show "hex_char n \<noteq> CHR ''.''"
    using unhex_hex [OF assms] by (auto simp del: unhex_hex)
  show "UNRESERVED (hex_char n)"
    using assms by (auto simp: UNRESERVED_def hex_char_def Let_def)
qed

lemma percent_facts [simp]:
  "percent c \<noteq> []" "hd (percent c) = CHR ''%''" "last (percent c) \<noteq> CHR ''.''"
  "d \<in> set (percent c) \<Longrightarrow> UNRESERVED d \<or> d = CHR ''%''"
  by (auto simp: percent_def)

lemma encode_byte_facts [simp]:
  "encode_byte c \<noteq> []" "c \<noteq> CHR ''.'' \<Longrightarrow> last (encode_byte c) \<noteq> CHR ''.''"
  "d \<in> set (encode_byte c) \<Longrightarrow> UNRESERVED d \<or> d = CHR ''%''"
  by (auto simp: encode_byte_def dest: percent_facts(4) split: if_splits)

lemma concat_encode_all_dots:
  assumes "\<forall>d \<in> set (concat (map encode_byte cs)). d = CHR ''.''"
  shows "cs = replicate (length cs) CHR ''.''"
proof -
  have "c = CHR ''.''" if "c \<in> set cs" for c
  proof (rule ccontr)
    assume "c \<noteq> CHR ''.''"
    then have "last (encode_byte c) \<noteq> CHR ''.''" by simp
    moreover have "last (encode_byte c) \<in> set (concat (map encode_byte cs))"
      using that by (auto intro!: bexI [of _ c])
    ultimately show False using assms by blast
  qed
  then show ?thesis by (simp add: replicate_length_same)
qed

lemma encode_dots_replicate: "encode_dots (replicate k CHR ''.'') = concat (replicate k ''%2E'')"
  by (simp add: encode_dots_def)

lemma split_trailing_dots:
  "\<exists>pre k. cs = pre @ replicate k CHR ''.'' \<and> (pre = [] \<or> last pre \<noteq> CHR ''.'')"
proof (induction cs rule: rev_induct)
  case (snoc c cs)
  show ?case
  proof (cases "c = CHR ''.''")
    case True
    from snoc.IH obtain pre k where "cs = pre @ replicate k CHR ''.''"
        "pre = [] \<or> last pre \<noteq> CHR ''.''" by blast
    with True show ?thesis
      by (intro exI [of _ pre] exI [of _ "Suc k"]) (simp add: replicate_append_same)
  next
    case False
    then show ?thesis by (intro exI [of _ "cs @ [c]"] exI [of _ 0]) simp
  qed
qed (intro exI [of _ "[]"] exI [of _ 0], simp)

lemma last_concat_encode: "pre \<noteq> [] \<Longrightarrow> last (concat (map encode_byte pre)) = last (encode_byte (last pre))"
  by (induction pre rule: rev_induct) auto

lemma takeWhile_dots:
  assumes "xs = [] \<or> last xs \<noteq> CHR ''.''"
  shows "takeWhile (\<lambda>c. c = CHR ''.'') (rev (xs @ replicate k CHR ''.'')) = replicate k CHR ''.''"
proof -
  have "takeWhile (\<lambda>c. c = CHR ''.'') (rev xs) = []"
    using assms by (cases xs rule: rev_cases) auto
  then show ?thesis by (subst rev_append, subst rev_replicate, subst takeWhile_append2) auto
qed

lemma encode_replicate_dots:
  "concat (map encode_byte (replicate k CHR ''.'')) = replicate k CHR ''.''"
  by (induction k) simp_all

lemma encode_trailing_dots_spelled:
  assumes "pre = [] \<or> last pre \<noteq> CHR ''.''"
  shows "encode_trailing_dots (concat (map encode_byte (pre @ replicate k CHR ''.''))) =
    concat (map encode_byte pre) @ concat (replicate k ''%2E'')"
proof -
  let ?E = "concat (map encode_byte pre)"
  have out: "concat (map encode_byte (pre @ replicate k CHR ''.'')) = ?E @ replicate k CHR ''.''"
    by (simp add: encode_replicate_dots del: map_replicate)
  have "?E = [] \<or> last ?E \<noteq> CHR ''.''"
    using assms last_concat_encode [of pre] by (cases "pre = []") auto
  then show ?thesis
    by (simp add: out encode_trailing_dots_def takeWhile_dots encode_dots_replicate
        del: rev_append map_append concat_append)
qed

lemma device_head:
  assumes "WINDOWS_DEVICE s"
  shows "s \<noteq> [] \<and> hd s \<noteq> CHR ''%''"
proof -
  have "list_all (\<lambda>d. d \<noteq> [] \<and> hd d \<noteq> lower_char CHR ''%'') WINDOWS_DEVICES" by code_simp
  then have "js_lower (takeWhile (\<lambda>c. c \<noteq> CHR ''.'') s) \<noteq> [] \<and>
      hd (js_lower (takeWhile (\<lambda>c. c \<noteq> CHR ''.'') s)) \<noteq> lower_char CHR ''%''"
    using assms by (auto simp: WINDOWS_DEVICE_def list_all_iff)
  then show ?thesis by (cases s) (auto simp: js_lower_def)
qed

lemma spells_last: "spells w c \<Longrightarrow> w \<noteq> ''.'' \<Longrightarrow> w \<noteq> [] \<and> last w \<noteq> CHR ''.''"
  by (auto simp: spells_def)

lemma spells_chars: "spells w c \<Longrightarrow> d \<in> set w \<Longrightarrow> UNRESERVED d \<or> d = CHR ''%''"
  by (auto simp: spells_def dest: percent_facts(4))

lemma list_all2_mem1: "list_all2 P xs ys \<Longrightarrow> x \<in> set xs \<Longrightarrow> \<exists>y \<in> set ys. P x y"
  by (induction xs ys rule: list_all2_induct) auto

text \<open>
  The spelling \<open>encodeManagedId\<close> chooses: a word for each byte of the id, the last of them never the
  bare dot, and the whole never a device name.
\<close>

definition spelling :: "string list \<Rightarrow> string \<Rightarrow> bool" where
  "spelling ws ident \<longleftrightarrow>
     list_all2 spells ws ident \<and> ws \<noteq> [] \<and> last ws \<noteq> ''.'' \<and> \<not> WINDOWS_DEVICE (concat ws)"

lemma not_device: "hd s = CHR ''%'' \<Longrightarrow> \<not> WINDOWS_DEVICE s"
  using device_head by blast

lemma spelling_all_dots:
  assumes "ident = replicate (Suc n) CHR ''.''"
  shows "spelling (replicate (Suc n) ''%2E'') ident"
proof -
  have "\<not> WINDOWS_DEVICE (concat (replicate (Suc n) ''%2E''))" by (rule not_device) simp
  moreover have "list_all2 spells (replicate (Suc n) ''%2E'') ident"
    by (simp add: assms list_all2_conv_all_nth del: replicate_Suc)
  moreover have "last (replicate (Suc n) ''%2E'') \<noteq> ''.''"
    by (simp only: last_replicate) simp
  ultimately show ?thesis by (simp add: spelling_def del: concat.simps)
qed

lemma spelling_plain:
  fixes k :: nat
  assumes "pre \<noteq> []" "last pre \<noteq> CHR ''.''"
  defines "ws \<equiv> map encode_byte pre @ replicate k ''%2E''"
  shows "list_all2 spells ws (pre @ replicate k CHR ''.'')" "ws \<noteq> []" "last ws \<noteq> ''.''"
proof -
  show "list_all2 spells ws (pre @ replicate k CHR ''.'')"
    unfolding ws_def by (intro list_all2_appendI) (auto simp: list_all2_conv_all_nth)
  show "ws \<noteq> []" using assms by simp
  have "encode_byte (last pre) \<noteq> ''.''"
    using encode_byte_facts(2) [OF assms(2)] by (intro notI) simp
  then show "last ws \<noteq> ''.''"
    using assms(1) by (cases k) (simp_all add: ws_def last_map)
qed

lemma spelling_device:
  assumes "list_all2 spells ws ident" "last ws \<noteq> ''.''" "WINDOWS_DEVICE (concat ws)"
  shows "\<exists>c cs vs. ws = [c] # vs \<and> ident = c # cs \<and> spelling (percent c # vs) ident"
proof -
  obtain w vs c cs where w: "ws = w # vs" "ident = c # cs" "spells w c" "list_all2 spells vs cs"
    using assms(1) device_head [OF assms(3)] by (cases ws) (auto simp: list_all2_Cons1)
  then have "w \<noteq> percent c"
    using device_head [OF assms(3)] by (auto simp: percent_def)
  then have "w = [c]" using w(3) by (simp add: spells_def)
  moreover have "spelling (percent c # vs) ident"
    using w assms(2) not_device [of "percent c @ concat vs"]
    by (auto simp: spelling_def spells_def percent_def)
  ultimately show ?thesis using w by blast
qed

lemma encoded_spelling:
  assumes "encodeManagedId ident = Inr out"
  shows "\<exists>ws. out = concat ws \<and> spelling ws ident"
proof -
  obtain pre k where id: "ident = pre @ replicate k CHR ''.''" and pre: "pre = [] \<or> last pre \<noteq> CHR ''.''"
    using split_trailing_dots by blast
  have ne: "ident \<noteq> []" using assms by (auto simp: encodeManagedId_def)
  let ?E = "concat (map encode_byte ident)"
  let ?ws = "map encode_byte pre @ replicate k ''%2E''"
  show ?thesis
  proof (cases "\<forall>d \<in> set ?E. d = CHR ''.''")
    case True
    then have "ident = replicate (length ident) CHR ''.''" by (rule concat_encode_all_dots)
    then obtain n where dots: "ident = replicate (Suc n) CHR ''.''" using ne by (cases ident) auto
    have "out = encode_dots ?E"
      using assms True ne by (simp only: encodeManagedId_def Let_def ok_eq_iff) simp
    then have "out = concat (replicate (Suc n) ''%2E'')"
      by (simp only: dots encode_replicate_dots encode_dots_replicate)
    then show ?thesis using spelling_all_dots [OF dots] by blast
  next
    case False
    then have "pre \<noteq> []" using id encode_replicate_dots [of k] by auto
    note ws = spelling_plain [OF this, of k]
    have words: "encode_trailing_dots ?E = concat ?ws"
      using encode_trailing_dots_spelled [OF pre] id by simp
    have sp: "list_all2 spells ?ws ident" "?ws \<noteq> []" "last ?ws \<noteq> ''.''"
      using ws pre \<open>pre \<noteq> []\<close> id by blast+
    have out: "out = (if WINDOWS_DEVICE (concat ?ws) then percent (hd (concat ?ws)) @ tl (concat ?ws)
        else concat ?ws)"
      using assms by (simp only: encodeManagedId_def Let_def words ne False if_False) (simp split: if_splits)
    show ?thesis
    proof (cases "WINDOWS_DEVICE (concat ?ws)")
      case True
      from spelling_device [OF sp(1,3) True] obtain c cs vs where
        "?ws = [c] # vs" "spelling (percent c # vs) ident" by blast
      then show ?thesis using out True by (intro exI [of _ "percent c # vs"]) simp
    next
      case False
      then show ?thesis using out sp by (intro exI [of _ ?ws]) (simp add: spelling_def)
    qed
  qed
qed

lemma decode_bytes_encoded: "encodeManagedId ident = Inr out \<Longrightarrow> decode_bytes out = Some ident"
  using encoded_spelling [of ident out] by (auto simp: spelling_def decode_spelled)

lemma encode_ok: "ident \<noteq> [] \<Longrightarrow> \<exists>out. encodeManagedId ident = Inr out"
  by (auto simp: encodeManagedId_def Let_def ok_def)

section \<open>Properties\<close>

text \<open>
  C21.  Round trip: an id of valid UTF-8 that does not begin with a byte order mark is encoded, and
  decoding the directory name gives the id back.  (A lone surrogate has no UTF-8 spelling, and the
  decoder drops a leading byte order mark.)
\<close>

theorem managed_id_roundtrip:
  assumes "ident \<noteq> []" "utf8_valid ident" "\<not> js_prefix byte_order_mark ident"
  shows "\<exists>seg. encodeManagedId ident = Inr seg \<and> decodeManagedId seg = Inr ident"
  using encode_ok [OF assms(1)] decode_bytes_encoded assms(2,3)
  by (fastforce simp: decodeManagedId_def text_decode_def)

theorem managed_id_roundtrip_witness:
  "\<exists>seg. encodeManagedId ''con.v1..'' = Inr seg \<and> decodeManagedId seg = Inr ''con.v1..''"
  by (rule managed_id_roundtrip) code_simp+

text \<open>
  Two ids never share a directory: encoding is injective on every byte string, valid UTF-8 or not.
\<close>

theorem encodeManagedId_inj:
  assumes "encodeManagedId a = Inr seg" "encodeManagedId b = Inr seg"
  shows "a = b"
  using decode_bytes_encoded [OF assms(1)] decode_bytes_encoded [OF assms(2)] by simp

theorem encodeManagedId_inj_witness:
  "encodeManagedId ''nul'' = Inr ''%6Eul'' \<and> ''nul'' = (''nul'' :: string)"
  using encodeManagedId_inj [of "''nul''" "''%6Eul''" "''nul''"] by code_simp

text \<open>
  An encoded id is a safe path segment on every platform: it is not empty, holds only letters,
  digits, dots, underscores, hyphens and percent signs (no separator, colon or control character),
  does not end in a dot, so is neither \<open>.\<close> nor \<open>..\<close>, and is no Windows device name.
\<close>

theorem encoded_segment_safe:
  assumes "encodeManagedId ident = Inr seg"
  shows "seg \<noteq> [] \<and> (\<forall>d \<in> set seg. UNRESERVED d \<or> d = CHR ''%'') \<and> last seg \<noteq> CHR ''.''
    \<and> \<not> WINDOWS_DEVICE seg"
proof -
  obtain ws where seg: "seg = concat ws" and ws: "list_all2 spells ws ident" "ws \<noteq> []" "last ws \<noteq> ''.''"
      "\<not> WINDOWS_DEVICE (concat ws)"
    using encoded_spelling [OF assms] by (auto simp: spelling_def)
  have chars: "\<forall>d \<in> set seg. UNRESERVED d \<or> d = CHR ''%''"
    using list_all2_mem1 [OF ws(1)] spells_chars by (fastforce simp: seg)
  obtain c where "spells (last ws) c" using list_all2_mem1 [OF ws(1)] ws(2) by (meson last_in_set)
  then have "last ws \<noteq> [] \<and> last (last ws) \<noteq> CHR ''.''" using ws(3) by (rule spells_last)
  moreover have "seg = concat (butlast ws) @ last ws"
    unfolding seg by (subst append_butlast_last_id [OF ws(2), symmetric]) (simp del: append_butlast_last_id)
  ultimately show ?thesis using chars ws(4) seg by auto
qed

theorem encoded_segment_safe_witness:
  "encodeManagedId ''COM1.log'' = Inr ''%43OM1.log'' \<and> \<not> WINDOWS_DEVICE ''%43OM1.log''"
  using encoded_segment_safe [of "''COM1.log''" "''%43OM1.log''"] by code_simp

text \<open>
  The one valid id \<open>decodeManagedId\<close> does not give back: a leading byte order mark is encoded with
  the rest and dropped by the decoder.
\<close>

theorem decode_drops_byte_order_mark:
  assumes "utf8_valid (byte_order_mark @ rest)"
  shows "\<exists>seg. encodeManagedId (byte_order_mark @ rest) = Inr seg \<and> decodeManagedId seg = Inr rest"
proof -
  obtain seg where seg: "encodeManagedId (byte_order_mark @ rest) = Inr seg"
    using encode_ok [of "byte_order_mark @ rest"] by (auto simp: byte_order_mark_def)
  then show ?thesis
    using decode_bytes_encoded [OF seg] assms
    by (auto simp: decodeManagedId_def text_decode_def byte_order_mark_def)
qed

theorem decode_drops_byte_order_mark_witness:
  "\<exists>seg. encodeManagedId (byte_order_mark @ ''op'') = Inr seg \<and> decodeManagedId seg = Inr ''op''"
  by (rule decode_drops_byte_order_mark) code_simp

end
