(* ===== verification/Canonical_Json.thy ===== *)
theory Canonical_Json
  imports Env_Types "HOL-Library.List_Lexorder" "HOL-Library.Char_ord"
begin

text \<open>
  One byte sequence per value (\<open>src/src/runtime/environment/canonical-json.ts\<close>): the writer behind every
  digest the managed runtime decides with, and the fingerprints it is applied to.

  \<open>js_value\<close> is the JavaScript value the writer walks.  A finite number is an integer here, which is all
  the hashed objects hold (a revision); an object is the list of its own entries in insertion order.
  The keys of every hashed object are ASCII, on which the order of the bytes is the order of \<open>sort()\<close>.
  The SHA-256 of \<open>node:crypto\<close> is a parameter, \<open>sha\<close>.
\<close>

section \<open>Values and the writer\<close>

datatype js_number = Finite int | Not_a_number | Pos_infinity | Neg_infinity

datatype js_value =
    J_null
  | J_bool bool
  | J_string string
  | J_number js_number
  | J_undefined
  | J_bigint
  | J_function
  | J_symbol
  | J_array "js_value list"
  | J_object "(string \<times> js_value) list"
  | J_exotic \<comment> \<open>an object that is not plain: a \<open>Date\<close>, a \<open>Map\<close>, a class instance\<close>

definition invalid :: "string \<Rightarrow> 'a result" where
  "invalid why = err ''MANAGED_METADATA_INVALID'' (''Cannot canonicalise this value: '' @ why) None"

text \<open>\<open>JSON.stringify\<close> of a string: the two-character escapes, \<open>\u00xx\<close> for the other control characters.\<close>

definition hex_digit :: "nat \<Rightarrow> char" where
  "hex_digit n = char_of (if n < 10 then 48 + n else 87 + n)"

definition escape_char :: "char \<Rightarrow> string" where
  "escape_char c =
     (if c = CHR 0x22 then [CHR 0x5C, CHR 0x22]
      else if c = CHR 0x5C then [CHR 0x5C, CHR 0x5C]
      else if c = CHR 0x08 then [CHR 0x5C, CHR ''b'']
      else if c = CHR 0x0C then [CHR 0x5C, CHR ''f'']
      else if c = CHR 0x0A then [CHR 0x5C, CHR ''n'']
      else if c = CHR 0x0D then [CHR 0x5C, CHR ''r'']
      else if c = CHR 0x09 then [CHR 0x5C, CHR ''t'']
      else let n = of_char c :: nat in
        if n < 32 then [CHR 0x5C, CHR ''u'', CHR ''0'', CHR ''0'', hex_digit (n div 16), hex_digit (n mod 16)]
        else [c])"

definition stringify_string :: "string \<Rightarrow> string" where
  "stringify_string s = [CHR 0x22] @ concat (map escape_char s) @ [CHR 0x22]"

definition stringify_int :: "int \<Rightarrow> string" where
  "stringify_int i = (if i < 0 then ''-'' @ show_nat (nat (- i)) else show_nat (nat i))"

text \<open>The first refusal of a list of results, or all of them.\<close>

fun all_results :: "('k \<times> 'a result) list \<Rightarrow> ('k \<times> 'a) list result" where
  "all_results [] = ok []"
| "all_results ((k, r) # rs) =
     (case r of
        Inl e \<Rightarrow> Inl e
      | Inr x \<Rightarrow> (case all_results rs of Inl e \<Rightarrow> Inl e | Inr xs \<Rightarrow> ok ((k, x) # xs)))"

definition is_undefined :: "js_value \<Rightarrow> bool" where
  "is_undefined v = (case v of J_undefined \<Rightarrow> True | _ \<Rightarrow> False)"

fun write_value :: "js_value \<Rightarrow> string \<Rightarrow> string result"
  and write_items :: "js_value list \<Rightarrow> string \<Rightarrow> nat \<Rightarrow> (unit \<times> string result) list"
  and write_entries :: "(string \<times> js_value) list \<Rightarrow> string \<Rightarrow> (string \<times> string result) list" where
  "write_value J_null path = ok ''null''"
| "write_value (J_bool b) path = ok (if b then ''true'' else ''false'')"
| "write_value (J_string s) path = ok (stringify_string s)"
| "write_value (J_number n) path =
     (case n of
        Finite i \<Rightarrow> ok (stringify_int i)
      | Not_a_number \<Rightarrow> invalid (path @ '' is NaN'')
      | Pos_infinity \<Rightarrow> invalid (path @ '' is Infinity'')
      | Neg_infinity \<Rightarrow> invalid (path @ '' is -Infinity''))"
| "write_value J_undefined path = invalid (path @ '' is undefined'')"
| "write_value J_bigint path = invalid (path @ '' is a bigint'')"
| "write_value J_function path = invalid (path @ '' is a function'')"
| "write_value J_symbol path = invalid (path @ '' is a symbol'')"
| "write_value (J_array items) path =
     (case all_results (write_items items path 0) of
        Inl e \<Rightarrow> Inl e
      | Inr parts \<Rightarrow> ok (''['' @ js_join '','' (map snd parts) @ '']''))"
| "write_value J_exotic path = invalid (path @ '' is not a plain object'')"
| "write_value (J_object entries) path =
     (case all_results (sort_key fst (write_entries entries path)) of
        Inl e \<Rightarrow> Inl e
      | Inr parts \<Rightarrow>
          ok (''{'' @ js_join '','' (map (\<lambda>(k, t). stringify_string k @ '':'' @ t) parts) @ ''}''))"
| "write_items [] path index = []"
| "write_items (v # vs) path index =
     ((), write_value v (path @ ''['' @ show_nat index @ '']'')) # write_items vs path (index + 1)"
| "write_entries [] path = []"
| "write_entries ((k, v) # es) path =
     (if is_undefined v then write_entries es path
      else (k, write_value v (path @ ''.'' @ k)) # write_entries es path)"

definition canonicalJson :: "js_value \<Rightarrow> string result" where
  "canonicalJson v = write_value v ''$''"

definition canonicalDigest :: "(string \<Rightarrow> string) \<Rightarrow> js_value \<Rightarrow> sha256 result" where
  "canonicalDigest sha v =
     (case canonicalJson v of Inl e \<Rightarrow> Inl e | Inr text \<Rightarrow> ok (''sha256:'' @ sha text))"

section \<open>What is hashed\<close>

fun kind_name :: "managed_operation_kind \<Rightarrow> string" where
  "kind_name Setup = ''setup''"
| "kind_name Update = ''update''"
| "kind_name Remove = ''remove''"

fun js_target :: "managed_operation_target \<Rightarrow> js_value" where
  "js_target Target_environment = J_object [(''kind'', J_string ''environment'')]"
| "js_target (Target_runtime inst eng) =
     J_object [(''kind'', J_string ''runtime''), (''installation_id'', J_string inst),
               (''engine_id'', J_string eng)]"

text \<open>\<open>x ?? null\<close>, and an optional property.\<close>

definition js_nullable :: "('a \<Rightarrow> js_value) \<Rightarrow> 'a option \<Rightarrow> js_value" where
  "js_nullable f x = (case x of None \<Rightarrow> J_null | Some a \<Rightarrow> f a)"

definition js_optional :: "('a \<Rightarrow> js_value) \<Rightarrow> 'a option \<Rightarrow> js_value" where
  "js_optional f x = (case x of None \<Rightarrow> J_undefined | Some a \<Rightarrow> f a)"

definition begin_value :: "begin_operation \<Rightarrow> js_value" where
  "begin_value input = J_object
     [(''target'', js_target (bo_target input)),
      (''kind'', J_string (kind_name (bo_kind input))),
      (''descriptor_id'', js_nullable J_string (bo_descriptor_id input)),
      (''retain_models'', J_bool (case bo_retain_models input of None \<Rightarrow> False | Some b \<Rightarrow> b))]"

definition beginFingerprint :: "(string \<Rightarrow> string) \<Rightarrow> begin_operation \<Rightarrow> sha256 result" where
  "beginFingerprint sha input = canonicalDigest sha (begin_value input)"

record plan_host_fingerprint =
  ph_gpu_ids :: "string list"
  ph_disk_sufficient :: "bool option"
  ph_docker_root_dir :: "string option"

record plan_fingerprint =
  pf_target :: managed_operation_target
  pf_recipe_id :: string
  pf_recipe_digest :: sha256
  pf_adopts_existing_engine :: bool
  pf_system_changes :: "managed_system_change list"
  pf_requires_elevation :: bool
  pf_may_require_relogin :: bool
  pf_may_require_reboot :: bool
  pf_descriptor :: "(string \<times> sha256) option"
  pf_environment_manifest_id :: "string option"
  pf_host :: "plan_host_fingerprint option"

definition js_string_map :: "string_map \<Rightarrow> js_value" where
  "js_string_map m = J_object (map (\<lambda>(k, v). (k, J_string v)) m)"

definition js_system_change :: "managed_system_change \<Rightarrow> js_value" where
  "js_system_change c = J_object
     [(''code'', J_string (sc_code c)), (''text'', J_string (sc_text c)),
      (''params'', js_optional js_string_map (sc_params c))]"

definition js_host :: "plan_host_fingerprint \<Rightarrow> js_value" where
  "js_host h = J_object
     [(''gpu_ids'', J_array (map J_string (ph_gpu_ids h))),
      (''disk_sufficient'', js_nullable J_bool (ph_disk_sufficient h)),
      (''docker_root_dir'', js_nullable J_string (ph_docker_root_dir h))]"

definition plan_value :: "plan_fingerprint \<Rightarrow> js_value" where
  "plan_value plan = J_object
     [(''target'', js_target (pf_target plan)),
      (''recipe_id'', J_string (pf_recipe_id plan)),
      (''recipe_digest'', J_string (pf_recipe_digest plan)),
      (''adopts_existing_engine'', J_bool (pf_adopts_existing_engine plan)),
      (''system_changes'', J_array (map js_system_change (pf_system_changes plan))),
      (''requires_elevation'', J_bool (pf_requires_elevation plan)),
      (''may_require_relogin'', J_bool (pf_may_require_relogin plan)),
      (''may_require_reboot'', J_bool (pf_may_require_reboot plan)),
      (''descriptor'', js_nullable
         (\<lambda>(d, i). J_object [(''descriptor_id'', J_string d), (''image_digest'', J_string i)])
         (pf_descriptor plan)),
      (''environment_manifest_id'', js_nullable J_string (pf_environment_manifest_id plan)),
      (''host'', js_nullable js_host (pf_host plan))]"

definition planDigest :: "(string \<Rightarrow> string) \<Rightarrow> plan_fingerprint \<Rightarrow> sha256 result" where
  "planDigest sha plan = canonicalDigest sha (plan_value plan)"

end
