(* ===== verification/Store.thy ===== *)
theory Store
  imports Machine Managed_Ids Canonical_Json "HOL-Library.AList"
begin

text \<open>
  The operation store (\<open>src/src/runtime/environment/store.ts\<close>): durable records shared by the app core
  and the CLI core, written so that an interrupted write leaves a readable copy, committed against the
  revision they were computed from, and changed only under a lock file both cores respect.

  The file system is the association list \<open>disk\<close> from the paths the store uses to files.  The content
  of a file is the record a completed \<open>writeFile\<close> of \<open>JSON.stringify\<close> put there (what \<open>JSON.parse\<close> gives
  back is that record) or any other text: a token, a torn write, a foreign file.  A call that changes
  files is a function to its result and the disk it leaves.
\<close>

section \<open>Records\<close>

record operation_follow_up =
  fu_descriptor_id :: string
  fu_request_id :: string

record persisted_operation =
  po_machine :: operation_machine
  po_request_digest :: sha256
  po_request :: begin_operation
  po_requirement_plan :: "requirement_plan option"
  po_accepted_receipt_digests :: "(string \<times> sha256) list"
  po_completed_effect_ids :: "string list"
  po_owned_resource_ids :: "string list"
  po_owner_pid :: "int option"
  po_owner_process_start_id :: "string option"
  po_follow_up :: "operation_follow_up option"
  po_reinstall_of :: "string option"

abbreviation po_operation :: "persisted_operation \<Rightarrow> environment_operation" where
  "po_operation r \<equiv> m_operation (po_machine r)"

abbreviation po_id :: "persisted_operation \<Rightarrow> string" where
  "po_id r \<equiv> op_operation_id (po_operation r)"

abbreviation po_revision :: "persisted_operation \<Rightarrow> nat" where
  "po_revision r \<equiv> op_revision (po_operation r)"

abbreviation po_phase :: "persisted_operation \<Rightarrow> managed_phase" where
  "po_phase r \<equiv> op_phase (po_operation r)"

abbreviation finished :: "persisted_operation \<Rightarrow> bool" where
  "finished r \<equiv> po_phase r \<in> set TERMINAL"

section \<open>The file system\<close>

datatype store_path =
    Operation_path string        \<comment> \<open>a name in the operations directory\<close>
  | Lock_file
  | Takeover_mutex
  | Archive_path string string   \<comment> \<open>\<open>operations-archive/<stamp>/<name>\<close>\<close>

datatype file_content = Record persisted_operation | Plain_text string

record store_file =
  fi_content :: file_content
  fi_mtime :: int

type_synonym disk = "(store_path \<times> store_file) list"

definition fs_exists :: "disk \<Rightarrow> store_path \<Rightarrow> bool" where
  "fs_exists d p \<longleftrightarrow> map_of d p \<noteq> None"

definition fs_writeFile :: "store_path \<Rightarrow> file_content \<Rightarrow> int \<Rightarrow> disk \<Rightarrow> disk" where
  "fs_writeFile p content now d = AList.update p \<lparr>fi_content = content, fi_mtime = now\<rparr> d"

text \<open>A rename of a file that is not there changes nothing (and throws).\<close>

definition fs_rename :: "store_path \<Rightarrow> store_path \<Rightarrow> disk \<Rightarrow> disk" where
  "fs_rename from to d =
     (case map_of d from of None \<Rightarrow> d | Some f \<Rightarrow> AList.update to f (AList.delete from d))"

definition fs_rm :: "store_path \<Rightarrow> disk \<Rightarrow> disk" where
  "fs_rm p d = AList.delete p d"

text \<open>Exclusive create: \<^const>\<open>None\<close> when the file exists.\<close>

definition fs_openExclusive :: "store_path \<Rightarrow> int \<Rightarrow> disk \<Rightarrow> disk option" where
  "fs_openExclusive p now d =
     (if fs_exists d p then None else Some (fs_writeFile p (Plain_text []) now d))"

definition readdir_operations :: "disk \<Rightarrow> string list" where
  "readdir_operations d =
     concat (map (\<lambda>(p, _). case p of Operation_path name \<Rightarrow> [name] | _ \<Rightarrow> []) d)"

section \<open>Reading\<close>

definition MAX_SAFE_INTEGER :: nat where
  "MAX_SAFE_INTEGER = 9007199254740991"

definition corrupt :: "string \<Rightarrow> 'a result" where
  "corrupt operationId =
     err ''IO_ERROR'' ''The record of this operation cannot be read, so what it owns is unknown.''
       (Some operationId)"

text \<open>
  Of the shape checks, the revision's is the one a completed write of a record can fail; every text
  that is no record fails one of the others.
\<close>

definition parseRecord :: "file_content \<Rightarrow> persisted_operation option" where
  "parseRecord content =
     (case content of
        Plain_text _ \<Rightarrow> None
      | Record r \<Rightarrow>
          if po_revision r \<le> MAX_SAFE_INTEGER \<and> po_phase r \<in> set MANAGED_PHASES then Some r else None)"

definition readRecord :: "disk \<Rightarrow> string \<Rightarrow> persisted_operation option" where
  "readRecord d name =
     (case map_of d (Operation_path name) of None \<Rightarrow> None | Some f \<Rightarrow> parseRecord (fi_content f))"

definition operationFileName :: "string \<Rightarrow> string result" where
  "operationFileName operationId =
     (case encodeManagedId operationId of Inl e \<Rightarrow> Inl e | Inr seg \<Rightarrow> ok (seg @ ''.json''))"

definition bak :: "string \<Rightarrow> string" where
  "bak name = name @ ''.bak''"

definition tmp :: "string \<Rightarrow> string" where
  "tmp name = name @ ''.tmp''"

definition read_named :: "disk \<Rightarrow> string \<Rightarrow> string \<Rightarrow> persisted_operation option result" where
  "read_named d operationId name =
     (case readRecord d name of
        Some current \<Rightarrow> ok (Some current)
      | None \<Rightarrow>
          (case readRecord d (bak name) of
             Some previous \<Rightarrow> ok (Some previous)
           | None \<Rightarrow>
               if \<not> fs_exists d (Operation_path name) \<and> \<not> fs_exists d (Operation_path (bak name))
               then ok None else corrupt operationId))"

definition store_read :: "disk \<Rightarrow> string \<Rightarrow> persisted_operation option result" where
  "store_read d operationId =
     (case operationFileName operationId of Inl e \<Rightarrow> Inl e | Inr name \<Rightarrow> read_named d operationId name)"

definition ends_with :: "string \<Rightarrow> string \<Rightarrow> bool" where
  "ends_with s suffix \<longleftrightarrow> length suffix \<le> length s \<and> drop (length s - length suffix) s = suffix"

definition base_names :: "string list \<Rightarrow> string list" where
  "base_names entries = js_unique (concat (map (\<lambda>entry.
     if ends_with entry ''.json'' then [entry]
     else if ends_with entry ''.json.bak'' then [take (length entry - 4) entry] else []) entries))"

fun read_all :: "disk \<Rightarrow> string list \<Rightarrow> persisted_operation list result" where
  "read_all d [] = ok []"
| "read_all d (entry # entries) =
     (case (case readRecord d entry of
              Some r \<Rightarrow> ok r
            | None \<Rightarrow> (case readRecord d (bak entry) of Some r \<Rightarrow> ok r | None \<Rightarrow> corrupt entry)) of
        Inl e \<Rightarrow> Inl e
      | Inr r \<Rightarrow> (case read_all d entries of Inl e \<Rightarrow> Inl e | Inr rs \<Rightarrow> ok (r # rs)))"

definition store_all :: "disk \<Rightarrow> persisted_operation list result" where
  "store_all d = read_all d (base_names (readdir_operations d))"

definition listRecoverable :: "disk \<Rightarrow> persisted_operation list result" where
  "listRecoverable d =
     (case store_all d of Inl e \<Rightarrow> Inl e | Inr rs \<Rightarrow> ok (filter (\<lambda>r. \<not> finished r) rs))"

definition listAll :: "disk \<Rightarrow> persisted_operation list result" where
  "listAll d = store_all d"

section \<open>Writing\<close>

record store_config =
  cf_instanceId :: string
  cf_newOperationId :: string    \<comment> \<open>what \<open>newOperationId()\<close> answers in this call\<close>
  cf_newEffectId :: string
  cf_owner_pid :: int
  cf_owner_startId :: "string option"
  cf_now :: int
  cf_lockTtlMs :: int
  cf_lockAttempts :: nat

definition stamp :: "store_config \<Rightarrow> persisted_operation \<Rightarrow> persisted_operation" where
  "stamp cfg r = r\<lparr>po_owner_pid := Some (cf_owner_pid cfg),
                   po_owner_process_start_id := cf_owner_startId cfg\<rparr>"

text \<open>The three moments of a write: the new record beside the old one, the old one kept, the swap.\<close>

definition write_tmp :: "store_config \<Rightarrow> string \<Rightarrow> persisted_operation \<Rightarrow> disk \<Rightarrow> disk" where
  "write_tmp cfg name stamped d = fs_writeFile (Operation_path (tmp name)) (Record stamped) (cf_now cfg) d"

definition keep_previous :: "string \<Rightarrow> disk \<Rightarrow> disk" where
  "keep_previous name d =
     (if fs_exists d (Operation_path name)
      then fs_rename (Operation_path name) (Operation_path (bak name)) d else d)"

definition swap_in :: "string \<Rightarrow> disk \<Rightarrow> disk" where
  "swap_in name d = fs_rename (Operation_path (tmp name)) (Operation_path name) d"

definition store_write ::
  "store_config \<Rightarrow> persisted_operation \<Rightarrow> disk \<Rightarrow> persisted_operation result \<times> disk" where
  "store_write cfg r d =
     (let stamped = stamp cfg r in
      case operationFileName (po_id stamped) of
        Inl e \<Rightarrow> (Inl e, d)
      | Inr name \<Rightarrow> (ok stamped, swap_in name (keep_previous name (write_tmp cfg name stamped d))))"

text \<open>
  The disks a crash during \<open>write\<close> can leave: before anything, with the new file torn at any text,
  after each of its three moments.
\<close>

inductive write_crash :: "store_config \<Rightarrow> persisted_operation \<Rightarrow> disk \<Rightarrow> disk \<Rightarrow> bool"
  for cfg :: store_config and r :: persisted_operation and d :: disk where
  crash_before: "write_crash cfg r d d"
| crash_torn: "operationFileName (po_id r) = Inr name \<Longrightarrow>
    write_crash cfg r d (fs_writeFile (Operation_path (tmp name)) (Plain_text torn) (cf_now cfg) d)"
| crash_written: "operationFileName (po_id r) = Inr name \<Longrightarrow>
    write_crash cfg r d (write_tmp cfg name (stamp cfg r) d)"
| crash_kept: "operationFileName (po_id r) = Inr name \<Longrightarrow>
    write_crash cfg r d (keep_previous name (write_tmp cfg name (stamp cfg r) d))"
| crash_swapped: "operationFileName (po_id r) = Inr name \<Longrightarrow>
    write_crash cfg r d (swap_in name (keep_previous name (write_tmp cfg name (stamp cfg r) d)))"

section \<open>The operations, inside the lock\<close>

record created =
  cg_record :: persisted_operation
  cg_created :: bool

definition start_of :: "store_config \<Rightarrow> string \<Rightarrow> begin_operation \<Rightarrow> start_operation" where
  "start_of cfg environmentId input =
     \<lparr>so_operation_id = cf_newOperationId cfg, so_request_id = bo_request_id input,
      so_environment_id = environmentId, so_instance_id = cf_instanceId cfg,
      so_target = bo_target input, so_kind = bo_kind input,
      so_approved_plan_digest = bo_approved_plan_digest input\<rparr>"

definition fresh_record ::
  "store_config \<Rightarrow> string \<Rightarrow> begin_operation \<Rightarrow> sha256 \<Rightarrow> operation_follow_up option \<Rightarrow> string option
     \<Rightarrow> persisted_operation" where
  "fresh_record cfg environmentId input requestDigest followUp reinstallOf =
     \<lparr>po_machine = fst (startOperation (start_of cfg environmentId input)
                        \<lparr>next_effect_id = cf_newEffectId cfg\<rparr>),
      po_request_digest = requestDigest, po_request = input, po_requirement_plan = None,
      po_accepted_receipt_digests = [], po_completed_effect_ids = [], po_owned_resource_ids = [],
      po_owner_pid = None, po_owner_process_start_id = None,
      po_follow_up = followUp, po_reinstall_of = reinstallOf\<rparr>"

definition createOrGet_run ::
  "store_config \<Rightarrow> string \<Rightarrow> begin_operation \<Rightarrow> sha256 \<Rightarrow> operation_follow_up option \<Rightarrow> string option
     \<Rightarrow> disk \<Rightarrow> created result \<times> disk" where
  "createOrGet_run cfg environmentId input requestDigest followUp reinstallOf d =
     (case store_all d of
        Inl e \<Rightarrow> (Inl e, d)
      | Inr existing \<Rightarrow>
          (case find (\<lambda>r. bo_request_id (po_request r) = bo_request_id input) existing of
             Some sameRequest \<Rightarrow>
               if po_request_digest sameRequest \<noteq> requestDigest
               then (err ''MANAGED_OPERATION_CONFLICT''
                       ''That request id was already used for a different operation.''
                       (Some (bo_request_id input)), d)
               else (ok \<lparr>cg_record = sameRequest, cg_created = False\<rparr>, d)
           | None \<Rightarrow>
               (case find (\<lambda>r. op_environment_id (po_operation r) = environmentId \<and> \<not> finished r) existing of
                  Some running \<Rightarrow>
                    (err ''MANAGED_OPERATION_CONFLICT'' ''Another change to this environment is still running.''
                       (Some (po_id running)), d)
                | None \<Rightarrow>
                    (case store_write cfg
                            (fresh_record cfg environmentId input requestDigest followUp reinstallOf) d of
                       (Inl e, d') \<Rightarrow> (Inl e, d')
                     | (Inr stamped, d') \<Rightarrow> (ok \<lparr>cg_record = stamped, cg_created = True\<rparr>, d')))))"

definition merge_owned :: "persisted_operation \<Rightarrow> persisted_operation \<Rightarrow> persisted_operation" where
  "merge_owned current nxt =
     nxt\<lparr>po_owned_resource_ids := js_unique (po_owned_resource_ids current @ po_owned_resource_ids nxt)\<rparr>"

definition compareAndSwap_run ::
  "store_config \<Rightarrow> string \<Rightarrow> nat \<Rightarrow> persisted_operation \<Rightarrow> disk \<Rightarrow> bool result \<times> disk" where
  "compareAndSwap_run cfg operationId expectedRevision nxt d =
     (case store_read d operationId of
        Inl e \<Rightarrow> (Inl e, d)
      | Inr None \<Rightarrow> (ok False, d)
      | Inr (Some current) \<Rightarrow>
          if po_revision current \<noteq> expectedRevision then (ok False, d)
          else if po_id nxt \<noteq> operationId
          then (err ''MANAGED_IDENTITY_MISMATCH'' ''That state belongs to another operation.''
                  (Some operationId), d)
          else (case store_write cfg (merge_owned current nxt) d of
                  (Inl e, d') \<Rightarrow> (Inl e, d')
                | (Inr _, d') \<Rightarrow> (ok True, d')))"

definition recordOwned_run :: "store_config \<Rightarrow> string \<Rightarrow> string list \<Rightarrow> disk \<Rightarrow> unit result \<times> disk" where
  "recordOwned_run cfg operationId resourceIds d =
     (case store_read d operationId of
        Inl e \<Rightarrow> (Inl e, d)
      | Inr None \<Rightarrow> (err ''MANAGED_OPERATION_NOT_FOUND'' ''No such operation.'' (Some operationId), d)
      | Inr (Some current) \<Rightarrow>
          let owned = js_unique (po_owned_resource_ids current @ resourceIds) in
          if length owned = length (po_owned_resource_ids current) then (ok (), d)
          else (case store_write cfg (current\<lparr>po_owned_resource_ids := owned\<rparr>) d of
                  (Inl e, d') \<Rightarrow> (Inl e, d')
                | (Inr _, d') \<Rightarrow> (ok (), d')))"

definition archive_path :: "string \<Rightarrow> string \<Rightarrow> disk \<Rightarrow> disk" where
  "archive_path stmp name d =
     (if fs_exists d (Operation_path name)
      then fs_rename (Operation_path name) (Archive_path stmp name) d else d)"

fun archive_records :: "string \<Rightarrow> persisted_operation list \<Rightarrow> disk \<Rightarrow> string list result \<times> disk" where
  "archive_records stmp [] d = (ok [], d)"
| "archive_records stmp (r # rs) d =
     (case operationFileName (po_id r) of
        Inl e \<Rightarrow> (Inl e, d)
      | Inr name \<Rightarrow>
          (case archive_records stmp rs (archive_path stmp (bak name) (archive_path stmp name d)) of
             (Inl e, d') \<Rightarrow> (Inl e, d')
           | (Inr ids, d') \<Rightarrow> (ok (po_id r # ids), d')))"

record archived =
  ar_ids :: "string list"
  ar_path :: "string option"

definition archiveFinished_run :: "string \<Rightarrow> string \<Rightarrow> disk \<Rightarrow> archived result \<times> disk" where
  "archiveFinished_run root stmp d =
     (case store_all d of
        Inl e \<Rightarrow> (Inl e, d)
      | Inr existing \<Rightarrow>
          (case find (\<lambda>r. \<not> finished r) existing of
             Some running \<Rightarrow>
               (err ''MANAGED_OPERATION_CONFLICT''
                  ''A change to this environment is still running; finish or cancel it before resetting.''
                  (Some (po_id running)), d)
           | None \<Rightarrow>
               if existing = [] then (ok \<lparr>ar_ids = [], ar_path = None\<rparr>, d)
               else (case archive_records stmp existing d of
                       (Inl e, d') \<Rightarrow> (Inl e, d')
                     | (Inr ids, d') \<Rightarrow>
                         (ok \<lparr>ar_ids = ids,
                              ar_path = Some (path_join [root, ''operations-archive'', stmp])\<rparr>, d'))))"

section \<open>The lock\<close>

definition TAKEOVER_MUTEX_TTL_MS :: int where
  "TAKEOVER_MUTEX_TTL_MS = 30000"

definition busy :: "'a result" where
  "busy = err ''MANAGED_OPERATION_CONFLICT''
     ''Another Atomic Chat process is changing the managed runtime; try again in a moment.'' None"

definition ageOf :: "int \<Rightarrow> store_path \<Rightarrow> disk \<Rightarrow> int option" where
  "ageOf now p d = map_option (\<lambda>f. now - fi_mtime f) (map_of d p)"

definition older_than :: "int \<Rightarrow> int \<Rightarrow> store_path \<Rightarrow> disk \<Rightarrow> bool" where
  "older_than ttl now p d = (case ageOf now p d of None \<Rightarrow> False | Some age \<Rightarrow> age > ttl)"

definition tryTakeoverStale :: "int \<Rightarrow> int \<Rightarrow> disk \<Rightarrow> bool \<times> disk" where
  "tryTakeoverStale ttl now d =
     (case fs_openExclusive Takeover_mutex now d of
        None \<Rightarrow>
          (False, if older_than TAKEOVER_MUTEX_TTL_MS now Takeover_mutex d then fs_rm Takeover_mutex d else d)
      | Some d' \<Rightarrow>
          if older_than ttl now Lock_file d'
          then (True, fs_rm Takeover_mutex (fs_rm Lock_file d'))
          else (False, fs_rm Takeover_mutex d'))"

text \<open>
  What one \<open>acquire\<close> meets, by attempt: the token it draws, the time, and what the other processes did to
  the disk since the attempt before.
\<close>

record lock_schedule =
  ls_token :: "nat \<Rightarrow> string"
  ls_now :: "nat \<Rightarrow> int"
  ls_others :: "nat \<Rightarrow> disk \<Rightarrow> disk"

fun acquire :: "int \<Rightarrow> lock_schedule \<Rightarrow> nat \<Rightarrow> nat \<Rightarrow> disk \<Rightarrow> string option \<times> disk" where
  "acquire ttl sch attempt 0 d = (None, d)"
| "acquire ttl sch attempt (Suc left) d =
     (let now = ls_now sch attempt; d = ls_others sch attempt d in
      case fs_openExclusive Lock_file now d of
        Some d' \<Rightarrow> (Some (ls_token sch attempt),
                    fs_writeFile Lock_file (Plain_text (ls_token sch attempt)) now d')
      | None \<Rightarrow> acquire ttl sch (attempt + 1) left (snd (tryTakeoverStale ttl now d)))"

definition release :: "string \<Rightarrow> disk \<Rightarrow> disk" where
  "release token d =
     (case map_of d Lock_file of
        Some f \<Rightarrow> (case fi_content f of
                     Plain_text onDisk \<Rightarrow> if js_trim onDisk = token then fs_rm Lock_file d else d
                   | Record _ \<Rightarrow> d)
      | None \<Rightarrow> d)"

definition withLock ::
  "store_config \<Rightarrow> lock_schedule \<Rightarrow> (disk \<Rightarrow> 'a result \<times> disk) \<Rightarrow> disk \<Rightarrow> 'a result \<times> disk" where
  "withLock cfg sch run d =
     (case acquire (cf_lockTtlMs cfg) sch 0 (cf_lockAttempts cfg) d of
        (None, d') \<Rightarrow> (busy, d')
      | (Some token, d') \<Rightarrow> (case run d' of (r, d'') \<Rightarrow> (r, release token d'')))"

definition createOrGet where
  "createOrGet cfg sch environmentId input requestDigest followUp reinstallOf =
     withLock cfg sch (createOrGet_run cfg environmentId input requestDigest followUp reinstallOf)"

definition compareAndSwap where
  "compareAndSwap cfg sch operationId expectedRevision nxt =
     withLock cfg sch (compareAndSwap_run cfg operationId expectedRevision nxt)"

definition recordOwned where
  "recordOwned cfg sch operationId resourceIds =
     withLock cfg sch (recordOwned_run cfg operationId resourceIds)"

definition archiveFinished where
  "archiveFinished cfg sch root stmp = withLock cfg sch (archiveFinished_run root stmp)"

section \<open>Receipts\<close>

datatype receipt_verdict = Fresh | Duplicate

fun outcome_name :: "receipt_outcome \<Rightarrow> string" where
  "outcome_name Out_completed = ''completed''"
| "outcome_name Out_declined = ''declined''"
| "outcome_name Out_relogin_required = ''relogin-required''"
| "outcome_name Out_reboot_required = ''reboot-required''"
| "outcome_name Out_failed = ''failed''"

text \<open>Every field of the receipt but \<open>log_tail\<close>.\<close>

definition receipt_value :: "managed_host_receipt \<Rightarrow> js_value" where
  "receipt_value receipt = J_object
     [(''step_id'', J_string (rc_step_id receipt)), (''nonce'', J_string (rc_nonce receipt)),
      (''expected_operation_revision'', J_number (Finite (int (rc_expected_operation_revision receipt)))),
      (''recipe_digest'', J_string (rc_recipe_digest receipt)),
      (''parameters_digest'', J_string (rc_parameters_digest receipt)),
      (''outcome'', J_string (outcome_name (rc_outcome receipt))),
      (''receipt_id'', J_string (rc_receipt_id receipt))]"

definition receiptIdentity :: "(string \<Rightarrow> string) \<Rightarrow> managed_host_receipt \<Rightarrow> sha256 result" where
  "receiptIdentity sha receipt = canonicalDigest sha (receipt_value receipt)"

definition classifyReceipt ::
  "(string \<Rightarrow> string) \<Rightarrow> persisted_operation \<Rightarrow> managed_host_receipt \<Rightarrow> receipt_verdict result" where
  "classifyReceipt sha r receipt =
     (case map_of (po_accepted_receipt_digests r) (rc_nonce receipt) of
        None \<Rightarrow> ok Fresh
      | Some seen \<Rightarrow>
          (case receiptIdentity sha receipt of
             Inl e \<Rightarrow> Inl e
           | Inr digest \<Rightarrow>
               if seen = digest then ok Duplicate
               else err ''MANAGED_RECEIPT_CONFLICT''
                      ''A different result was already recorded for this authorization.''
                      (Some (rc_nonce receipt))))"

definition withReceipt ::
  "(string \<Rightarrow> string) \<Rightarrow> persisted_operation \<Rightarrow> managed_host_receipt \<Rightarrow> persisted_operation result" where
  "withReceipt sha r receipt =
     (case receiptIdentity sha receipt of
        Inl e \<Rightarrow> Inl e
      | Inr digest \<Rightarrow>
          ok (r\<lparr>po_accepted_receipt_digests :=
                  AList.update (rc_nonce receipt) digest (po_accepted_receipt_digests r)\<rparr>))"

end
