(* ===== verification/Store_Files.thy ===== *)
theory Store_Files
  imports Store Machine_Inv
begin

text \<open>
  What the store's file operations do to the records that can be read back, and the interface its
  clients rely on: a locale of read, compare-and-swap and ownership laws, interpreted on the store.
\<close>

section \<open>File names\<close>

lemma operationFileName_Inr:
  "operationFileName ident = Inr name \<Longrightarrow> \<exists>seg. encodeManagedId ident = Inr seg \<and> name = seg @ ''.json''"
  by (auto simp: operationFileName_def split: sum.splits)

lemma operationFileName_inj:
  assumes "operationFileName a = Inr name" "operationFileName b = Inr name"
  shows "a = b"
proof -
  obtain seg where "encodeManagedId a = Inr seg" "encodeManagedId b = Inr seg"
    using operationFileName_Inr [OF assms(1)] operationFileName_Inr [OF assms(2)] by auto
  then show ?thesis using decode_bytes_encoded [of a seg] decode_bytes_encoded [of b seg] by simp
qed

definition json_name :: "string \<Rightarrow> bool" where
  "json_name n \<longleftrightarrow> n \<noteq> [] \<and> last n = CHR ''n''"

lemma json_nameI: "operationFileName ident = Inr name \<Longrightarrow> json_name name"
  using operationFileName_Inr [of ident name] by (auto simp: json_name_def)

lemma name_parts [simp]: "bak n = bak m \<longleftrightarrow> n = m" "tmp n = tmp m \<longleftrightarrow> n = m" "bak n \<noteq> tmp m" "tmp n \<noteq> bak m"
  by (simp_all add: bak_def tmp_def)

lemma bak_tmp_self [simp]: "bak n \<noteq> n" "tmp n \<noteq> n" "n \<noteq> bak n" "n \<noteq> tmp n"
  by (simp_all add: bak_def tmp_def)

lemma not_json_name [simp]: "\<not> json_name (bak n)" "\<not> json_name (tmp n)"
  by (simp_all add: json_name_def bak_def tmp_def)

lemma json_name_bak [simp]:
  assumes "json_name m"
  shows "bak n \<noteq> m" "m \<noteq> bak n" "tmp n \<noteq> m" "m \<noteq> tmp n"
  using assms by (auto simp: json_name_def bak_def tmp_def)

section \<open>Files after a step\<close>

lemma map_of_fs [simp]:
  "map_of (fs_writeFile p c now d) = (map_of d)(p \<mapsto> \<lparr>fi_content = c, fi_mtime = now\<rparr>)"
  "map_of (fs_rm p d) = (map_of d)(p := None)"
  by (simp_all add: fs_writeFile_def fs_rm_def AList.update_conv' AList.delete_conv')

lemma map_of_rename:
  "map_of (fs_rename from to d) =
     (case map_of d from of None \<Rightarrow> map_of d | Some f \<Rightarrow> (map_of d)(from := None, to \<mapsto> f))"
  by (auto simp: fs_rename_def AList.update_conv' AList.delete_conv' split: option.split)

lemma fs_exists_iff: "fs_exists d p \<longleftrightarrow> p \<in> dom (map_of d)"
  by (auto simp: fs_exists_def)

lemma map_of_keep_previous:
  "map_of (keep_previous name d) =
     (case map_of d (Operation_path name) of
        None \<Rightarrow> map_of d
      | Some f \<Rightarrow> (map_of d)(Operation_path name := None, Operation_path (bak name) \<mapsto> f))"
  by (auto simp: keep_previous_def fs_exists_def map_of_rename split: option.split)

lemma map_of_write_tmp:
  "map_of (write_tmp cfg name r d) =
     (map_of d)(Operation_path (tmp name) \<mapsto> \<lparr>fi_content = Record r, fi_mtime = cf_now cfg\<rparr>)"
  by (simp add: write_tmp_def)

lemma map_of_written:
  "map_of (swap_in name (keep_previous name (write_tmp cfg name r d))) =
     (map_of d)(Operation_path (tmp name) := None,
       Operation_path (bak name) :=
         (case map_of d (Operation_path name) of None \<Rightarrow> map_of d (Operation_path (bak name)) | Some f \<Rightarrow> Some f),
       Operation_path name \<mapsto> \<lparr>fi_content = Record r, fi_mtime = cf_now cfg\<rparr>)"
  by (auto simp: swap_in_def map_of_rename map_of_keep_previous map_of_write_tmp fun_eq_iff
      split: option.split)

section \<open>Reading and writing\<close>

definition storable :: "persisted_operation \<Rightarrow> bool" where
  "storable r \<longleftrightarrow> po_revision r \<le> MAX_SAFE_INTEGER"

lemma parseRecord_Record [simp]: "storable r \<Longrightarrow> parseRecord (Record r) = Some r"
  by (simp add: parseRecord_def storable_def set_MANAGED_PHASES)

lemma parseRecord_SomeD: "parseRecord c = Some r \<Longrightarrow> c = Record r \<and> storable r"
  by (auto simp: parseRecord_def storable_def split: file_content.splits if_splits)

lemma storable_stamp [simp]: "storable (stamp cfg r) = storable r"
  by (simp add: storable_def stamp_def)

lemma storable_merge [simp]: "storable (merge_owned c r) = storable r"
  by (simp add: storable_def merge_owned_def)

lemma stamp_simps [simp]:
  "po_machine (stamp cfg r) = po_machine r" "po_owned_resource_ids (stamp cfg r) = po_owned_resource_ids r"
  "po_request (stamp cfg r) = po_request r" "po_request_digest (stamp cfg r) = po_request_digest r"
  "po_accepted_receipt_digests (stamp cfg r) = po_accepted_receipt_digests r"
  "po_follow_up (stamp cfg r) = po_follow_up r" "po_reinstall_of (stamp cfg r) = po_reinstall_of r"
  by (simp_all add: stamp_def)

lemma merge_owned_simps [simp]:
  "po_machine (merge_owned c r) = po_machine r" "po_request (merge_owned c r) = po_request r"
  "po_accepted_receipt_digests (merge_owned c r) = po_accepted_receipt_digests r"
  "po_request_digest (merge_owned c r) = po_request_digest r"
  "set (po_owned_resource_ids (merge_owned c r)) = set (po_owned_resource_ids c) \<union> set (po_owned_resource_ids r)"
  by (simp_all add: merge_owned_def)

text \<open>A read looks at two files only.\<close>

lemma read_named_cong:
  assumes "map_of d (Operation_path name) = map_of d' (Operation_path name)"
    "map_of d (Operation_path (bak name)) = map_of d' (Operation_path (bak name))"
  shows "read_named d ident name = read_named d' ident name"
proof -
  have "readRecord d name = readRecord d' name" "readRecord d (bak name) = readRecord d' (bak name)"
    by (simp_all only: readRecord_def assms)
  then show ?thesis by (simp only: read_named_def fs_exists_def assms)
qed

lemma store_read_cong:
  assumes "\<And>name. operationFileName ident = Inr name \<Longrightarrow>
      map_of d (Operation_path name) = map_of d' (Operation_path name) \<and>
      map_of d (Operation_path (bak name)) = map_of d' (Operation_path (bak name))"
  shows "store_read d ident = store_read d' ident"
  using assms read_named_cong [of d _ d'] by (auto simp: store_read_def split: sum.split)

lemma other_names:
  assumes "operationFileName a = Inr n" "operationFileName b = Inr m" "a \<noteq> b"
  shows "n \<noteq> m" "m \<noteq> n" "bak n \<noteq> m" "tmp n \<noteq> m" "m \<noteq> bak n" "m \<noteq> tmp n"
  using assms json_nameI operationFileName_inj by auto

lemma store_write_cases:
  "store_write cfg r d = (out, d') \<Longrightarrow>
    (\<exists>e. operationFileName (po_id r) = Inl e \<and> out = Inl e \<and> d' = d) \<or>
    (\<exists>name. operationFileName (po_id r) = Inr name \<and> out = Inr (stamp cfg r) \<and>
       d' = swap_in name (keep_previous name (write_tmp cfg name (stamp cfg r) d)))"
  by (auto simp: store_write_def Let_def split: sum.splits)

lemma read_after_write:
  assumes "store_write cfg r d = (Inr s, d')" "storable r"
  shows "s = stamp cfg r \<and> store_read d' (po_id r) = Inr (Some (stamp cfg r))"
  using store_write_cases [OF assms(1)] assms(2)
  by (auto simp: store_read_def read_named_def readRecord_def map_of_written)

lemma read_other_after_write:
  assumes "store_write cfg r d = (out, d')" "ident \<noteq> po_id r"
  shows "store_read d' ident = store_read d ident"
proof (rule store_read_cong)
  fix name assume name: "operationFileName ident = Inr name"
  from store_write_cases [OF assms(1)]
  show "map_of d' (Operation_path name) = map_of d (Operation_path name) \<and>
      map_of d' (Operation_path (bak name)) = map_of d (Operation_path (bak name))"
    using other_names [OF _ name] assms(2) json_nameI [OF name] json_nameI [of "po_id r"]
    by (auto simp: map_of_written)
qed

lemma read_encodes: "store_read d ident = Inr x \<Longrightarrow> \<exists>name. operationFileName ident = Inr name"
  by (auto simp: store_read_def split: sum.splits)

lemma store_write_ok:
  "operationFileName (po_id r) = Inr name \<Longrightarrow> \<exists>d'. store_write cfg r d = (Inr (stamp cfg r), d')"
  by (simp add: store_write_def Let_def ok_def)

section \<open>The interface\<close>

text \<open>
  What a client of the store may rely on: a commit lands exactly when the record still has the
  revision it was computed from, keeps what was recorded as owned, and touches no other operation.
\<close>

locale record_store =
  fixes look :: "'d \<Rightarrow> string \<Rightarrow> persisted_operation option result"
    and cas :: "string \<Rightarrow> nat \<Rightarrow> persisted_operation \<Rightarrow> 'd \<Rightarrow> bool result \<times> 'd"
    and own :: "string \<Rightarrow> string list \<Rightarrow> 'd \<Rightarrow> unit result \<times> 'd"
    and seal :: "persisted_operation \<Rightarrow> persisted_operation"
    and fits :: "persisted_operation \<Rightarrow> bool"
  assumes cas_commits: "look d ident = Inr (Some current) \<Longrightarrow> po_revision current = revn \<Longrightarrow>
      po_id nxt = ident \<Longrightarrow> fits nxt \<Longrightarrow>
      \<exists>d'. cas ident revn nxt d = (Inr True, d') \<and> look d' ident = Inr (Some (seal (merge_owned current nxt)))"
    and cas_moved: "look d ident = Inr (Some current) \<Longrightarrow> po_revision current \<noteq> revn \<Longrightarrow>
      cas ident revn nxt d = (Inr False, d)"
    and cas_absent: "look d ident = Inr None \<Longrightarrow> cas ident revn nxt d = (Inr False, d)"
    and cas_foreign: "look d ident = Inr (Some current) \<Longrightarrow> po_revision current = revn \<Longrightarrow>
      po_id nxt \<noteq> ident \<Longrightarrow> \<exists>e. cas ident revn nxt d = (Inl e, d)"
    and cas_unreadable: "look d ident = Inl e \<Longrightarrow> cas ident revn nxt d = (Inl e, d)"
    and cas_others: "other \<noteq> ident \<Longrightarrow> look (snd (cas ident revn nxt d)) other = look d other"
    and own_records: "look d ident = Inr (Some current) \<Longrightarrow> po_id current = ident \<Longrightarrow> fits current \<Longrightarrow>
      distinct (po_owned_resource_ids current) \<Longrightarrow> \<exists>d' after. own ident ids d = (Inr (), d') \<and> look d' ident = Inr (Some after) \<and>
        po_machine after = po_machine current \<and>
        set (po_owned_resource_ids after) = set (po_owned_resource_ids current) \<union> set ids"
    and seal_keeps: "po_machine (seal r) = po_machine r"
      "po_owned_resource_ids (seal r) = po_owned_resource_ids r"
begin

lemma cas_true_iff:
  assumes "fits nxt" "po_id nxt = ident"
  shows "fst (cas ident revn nxt d) = Inr True \<longleftrightarrow>
    (\<exists>current. look d ident = Inr (Some current) \<and> po_revision current = revn)"
proof (cases "look d ident")
  case (Inr found)
  then show ?thesis
  proof (cases found)
    case (Some current)
    then show ?thesis
      using Inr assms cas_commits [of d ident current revn nxt] cas_moved [of d ident current revn nxt]
      by (cases "po_revision current = revn") auto
  qed (simp add: cas_absent)
qed (simp add: cas_unreadable)

text \<open>Of two writers that computed from the same revision, the second to commit is told so.\<close>

lemma cas_race:
  assumes "cas ident revn first d = (Inr True, d')" "fits first" "po_id first = ident"
    and "po_revision first \<noteq> revn"
  shows "cas ident revn second d' = (Inr False, d')"
proof -
  obtain current where "look d ident = Inr (Some current)" "po_revision current = revn"
    using cas_true_iff [OF assms(2,3), of revn d] assms(1) by auto
  then have "look d' ident = Inr (Some (seal (merge_owned current first)))"
    using cas_commits [of d ident current revn first] assms by auto
  then show ?thesis by (rule cas_moved) (simp add: seal_keeps assms(4))
qed

lemma cas_keeps_owned:
  assumes "look d ident = Inr (Some current)" "cas ident revn nxt d = (Inr b, d')" "fits nxt"
  shows "\<exists>after. look d' ident = Inr (Some after) \<and>
    set (po_owned_resource_ids current) \<subseteq> set (po_owned_resource_ids after)"
proof (cases "po_revision current = revn")
  case True
  then have "po_id nxt = ident" using cas_foreign [OF assms(1) True] assms(2) by fastforce
  then show ?thesis using cas_commits [OF assms(1) True _ assms(3)] assms(2) by (auto simp: seal_keeps)
next
  case False
  then show ?thesis using cas_moved [OF assms(1) False] assms by auto
qed

end

lemma compareAndSwap_run_unfold:
  "store_read d ident = Inr (Some current) \<Longrightarrow> po_revision current = revn \<Longrightarrow> po_id nxt = ident \<Longrightarrow>
   storable nxt \<Longrightarrow>
   \<exists>d'. compareAndSwap_run cfg ident revn nxt d = (Inr True, d') \<and>
     store_read d' ident = Inr (Some (stamp cfg (merge_owned current nxt)))"
proof -
  assume a: "store_read d ident = Inr (Some current)" "po_revision current = revn" "po_id nxt = ident" "storable nxt"
  obtain name where "operationFileName ident = Inr name" using read_encodes a(1) by blast
  then obtain d' where w: "store_write cfg (merge_owned current nxt) d = (Inr (stamp cfg (merge_owned current nxt)), d')"
    using store_write_ok [of "merge_owned current nxt" name cfg d] a(3) by auto
  then have "store_read d' ident = Inr (Some (stamp cfg (merge_owned current nxt)))"
    using read_after_write [OF w] a(3,4) by simp
  with w a show ?thesis by (simp add: compareAndSwap_run_def)
qed

interpretation op_store: record_store store_read "compareAndSwap_run cfg" "recordOwned_run cfg" "stamp cfg" storable
  for cfg
proof
  fix d ident current revn nxt
  assume "store_read d ident = Inr (Some current)" "po_revision current = revn" "po_id nxt = ident" "storable nxt"
  then show "\<exists>d'. compareAndSwap_run cfg ident revn nxt d = (Inr True, d') \<and>
      store_read d' ident = Inr (Some (stamp cfg (merge_owned current nxt)))"
    by (rule compareAndSwap_run_unfold)
next
  fix d ident current ids
  assume a: "store_read d ident = Inr (Some current)" "po_id current = ident" "storable current"
    "distinct (po_owned_resource_ids current)"
  let ?owned = "js_unique (po_owned_resource_ids current @ ids)"
  let ?next = "current\<lparr>po_owned_resource_ids := ?owned\<rparr>"
  obtain name where "operationFileName ident = Inr name" using read_encodes a(1) by blast
  then obtain d' where w: "store_write cfg ?next d = (Inr (stamp cfg ?next), d')"
    using store_write_ok [of ?next name cfg d] a(2) by auto
  have "store_read d' ident = Inr (Some (stamp cfg ?next))"
    using read_after_write [OF w] a(2,3) by (simp add: storable_def)
  then show "\<exists>d' after. recordOwned_run cfg ident ids d = (Inr (), d') \<and> store_read d' ident = Inr (Some after) \<and>
        po_machine after = po_machine current \<and>
        set (po_owned_resource_ids after) = set (po_owned_resource_ids current) \<union> set ids"
  proof (cases "length ?owned = length (po_owned_resource_ids current)")
    case True
    obtain extra where extra: "?owned = po_owned_resource_ids current @ extra"
      using js_unique_append_distinct [OF a(4)] by blast
    then have "?owned = po_owned_resource_ids current" using True by simp
    then have "set ids \<subseteq> set (po_owned_resource_ids current)"
      using set_js_unique [of "po_owned_resource_ids current @ ids"] by auto
    then show ?thesis using a(1) True by (auto simp: recordOwned_run_def)
  next
    case False
    then show ?thesis using a(1) w \<open>store_read d' ident = _\<close> by (simp add: recordOwned_run_def)
  qed
next
  fix d and ident other :: string and revn nxt assume "other \<noteq> ident"
  then show "store_read (snd (compareAndSwap_run cfg ident revn nxt d)) other = store_read d other"
    using read_other_after_write [of cfg "merge_owned _ nxt" d]
    by (auto simp: compareAndSwap_run_def split: sum.split option.split prod.split)
qed (auto simp: compareAndSwap_run_def)

end
