(* ===== verification/Recovery.thy ===== *)
theory Recovery
  imports Store_Files
begin

text \<open>
  Picking an operation back up after the core that ran it went away
  (\<open>src/src/runtime/environment/recovery.ts\<close>).  The questions recovery asks about the machine, the
  \<open>EffectInventory\<close>, are injected and may throw; \<open>newEffectId\<close> is the sequence of ids it answers.
\<close>

section \<open>Model\<close>

datatype effect_finding =
    Finding_completed "string list"
  | Finding_absent
  | Finding_foreign string

record effect_inventory =
  iv_inspect :: "effect_intent \<Rightarrow> persisted_operation \<Rightarrow> effect_finding result"
  iv_needsRelogin :: "persisted_operation \<Rightarrow> bool result"
  iv_needsReboot :: "persisted_operation \<Rightarrow> bool result"
  iv_verifyCompletedSteps :: "persisted_operation \<Rightarrow> string list result"
  iv_currentPlanDigest :: "persisted_operation \<Rightarrow> sha256 option result"

record recovery_deps =
  rd_instanceId :: string
  rd_newEffectId :: "nat \<Rightarrow> string"
  rd_inventory :: effect_inventory

datatype recovery_outcome =
    Unchanged persisted_operation
  | Reconciled persisted_operation "effect_intent list"
  | Blocked persisted_operation error_body

text \<open>The four answers a reconciliation is made of; a question that throws ends it.\<close>

definition ask_inventory ::
  "effect_inventory \<Rightarrow> string \<Rightarrow> persisted_operation \<Rightarrow> reconciled_facts result" where
  "ask_inventory inventory instanceId r =
     (case iv_verifyCompletedSteps inventory r of Inl e \<Rightarrow> Inl e | Inr steps \<Rightarrow>
      case iv_currentPlanDigest inventory r of Inl e \<Rightarrow> Inl e | Inr digest \<Rightarrow>
      case iv_needsRelogin inventory r of Inl e \<Rightarrow> Inl e | Inr relogin \<Rightarrow>
      case iv_needsReboot inventory r of Inl e \<Rightarrow> Inl e | Inr reboot \<Rightarrow>
        ok \<lparr>rf_instance_id = instanceId, rf_verified_completed_step_ids = steps,
            rf_current_plan_digest = digest, rf_needs_relogin = relogin, rf_needs_reboot = reboot\<rparr>)"

definition restarted ::
  "operation_machine \<Rightarrow> string \<Rightarrow> string \<Rightarrow> operation_machine \<times> effect_intent" where
  "restarted machine instanceId effectId =
     (let operation = m_operation machine; revision = op_revision operation + 1;
          intent = \<lparr>ef_effect_id = effectId, ef_operation_id = op_operation_id operation,
                    ef_expected_revision = revision, ef_kind = Reconcile,
                    ef_plan_digest = op_plan_digest operation\<rparr>
      in (machine\<lparr>m_operation := operation\<lparr>op_instance_id := instanceId, op_revision := revision,
                     op_phase := Checking, op_pending_host_step := None, op_progress := None,
                     op_error := None\<rparr>,
                  m_pending_effect := Some intent, m_indivisible_host_step_running := False\<rparr>,
          intent))"

definition foreign_error :: "string \<Rightarrow> error_body" where
  "foreign_error detail =
     \<lparr>err_code = ''MANAGED_IDENTITY_MISMATCH'',
      err_message = ''Something this setup would have created is already there and is not ours.'',
      err_details = Some detail\<rparr>"

definition stop_on_foreign :: "recovery_deps \<Rightarrow> persisted_operation \<Rightarrow> string \<Rightarrow> recovery_outcome" where
  "stop_on_foreign deps r detail =
     (let stopped = fst (restarted (po_machine r) (rd_instanceId deps) (rd_newEffectId deps 0));
          error = foreign_error detail
      in Blocked (r\<lparr>po_machine := stopped\<lparr>m_operation := (m_operation stopped)\<lparr>op_phase := Failed, op_error := Some error\<rparr>,
                                          m_pending_effect := None,
                                          m_indivisible_host_step_running := False\<rparr>\<rparr>) error)"

definition reconcile_with ::
  "recovery_deps \<Rightarrow> persisted_operation \<Rightarrow> string list \<Rightarrow> recovery_outcome result" where
  "reconcile_with deps r adopted =
     (case ask_inventory (rd_inventory deps) (rd_instanceId deps) r of
        Inl e \<Rightarrow> Inl e
      | Inr facts \<Rightarrow>
          let (machine, intent) = restarted (po_machine r) (rd_instanceId deps) (rd_newEffectId deps 0) in
          (case reduceOperation machine
                  (Ev_reconciled \<lparr>ei_effect_id = ef_effect_id intent,
                                  ei_expected_revision = op_revision (m_operation machine)\<rparr> facts)
                  \<lparr>next_effect_id = rd_newEffectId deps 1\<rparr> of
             Inl e \<Rightarrow> ok (Blocked (r\<lparr>po_owned_resource_ids := adopted\<rparr>) e)
           | Inr (state, effects) \<Rightarrow>
               ok (Reconciled (r\<lparr>po_machine := state, po_owned_resource_ids := adopted\<rparr>) effects)))"

definition recoverOperation :: "persisted_operation \<Rightarrow> recovery_deps \<Rightarrow> recovery_outcome result" where
  "recoverOperation r deps =
     (if finished r then ok (Unchanged r)
      else case m_pending_effect (po_machine r) of
        None \<Rightarrow> reconcile_with deps r (po_owned_resource_ids r)
      | Some pending \<Rightarrow>
          (case iv_inspect (rd_inventory deps) pending r of
             Inl e \<Rightarrow> Inl e
           | Inr (Finding_foreign detail) \<Rightarrow> ok (stop_on_foreign deps r detail)
           | Inr (Finding_completed ids) \<Rightarrow>
               reconcile_with deps r (js_unique (po_owned_resource_ids r @ ids))
           | Inr Finding_absent \<Rightarrow> reconcile_with deps r (po_owned_resource_ids r)))"

section \<open>Restarting\<close>

lemma inv_restarted: "machine_inv m \<Longrightarrow> machine_inv (fst (restarted m i e))"
  by (auto simp: machine_inv_def inv_defs restarted_def Let_def)

text \<open>What a reconciliation leaves: the operation looks at the machine again, waits for a sign-in or a
  reboot, or goes on cancelling; it never resumes work and never holds a privileged step.\<close>

definition after_recovery :: "operation_machine \<Rightarrow> operation_machine \<Rightarrow> bool" where
  "after_recovery m m' \<longleftrightarrow>
     op_phase (m_operation m') \<in> {Checking, Relogin_required, Reboot_required, Cancelling} \<and>
     (op_phase (m_operation m') = Cancelling \<longleftrightarrow> op_cancellation_requested (m_operation m)) \<and>
     op_pending_host_step (m_operation m') = None \<and>
     op_revision (m_operation m') = op_revision (m_operation m) + 2 \<and>
     op_operation_id (m_operation m') = op_operation_id (m_operation m) \<and>
     op_approved_plan_digest (m_operation m') = op_approved_plan_digest (m_operation m) \<and>
     m_checkpoint m' = m_checkpoint m \<and> m_consented m' = m_consented m"

lemma reconcile_accepted:
  assumes "(machine, intent) = restarted m i e0"
  shows "\<exists>m' effects. reduceOperation machine
      (Ev_reconciled \<lparr>ei_effect_id = ef_effect_id intent, ei_expected_revision = op_revision (m_operation machine)\<rparr> facts)
      input = Inr (m', effects) \<and> after_recovery m m'"
  using assms
  by (auto simp: restarted_def Let_def reduceOperation_def reduce_guard_def reduce_reconciled_def
      advance_def after_recovery_def probedDigest_def ok_def)

lemma reconcile_with_outcome:
  assumes "reconcile_with deps r adopted = Inr out" "machine_inv (po_machine r)"
  shows "\<exists>r' effects. out = Reconciled r' effects \<and> machine_inv (po_machine r') \<and>
    after_recovery (po_machine r) (po_machine r') \<and> po_owned_resource_ids r' = adopted"
proof -
  obtain facts where facts: "ask_inventory (rd_inventory deps) (rd_instanceId deps) r = Inr facts"
    using assms(1) by (auto simp: reconcile_with_def split: sum.splits)
  obtain machine intent where start: "(machine, intent) = restarted (po_machine r) (rd_instanceId deps) (rd_newEffectId deps 0)"
    by (metis surj_pair)
  from reconcile_accepted [OF start, of facts "\<lparr>next_effect_id = rd_newEffectId deps 1\<rparr>"]
  obtain m' effects where red: "reduceOperation machine
      (Ev_reconciled \<lparr>ei_effect_id = ef_effect_id intent, ei_expected_revision = op_revision (m_operation machine)\<rparr> facts)
      \<lparr>next_effect_id = rd_newEffectId deps 1\<rparr> = Inr (m', effects)" "after_recovery (po_machine r) m'" by blast
  have "machine_inv machine" using inv_restarted [OF assms(2)] start by (metis fst_conv)
  then have "machine_inv m'" using machine_inv_reduce red(1) by blast
  then show ?thesis
    using assms(1) red facts start [symmetric] by (auto simp: reconcile_with_def ok_def)
qed

lemma inv_stop_on_foreign:
  assumes "machine_inv (po_machine r)" "stop_on_foreign deps r detail = Blocked r' e"
  shows "machine_inv (po_machine r') \<and> po_phase r' = Failed \<and> m_pending_effect (po_machine r') = None \<and>
   po_id r' = po_id r \<and> po_revision r' = po_revision r + 1 \<and>
   po_owned_resource_ids r' = po_owned_resource_ids r \<and> e = foreign_error detail"
proof -
  define m where "m = po_machine r"
  define m' where "m' = m\<lparr>m_operation := (m_operation m)\<lparr>op_instance_id := rd_instanceId deps,
      op_revision := op_revision (m_operation m) + 1, op_pending_host_step := None,
      op_progress := None, op_phase := Failed, op_error := Some (foreign_error detail)\<rparr>, m_pending_effect := None,
      m_indivisible_host_step_running := False\<rparr>"
  have "r' = r\<lparr>po_machine := m'\<rparr>" "e = foreign_error detail"
    using assms(2) by (auto simp: stop_on_foreign_def restarted_def Let_def m_def m'_def)
  moreover have "machine_inv m'"
    using assms(1) unfolding m_def [symmetric] by (simp add: m'_def machine_inv_def inv_defs)
  ultimately show ?thesis by (simp add: m'_def m_def)
qed

section \<open>Properties\<close>

text \<open>What recovery was shown of the work in flight.\<close>

definition found :: "recovery_deps \<Rightarrow> persisted_operation \<Rightarrow> effect_finding result" where
  "found deps r = (case m_pending_effect (po_machine r) of
     None \<Rightarrow> ok Finding_absent | Some pending \<Rightarrow> iv_inspect (rd_inventory deps) pending r)"

lemma recover_unfinished:
  "\<not> finished r \<Longrightarrow> recoverOperation r deps =
     (case found deps r of
        Inl e \<Rightarrow> Inl e
      | Inr f \<Rightarrow>
          (case f of
             Finding_foreign detail \<Rightarrow> ok (stop_on_foreign deps r detail)
           | Finding_completed ids \<Rightarrow> reconcile_with deps r (js_unique (po_owned_resource_ids r @ ids))
           | Finding_absent \<Rightarrow> reconcile_with deps r (po_owned_resource_ids r)))"
  by (auto simp: recoverOperation_def found_def ok_def split: option.split)

lemma recovery_outcome:
  assumes "machine_inv (po_machine r)" "\<not> finished r" "recoverOperation r deps = Inr out"
  shows "case found deps r of
      Inr (Finding_foreign detail) \<Rightarrow>
        \<exists>r'. out = Blocked r' (foreign_error detail) \<and> machine_inv (po_machine r') \<and> po_phase r' = Failed \<and>
          m_pending_effect (po_machine r') = None \<and> po_owned_resource_ids r' = po_owned_resource_ids r
    | Inr f \<Rightarrow>
        \<exists>r' effects. out = Reconciled r' effects \<and> machine_inv (po_machine r') \<and>
          after_recovery (po_machine r) (po_machine r') \<and>
          po_owned_resource_ids r' = (case f of Finding_completed ids \<Rightarrow> js_unique (po_owned_resource_ids r @ ids)
                                      | _ \<Rightarrow> po_owned_resource_ids r)
    | Inl e \<Rightarrow> False"
proof -
  obtain f where f: "found deps r = Inr f"
    using assms(2,3) by (cases "found deps r") (auto simp: recover_unfinished)
  show ?thesis
  proof (cases f)
    case (Finding_completed ids)
    then have "reconcile_with deps r (js_unique (po_owned_resource_ids r @ ids)) = Inr out"
      using assms(2,3) f by (simp add: recover_unfinished)
    from reconcile_with_outcome [OF this assms(1)] show ?thesis by (simp add: f Finding_completed)
  next
    case Finding_absent
    then have "reconcile_with deps r (po_owned_resource_ids r) = Inr out"
      using assms(2,3) f by (simp add: recover_unfinished)
    from reconcile_with_outcome [OF this assms(1)] show ?thesis by (simp add: f Finding_absent)
  next
    case (Finding_foreign detail)
    then have "out = stop_on_foreign deps r detail"
      using assms(2,3) f by (simp add: recover_unfinished ok_def)
    moreover obtain r' e where "stop_on_foreign deps r detail = Blocked r' e"
      by (auto simp: stop_on_foreign_def Let_def)
    ultimately show ?thesis using inv_stop_on_foreign [OF assms(1)] by (simp add: f Finding_foreign)
  qed
qed

lemma recovered_inv:
  assumes "machine_inv (po_machine r)" "\<not> finished r" "recoverOperation r deps = Inr out"
  shows "case out of Unchanged _ \<Rightarrow> True | Reconciled r' _ \<Rightarrow> machine_inv (po_machine r')
    | Blocked r' _ \<Rightarrow> machine_inv (po_machine r')"
  using recovery_outcome [OF assms] by (auto split: sum.splits effect_finding.splits)

text \<open>
  C14.  Recovery trusts only what the machine shows: an unfinished operation is stopped as failed, owning
  nothing new and with nothing pending, when what it finds is not its own; otherwise it goes back to
  looking at the machine (or keeps waiting for a sign-in or reboot, or goes on cancelling), two
  revisions on, without its privileged step, with its consent and checkpoint kept, and adopting
  exactly the resources that were verified.  Either way the machine's invariant holds.
\<close>

theorem recovery_adopts_only_what_is_shown:
  assumes "machine_inv (po_machine r)" "\<not> finished r" "recoverOperation r deps = Inr out"
  shows "case found deps r of
      Inr (Finding_foreign detail) \<Rightarrow>
        \<exists>r'. out = Blocked r' (foreign_error detail) \<and> machine_inv (po_machine r') \<and> po_phase r' = Failed \<and>
          m_pending_effect (po_machine r') = None \<and> po_owned_resource_ids r' = po_owned_resource_ids r
    | Inr f \<Rightarrow>
        \<exists>r' effects. out = Reconciled r' effects \<and> machine_inv (po_machine r') \<and>
          after_recovery (po_machine r) (po_machine r') \<and>
          po_owned_resource_ids r' = (case f of Finding_completed ids \<Rightarrow> js_unique (po_owned_resource_ids r @ ids)
                                      | _ \<Rightarrow> po_owned_resource_ids r)
    | Inl e \<Rightarrow> False"
  by (rule recovery_outcome [OF assms])

end
