(* ===== verification/Process_Identity.thy ===== *)
theory Process_Identity
  imports Prelude
begin

text \<open>
  Whether the process that wrote a file is still the process behind its PID
  (\<open>src/src/lock/process-identity.ts\<close>).  The probes (procfs, \<open>ps\<close>, PowerShell, signal 0) are the injected
  \<open>IdentityDeps\<close>: a probe that throws answers \<^const>\<open>None\<close>.  A PID is an \<^typ>\<open>int\<close>; the modelled callers hold
  integers, so \<open>Number.isInteger\<close> is true throughout.
\<close>

section \<open>Text the probes print\<close>

text \<open>\<open>s.split(/\s+/)\<close>.\<close>

function split_ws :: "string \<Rightarrow> string list" where
  "split_ws s =
     (let rest = dropWhile (\<lambda>c. \<not> is_space c) s; word = takeWhile (\<lambda>c. \<not> is_space c) s
      in if rest = [] then [word] else word # split_ws (dropWhile is_space rest))"
  by pat_completeness auto
termination
proof (relation "measure length")
  fix s rest word :: string
  assume rest: "rest = dropWhile (\<lambda>c. \<not> is_space c) s" and ne: "rest \<noteq> []"
  obtain c cs where c: "rest = c # cs" using ne by (cases rest) auto
  have "is_space (hd rest)" using hd_dropWhile [of "\<lambda>c. \<not> is_space c" s] ne rest by simp
  then have "length (dropWhile is_space rest) < length rest"
    by (simp add: c le_imp_less_Suc length_dropWhile_le)
  also have "\<dots> \<le> length s" by (simp add: rest length_dropWhile_le)
  finally show "(dropWhile is_space rest, s) \<in> measure length" by simp
qed simp

declare split_ws.simps [simp del]

text \<open>\<open>s.replace(/\s+/g, ' ')\<close>.\<close>

definition collapse_ws :: "string \<Rightarrow> string" where
  "collapse_ws s = js_join '' '' (split_ws s)"

text \<open>\<open>s.slice(s.lastIndexOf(c) + 1)\<close>.\<close>

definition after_last :: "char \<Rightarrow> string \<Rightarrow> string" where
  "after_last c s = rev (takeWhile (\<lambda>d. d \<noteq> c) (rev s))"

text \<open>\<open>/^\d+$/.test(s)\<close>.\<close>

definition all_digits :: "string \<Rightarrow> bool" where
  "all_digits s \<longleftrightarrow> s \<noteq> [] \<and> list_all is_digit s"

section \<open>Probes\<close>

datatype identity_verdict = Match | Mismatch | Dead | Unknown

datatype platform = Linux | Darwin | Win32 | Other_platform

text \<open>What \<open>process.kill(pid, 0)\<close> did.\<close>

datatype signal_answer = Delivered | Refused_EPERM | Refused_other

record identity_deps =
  id_platform :: platform
  id_readText :: "string \<Rightarrow> string option"
  id_run :: "string \<Rightarrow> string list \<Rightarrow> (string \<times> string) list \<Rightarrow> string option"
  id_kill :: "int \<Rightarrow> signal_answer"

definition isProcessAlive :: "identity_deps \<Rightarrow> int \<Rightarrow> bool" where
  "isProcessAlive deps pid \<longleftrightarrow>
     \<not> pid \<le> 0 \<and> (id_kill deps pid = Delivered \<or> id_kill deps pid = Refused_EPERM)"

definition PINNED_PS_ENV :: "(string \<times> string) list" where
  "PINNED_PS_ENV = [(''LC_ALL'', ''C''), (''TZ'', ''UTC'')]"

definition linux_start_id :: "string \<Rightarrow> string option" where
  "linux_start_id stat =
     (let tail = split_ws (js_trim (after_last (CHR '')'') stat)) in
      if 19 < length tail \<and> all_digits (tail ! 19) then Some (''linux:'' @ tail ! 19) else None)"

definition ps_start_id :: "string \<Rightarrow> string \<Rightarrow> string option" where
  "ps_start_id tag out =
     (let value = collapse_ws (js_trim out) in if value \<noteq> [] then Some (tag @ value) else None)"

definition ticks_start_id :: "string \<Rightarrow> string \<Rightarrow> string option" where
  "ticks_start_id tag out =
     (let value = js_trim out in if all_digits value then Some (tag @ value) else None)"

definition powershell_args :: "string \<Rightarrow> string list" where
  "powershell_args command = [''-NoProfile'', ''-NonInteractive'', ''-Command'', command]"

definition processStartId :: "int \<Rightarrow> identity_deps \<Rightarrow> string option" where
  "processStartId pid deps =
     (if pid \<le> 0 then None
      else case id_platform deps of
        Linux \<Rightarrow> Option.bind (id_readText deps (''/proc/'' @ show_int pid @ ''/stat'')) linux_start_id
      | Darwin \<Rightarrow>
          Option.bind (id_run deps ''/bin/ps'' [''-o'', ''lstart='', ''-p'', show_int pid] PINNED_PS_ENV)
            (ps_start_id ''darwin-utc:'')
      | Win32 \<Rightarrow>
          Option.bind
            (id_run deps ''powershell.exe''
               (powershell_args (''(Get-Process -Id '' @ show_int pid
                  @ '' -ErrorAction Stop).StartTime.ToUniversalTime().Ticks'')) [])
            (ticks_start_id ''win32-utc:'')
      | Other_platform \<Rightarrow> None)"

definition legacyStartId :: "int \<Rightarrow> identity_deps \<Rightarrow> string option" where
  "legacyStartId pid deps =
     (case id_platform deps of
        Darwin \<Rightarrow>
          Option.bind (id_run deps ''/bin/ps'' [''-o'', ''lstart='', ''-p'', show_int pid] [(''LC_ALL'', ''C'')])
            (ps_start_id ''darwin:'')
      | Win32 \<Rightarrow>
          Option.bind
            (id_run deps ''powershell.exe''
               (powershell_args (''(Get-Process -Id '' @ show_int pid
                  @ '' -ErrorAction Stop).StartTime.Ticks'')) [])
            (ticks_start_id ''win32:'')
      | _ \<Rightarrow> None)"

section \<open>The verdict\<close>

text \<open>\<open>/^(darwin|win32):/.test(expected)\<close>: an identity written before they were pinned.\<close>

definition legacy_identity :: "string \<Rightarrow> bool" where
  "legacy_identity expected \<longleftrightarrow> js_prefix ''darwin:'' expected \<or> js_prefix ''win32:'' expected"

definition verifyProcessIdentity :: "int \<Rightarrow> string option \<Rightarrow> identity_deps \<Rightarrow> identity_verdict" where
  "verifyProcessIdentity pid expected deps =
     (if \<not> isProcessAlive deps pid then Dead
      else case expected of
        None \<Rightarrow> Unknown
      | Some e \<Rightarrow>
          if e = [] then Unknown
          else if legacy_identity e then (if legacyStartId pid deps = Some e then Match else Unknown)
          else (case processStartId pid deps of
                  None \<Rightarrow> Unknown
                | Some actual \<Rightarrow> if actual = e then Match else Mismatch))"

definition identityPermitsTakeover :: "identity_verdict \<Rightarrow> bool" where
  "identityPermitsTakeover verdict \<longleftrightarrow> verdict = Dead \<or> verdict = Mismatch"

section \<open>Splitting on blanks\<close>

lemma split_ws_word:
  "\<forall>c \<in> set w. \<not> is_space c \<Longrightarrow> split_ws w = [w]"
  by (simp add: split_ws.simps dropWhile_eq_Nil_conv takeWhile_eq_all_conv Let_def)

lemma split_ws_cons:
  assumes "\<forall>c \<in> set w. \<not> is_space c" "v \<noteq> []" "\<not> is_space (hd v)"
  shows "split_ws (w @ '' '' @ v) = w # split_ws v"
proof -
  have sp: "is_space CHR '' ''" by (simp add: is_space_def)
  have "dropWhile (\<lambda>c. \<not> is_space c) (w @ '' '' @ v) = '' '' @ v"
    using assms(1) sp by (subst dropWhile_append2) auto
  moreover have "takeWhile (\<lambda>c. \<not> is_space c) (w @ '' '' @ v) = w"
    using assms(1) sp by (subst takeWhile_append2) auto
  moreover have "dropWhile is_space ('' '' @ v) = v"
    using assms(2,3) sp by (cases v) auto
  ultimately show ?thesis by (subst split_ws.simps) (simp add: Let_def)
qed

lemma js_join_hd: "ws \<noteq> [] \<Longrightarrow> hd ws \<noteq> [] \<Longrightarrow> js_join sep ws \<noteq> [] \<and> hd (js_join sep ws) = hd (hd ws)"
  by (induction sep ws rule: js_join.induct) auto

lemma js_join_last: "ws \<noteq> [] \<Longrightarrow> last ws \<noteq> [] \<Longrightarrow> last (js_join sep ws) = last (last ws) \<and> js_join sep ws \<noteq> []"
  by (induction sep ws rule: js_join.induct) auto

definition ws_words :: "string list \<Rightarrow> bool" where
  "ws_words ws \<longleftrightarrow> list_all (\<lambda>w. w \<noteq> [] \<and> list_all (\<lambda>c. \<not> is_space c) w) ws"

lemma split_ws_join:
  "ws_words ws \<Longrightarrow> ws \<noteq> [] \<Longrightarrow> split_ws (js_join '' '' ws) = ws"
proof (induction "'' ''" ws rule: js_join.induct)
  case (2 x)
  then show ?case by (simp add: ws_words_def split_ws_word list_all_iff)
next
  case (3 x y ys)
  let ?v = "js_join '' '' (y # ys)"
  have v: "?v \<noteq> [] \<and> hd ?v = hd y" using 3 js_join_hd [of "y # ys"] by (simp add: ws_words_def)
  moreover have "\<not> is_space (hd y)" using 3 by (auto simp: ws_words_def list_all_iff)
  ultimately have "split_ws (x @ '' '' @ ?v) = x # split_ws ?v"
    using 3 by (intro split_ws_cons) (auto simp: ws_words_def list_all_iff)
  moreover have "split_ws ?v = y # ys" using 3 by (simp add: ws_words_def)
  ultimately show ?case by simp
qed simp

lemma js_trim_words:
  assumes "ws_words ws" "ws \<noteq> []"
  shows "js_trim ('' '' @ js_join '' '' ws) = js_join '' '' ws"
proof -
  let ?v = "js_join '' '' ws"
  have sp: "is_space CHR '' ''" by (simp add: is_space_def)
  have hd: "?v \<noteq> []" "\<not> is_space (hd ?v)"
    using assms js_join_hd [of ws] by (cases ws; force simp: ws_words_def list_all_iff)+
  have "last ws \<in> set ws" using assms(2) by simp
  then have "last ws \<noteq> []" "\<not> is_space (last (last ws))"
    using assms(1) by (auto simp: ws_words_def list_all_iff)
  then have last: "\<not> is_space (last ?v)" using js_join_last [OF assms(2)] by simp
  have "dropWhile is_space ('' '' @ ?v) = ?v" using hd sp by (cases ?v) auto
  moreover have "dropWhile is_space (rev ?v) = rev ?v"
    using hd(1) last by (cases "rev ?v") (auto simp: last_rev [symmetric] hd_rev)
  ultimately show ?thesis by (simp add: js_trim_def)
qed

lemma after_last_append: "c \<notin> set v \<Longrightarrow> after_last c (u @ [c] @ v) = v"
proof -
  assume "c \<notin> set v"
  then have "takeWhile (\<lambda>d. d \<noteq> c) (rev v @ c # rev u) = rev v"
    by (subst takeWhile_append2) auto
  then show ?thesis by (simp add: after_last_def)
qed

lemma set_js_join: "c \<in> set (js_join sep ws) \<Longrightarrow> c \<in> set sep \<or> (\<exists>w \<in> set ws. c \<in> set w)"
  by (induction sep ws rule: js_join.induct) auto

section \<open>Properties\<close>

text \<open>
  The start time of a Linux process is read from the right field whatever the process is called: a
  name with blanks and closing parentheses of its own does not move the fields of
  \<open>/proc/<pid>/stat\<close>.
\<close>

theorem linux_start_id_ignores_name:
  assumes "ws_words xs" "19 < length xs" "all_digits (xs ! 19)"
    and "\<forall>f \<in> set xs. CHR '')'' \<notin> set f"
  shows "linux_start_id (pid_text @ '' ('' @ name @ '') '' @ js_join '' '' xs) =
    Some (''linux:'' @ xs ! 19)"
proof -
  let ?v = "'' '' @ js_join '' '' xs"
  have ne: "xs \<noteq> []" using assms(2) by auto
  have "CHR '')'' \<notin> set ?v" using assms(4) set_js_join [of "CHR '')''" "'' ''" xs] by auto
  then have "after_last (CHR '')'') ((pid_text @ '' ('' @ name) @ [CHR '')''] @ ?v) = ?v"
    by (rule after_last_append)
  then have "after_last (CHR '')'') (pid_text @ '' ('' @ name @ '') '' @ js_join '' '' xs) = ?v"
    by simp
  then show ?thesis
    using assms ne by (simp add: linux_start_id_def js_trim_words split_ws_join del: append_Cons)
qed

theorem linux_start_id_ignores_name_witness:
  "linux_start_id (''41'' @ '' ('' @ ''a) S 1 (b'' @ '') '' @ js_join '' '' (replicate 18 ''0'' @ [''S'', ''777'', ''9''])) =
    Some (''linux:'' @ (replicate 18 ''0'' @ [''S'', ''777'', ''9'']) ! 19)"
  by (rule linux_start_id_ignores_name) (code_simp, code_simp, code_simp, code_simp)

text \<open>
  Only proof frees what a process holds: the verdict permits a takeover exactly when the process is
  gone, or when a pinned identity was recorded, the platform could tell the identity of the process
  now behind the PID, and the two differ.  A missing or unpinned record and a probe that fails permit
  nothing.
\<close>

theorem takeover_needs_proof:
  "identityPermitsTakeover (verifyProcessIdentity pid expected deps) \<longleftrightarrow>
     (if isProcessAlive deps pid
      then \<exists>e actual. expected = Some e \<and> e \<noteq> [] \<and> \<not> legacy_identity e \<and>
             processStartId pid deps = Some actual \<and> actual \<noteq> e
      else True)"
  by (auto simp: identityPermitsTakeover_def verifyProcessIdentity_def split: option.split)

end
