(* ===== verification/Service.thy ===== *)
theory Service
  imports Recovery Process_Identity
begin

text \<open>
  The environment service (\<open>src/src/runtime/environment/service.ts\<close>): it holds no decision of its own, applies
  events to stored records through the store's compare-and-swap, and turns the effect a record is
  waiting on into one piece of external work.

  A service method is a function from the service's state to its result and the state it leaves.  The
  provisioner, the process probes and the ids drawn are parameters; every store call names the lock
  schedule it meets, through which the other cores change the shared disk between this core's read and
  its commit.  An effect in flight is a task in \<open>sv_running\<close>: \<open>dispatch\<close> starts it, \<open>perform\<close> is what
  happens when its external work has answered.
\<close>

section \<open>Seams\<close>

record host_step_verdict =
  hv_prerequisites_met :: bool
  hv_needs_relogin :: bool
  hv_error :: "error_body option"
  hv_address_pools_configured :: "pools_configured option"

record provisioner_probe =
  pp_plan :: requirement_plan
  pp_host_step :: "managed_host_step option"
  pp_image_present :: "bool option"

text \<open>
  What a host recipe answers.  A preparation records resources as owned before it creates them: its
  answer is the list of those calls, in order, and how it ended.
\<close>

record environment_provisioner =
  pv_probe :: "persisted_operation \<Rightarrow> provisioner_probe result"
  pv_verifyHostStep :: "persisted_operation \<Rightarrow> host_step_verdict result"
  pv_addressPoolsConfigured :: "pools_configured result option"
  pv_prepare :: "persisted_operation \<Rightarrow> string list list \<times> unit result"
  pv_pull :: "persisted_operation \<Rightarrow> unit result"
  pv_verify :: "persisted_operation \<Rightarrow> unit result"
  pv_unloadResident :: "persisted_operation \<Rightarrow> unit result"
  pv_activate :: "persisted_operation \<Rightarrow> unit result"
  pv_remove :: "persisted_operation \<Rightarrow> unit result"
  pv_cleanup :: "persisted_operation \<Rightarrow> unit result"
  pv_inventory :: effect_inventory

record service_options =
  sp_environmentId :: string
  sp_instanceId :: string
  sp_provisioner :: "environment_provisioner option"
  sp_identityDeps :: identity_deps
  sp_sha :: "string \<Rightarrow> string"
  sp_root :: string

text \<open>One call's clock, identity and fresh ids, and the lock schedule of each store call it makes.\<close>

record service_call =
  cl_cfg :: store_config
  cl_schedule :: "nat \<Rightarrow> lock_schedule"
  cl_newEffectId :: "nat \<Rightarrow> string"

datatype service_event =
    Emitted environment_operation
  | Reinstall_started string
  | Reinstall_finished string
  | Installation_changed string string
  | Failure_observed error_body effect_kind
  | Was_reset "string list"

record effect_task =
  tk_record :: persisted_operation
  tk_effect :: effect_intent
  tk_controller :: nat

record service_state =
  sv_disk :: disk
  sv_aborts :: "(string \<times> nat) list"
  sv_aborted :: "nat list"
  sv_controllers :: nat
  sv_progress :: "(string \<times> managed_progress) list"
  sv_latest :: "(string \<times> environment_operation) list"
  sv_running :: "effect_task list"
  sv_finishing :: "environment_operation list"
  sv_stopped :: bool
  sv_log :: "service_event list"

section \<open>Small pieces\<close>

definition WAITING :: "managed_phase list" where
  "WAITING = [Awaiting_consent, Relogin_required, Reboot_required]"

definition RECEIPT_ATTEMPTS :: nat where
  "RECEIPT_ATTEMPTS = 3"

definition ZERO_DIGEST :: sha256 where
  "ZERO_DIGEST = ''sha256:'' @ replicate 64 CHR ''0''"

definition unsupported :: "string \<Rightarrow> managed_operation_target \<Rightarrow> requirement_plan" where
  "unsupported environmentId target =
     \<lparr>pl_plan_digest = ZERO_DIGEST, pl_environment_id = environmentId, pl_target = target,
      pl_availability = Unsupported, pl_recipe_id = ''none'', pl_recipe_digest = ZERO_DIGEST,
      pl_descriptor_id = None, pl_environment_manifest_id = None, pl_image_digest = None,
      pl_adopts_existing_engine = False, pl_system_changes = [], pl_download_bytes = None,
      pl_required_disk_bytes = None, pl_docker_root_dir = None, pl_free_disk_bytes = None,
      pl_requires_elevation = False, pl_may_require_relogin = False, pl_may_require_reboot = False,
      pl_blockers = [\<lparr>err_code = ''MANAGED_PREREQUISITE_BLOCKED'',
                      err_message = ''Managed runtimes are not available on this system yet.'',
                      err_details = None, mb_reason = None, mb_params = None, mb_commands = None\<rparr>],
      pl_warnings = []\<rparr>"

definition notFound :: "string \<Rightarrow> 'a result" where
  "notFound operationId = err ''MANAGED_OPERATION_NOT_FOUND'' ''No such operation.'' (Some operationId)"

definition receiptConflict :: "string \<Rightarrow> string option \<Rightarrow> 'a result" where
  "receiptConflict why details = err ''MANAGED_RECEIPT_CONFLICT'' why details"

definition emit :: "service_event \<Rightarrow> service_state \<Rightarrow> service_state" where
  "emit ev svc = svc\<lparr>sv_log := sv_log svc @ [ev]\<rparr>"

definition announce :: "environment_operation \<Rightarrow> service_state \<Rightarrow> service_state" where
  "announce operation svc =
     (let fin = op_phase operation \<in> set TERMINAL;
          svc = svc\<lparr>sv_latest := (if fin then AList.delete (op_operation_id operation) (sv_latest svc)
                                  else AList.update (op_operation_id operation) operation (sv_latest svc))\<rparr>;
          svc = emit (Emitted operation) svc
      in if fin then svc\<lparr>sv_finishing := sv_finishing svc @ [operation]\<rparr> else svc)"

definition stillPulling :: "environment_operation option \<Rightarrow> environment_operation \<Rightarrow> bool" where
  "stillPulling current pulling =
     (case current of None \<Rightarrow> True
      | Some c \<Rightarrow> op_phase c = Pulling_image \<and> op_revision c = op_revision pulling)"

definition withProgress :: "service_state \<Rightarrow> environment_operation \<Rightarrow> environment_operation" where
  "withProgress svc operation =
     (case map_of (sv_progress svc) (op_operation_id operation) of
        Some live \<Rightarrow> if op_phase operation = Pulling_image then operation\<lparr>op_progress := Some live\<rparr> else operation
      | None \<Rightarrow> operation)"

text \<open>Starting the work a record waits on: a controller of its own, and a task.\<close>

definition dispatch :: "persisted_operation \<Rightarrow> service_state \<Rightarrow> service_state" where
  "dispatch r svc =
     (case m_pending_effect (po_machine r) of
        None \<Rightarrow> svc
      | Some effect \<Rightarrow>
          if sv_stopped svc then svc
          else svc\<lparr>sv_running := sv_running svc @
                     [\<lparr>tk_record = r, tk_effect = effect, tk_controller = sv_controllers svc\<rparr>],
                   sv_aborts := AList.update (po_id r) (sv_controllers svc) (sv_aborts svc),
                   sv_controllers := sv_controllers svc + 1\<rparr>)"

definition abort_running :: "string \<Rightarrow> service_state \<Rightarrow> service_state" where
  "abort_running operationId svc =
     (case map_of (sv_aborts svc) operationId of
        None \<Rightarrow> svc | Some c \<Rightarrow> svc\<lparr>sv_aborted := c # sv_aborted svc\<rparr>)"

definition ownerAlive :: "service_options \<Rightarrow> persisted_operation \<Rightarrow> bool" where
  "ownerAlive opts r =
     (case po_owner_pid r of
        None \<Rightarrow> False
      | Some pid \<Rightarrow> \<not> identityPermitsTakeover
                      (verifyProcessIdentity pid (po_owner_process_start_id r) (sp_identityDeps opts)))"

definition speculative ::
  "service_options \<Rightarrow> string \<Rightarrow> managed_operation_target \<Rightarrow> string option \<Rightarrow> managed_operation_kind \<Rightarrow> bool option
     \<Rightarrow> persisted_operation result" where
  "speculative opts environmentId target descriptorId kind retainModels =
     (let request = \<lparr>bo_request_id = ''probe'', bo_target = target, bo_kind = kind,
                     bo_descriptor_id = descriptorId, bo_retain_models = retainModels,
                     bo_approved_plan_digest = None\<rparr> in
      case beginFingerprint (sp_sha opts) request of
        Inl e \<Rightarrow> Inl e
      | Inr digest \<Rightarrow> ok
          \<lparr>po_machine =
             \<lparr>m_operation =
                \<lparr>op_operation_id = ''probe'', op_request_id = ''probe'', op_environment_id = environmentId,
                 op_target = target, op_kind = kind, op_instance_id = sp_instanceId opts, op_revision = 0,
                 op_phase = Checking, op_plan_digest = None, op_approved_plan_digest = None,
                 op_carried_plan_digest = None, op_progress = None, op_pending_host_step = None,
                 op_completed_step_ids = [], op_cancellation_requested = False, op_error = None\<rparr>,
              m_pending_effect = None, m_indivisible_host_step_running = False, m_checkpoint = None,
              m_consented = None\<rparr>,
           po_request_digest = digest, po_request = request, po_requirement_plan = None,
           po_accepted_receipt_digests = [], po_completed_effect_ids = [], po_owned_resource_ids = [],
           po_owner_pid = None, po_owner_process_start_id = None, po_follow_up = None,
           po_reinstall_of = None\<rparr>)"

section \<open>Applying an event\<close>

text \<open>The result's flag is \<open>owned\<close>: whether this call's own transition was the one that landed.\<close>

definition apply_event ::
  "service_call \<Rightarrow> nat \<Rightarrow> string \<Rightarrow> operation_event \<Rightarrow> requirement_plan option \<Rightarrow> service_state
     \<Rightarrow> (persisted_operation \<times> bool) result \<times> service_state" where
  "apply_event call k operationId event patch svc =
     (case store_read (sv_disk svc) operationId of
        Inl e \<Rightarrow> (Inl e, svc)
      | Inr None \<Rightarrow> (notFound operationId, svc)
      | Inr (Some current) \<Rightarrow>
          (case reduceOperation (po_machine current) event \<lparr>next_effect_id = cl_newEffectId call k\<rparr> of
             Inl e \<Rightarrow> (Inl e, svc)
           | Inr (state, _) \<Rightarrow>
               let nxt = current\<lparr>po_machine := state,
                                 po_requirement_plan :=
                                   (case patch of None \<Rightarrow> po_requirement_plan current | Some p \<Rightarrow> Some p)\<rparr> in
               (case compareAndSwap (cl_cfg call) (cl_schedule call k) operationId (po_revision current) nxt
                       (sv_disk svc) of
                  (Inl e, d) \<Rightarrow> (Inl e, svc\<lparr>sv_disk := d\<rparr>)
                | (Inr False, d) \<Rightarrow>
                    (case store_read d operationId of
                       Inl e \<Rightarrow> (Inl e, svc\<lparr>sv_disk := d\<rparr>)
                     | Inr None \<Rightarrow> (notFound operationId, svc\<lparr>sv_disk := d\<rparr>)
                     | Inr (Some fresh) \<Rightarrow> (ok (fresh, False), svc\<lparr>sv_disk := d\<rparr>))
                | (Inr True, d) \<Rightarrow>
                    (ok (nxt, True), announce (po_operation nxt) (svc\<lparr>sv_disk := d\<rparr>)))))"

text \<open>Applying an event and running what comes next, when this call is the one that committed.\<close>

definition apply_and_dispatch ::
  "service_call \<Rightarrow> nat \<Rightarrow> string \<Rightarrow> operation_event \<Rightarrow> requirement_plan option \<Rightarrow> service_state
     \<Rightarrow> persisted_operation result \<times> service_state" where
  "apply_and_dispatch call k operationId event patch svc =
     (case apply_event call k operationId event patch svc of
        (Inl e, svc) \<Rightarrow> (Inl e, svc)
      | (Inr (nxt, owned), svc) \<Rightarrow> (ok nxt, if owned then dispatch nxt svc else svc))"

definition svc_get :: "string \<Rightarrow> service_state \<Rightarrow> environment_operation result" where
  "svc_get operationId svc =
     (case store_read (sv_disk svc) operationId of
        Inl e \<Rightarrow> Inl e
      | Inr None \<Rightarrow> notFound operationId
      | Inr (Some r) \<Rightarrow> ok (withProgress svc (po_operation r)))"

definition svc_cancel ::
  "service_call \<Rightarrow> string \<Rightarrow> service_state \<Rightarrow> environment_operation result \<times> service_state" where
  "svc_cancel call operationId svc =
     (case apply_event call 0 operationId Ev_cancel None svc of
        (Inl e, svc) \<Rightarrow> (Inl e, svc)
      | (Inr (nxt, owned), svc) \<Rightarrow>
          let svc = abort_running operationId svc;
              svc = (if owned then dispatch nxt svc else svc)
          in (ok (po_operation nxt), svc))"

definition svc_resume ::
  "service_call \<Rightarrow> string \<Rightarrow> resume_operation \<Rightarrow> service_state \<Rightarrow> environment_operation result \<times> service_state" where
  "svc_resume call operationId input svc =
     (case store_read (sv_disk svc) operationId of
        Inl e \<Rightarrow> (Inl e, svc)
      | Inr None \<Rightarrow> (notFound operationId, svc)
      | Inr (Some current) \<Rightarrow>
          let event = (if po_phase current = Awaiting_consent then Ev_approve input else Ev_resume input) in
          (case apply_and_dispatch call 0 operationId event None svc of
             (Inl e, svc) \<Rightarrow> (Inl e, svc)
           | (Inr nxt, svc) \<Rightarrow> (ok (po_operation nxt), svc)))"

section \<open>Receipts\<close>

definition verdictFor ::
  "service_options \<Rightarrow> persisted_operation \<Rightarrow> managed_host_receipt \<Rightarrow> host_step_verdict result" where
  "verdictFor opts r receipt =
     (let nothing = \<lparr>hv_prerequisites_met = False, hv_needs_relogin = False, hv_error = None,
                     hv_address_pools_configured = None\<rparr>;
          pools = (case sp_provisioner opts of None \<Rightarrow> None | Some p \<Rightarrow> pv_addressPoolsConfigured p) in
      if rc_outcome receipt = Out_failed \<and> poolsExhaustedIn (rc_log_tail receipt) \<and> pools \<noteq> None
      then ok (nothing\<lparr>hv_address_pools_configured :=
                         Some (case pools of Some (Inr c) \<Rightarrow> c | _ \<Rightarrow> Pools_unknown)\<rparr>)
      else if rc_outcome receipt = Out_declined \<or> rc_outcome receipt = Out_failed then ok nothing
      else (case sp_provisioner opts of None \<Rightarrow> ok nothing | Some p \<Rightarrow> pv_verifyHostStep p r))"

text \<open>The checks that bind a receipt to the step this operation is waiting for.\<close>

definition bind_receipt ::
  "service_options \<Rightarrow> persisted_operation \<Rightarrow> managed_host_receipt \<Rightarrow> managed_host_step result" where
  "bind_receipt opts current receipt =
     (case classifyReceipt (sp_sha opts) current receipt of
        Inl e \<Rightarrow> Inl e
      | Inr Duplicate \<Rightarrow>
          receiptConflict ''This authorization was already used; nothing was applied again.''
            (Some (rc_nonce receipt))
      | Inr Fresh \<Rightarrow>
          (case op_pending_host_step (po_operation current) of
             None \<Rightarrow>
               receiptConflict ''That result does not match the authorization this operation is waiting for.''
                 (Some (rc_step_id receipt))
           | Some pending \<Rightarrow>
               if hs_nonce pending \<noteq> rc_nonce receipt \<or> hs_step_id pending \<noteq> rc_step_id receipt then
                 receiptConflict ''That result does not match the authorization this operation is waiting for.''
                   (Some (rc_step_id receipt))
               else if hs_expected_operation_revision pending \<noteq> rc_expected_operation_revision receipt then
                 receiptConflict ''That result is for another revision of this operation.''
                   (Some (''step issued at '' @ show_nat (hs_expected_operation_revision pending)
                          @ '', receipt names '' @ show_nat (rc_expected_operation_revision receipt)))
               else if hs_recipe_digest pending \<noteq> rc_recipe_digest receipt
                       \<or> hs_parameters_digest pending \<noteq> rc_parameters_digest receipt then
                 err ''MANAGED_HOST_STEP_INVALID''
                   ''That result is for other recipe bytes or parameters than the step that was authorized.''
                   (Some (rc_step_id receipt))
               else ok pending))"

definition receipt_event ::
  "persisted_operation \<Rightarrow> managed_host_receipt \<Rightarrow> host_step_verdict \<Rightarrow> operation_event" where
  "receipt_event current receipt verdict =
     Ev_host_receipt_verified
       \<lparr>ei_effect_id = (case m_pending_effect (po_machine current) of None \<Rightarrow> [] | Some e \<Rightarrow> ef_effect_id e),
        ei_expected_revision = po_revision current\<rparr>
       \<lparr>rv_receipt = receipt, rv_prerequisites_met = hv_prerequisites_met verdict,
        rv_needs_relogin = Some (hv_needs_relogin verdict), rv_probe_error = hv_error verdict,
        rv_address_pools_configured = hv_address_pools_configured verdict\<rparr>"

text \<open>One attempt: the record a receipt turns the stored one into.\<close>

definition receipt_next ::
  "service_options \<Rightarrow> service_call \<Rightarrow> nat \<Rightarrow> persisted_operation \<Rightarrow> managed_host_receipt
     \<Rightarrow> persisted_operation result" where
  "receipt_next opts call k current receipt =
     (case bind_receipt opts current receipt of
        Inl e \<Rightarrow> Inl e
      | Inr _ \<Rightarrow>
          (case verdictFor opts current receipt of
             Inl e \<Rightarrow> Inl e
           | Inr verdict \<Rightarrow>
               (case reduceOperation (po_machine current) (receipt_event current receipt verdict)
                       \<lparr>next_effect_id = cl_newEffectId call k\<rparr> of
                  Inl e \<Rightarrow> Inl e
                | Inr (state, _) \<Rightarrow>
                    (case withReceipt (sp_sha opts) current receipt of
                       Inl e \<Rightarrow> Inl e
                     | Inr r \<Rightarrow> ok (r\<lparr>po_machine := state\<rparr>)))))"

fun accept_attempts ::
  "service_options \<Rightarrow> service_call \<Rightarrow> nat \<Rightarrow> nat \<Rightarrow> string \<Rightarrow> managed_host_receipt \<Rightarrow> service_state
     \<Rightarrow> environment_operation result \<times> service_state" where
  "accept_attempts opts call k 0 operationId receipt svc =
     (err ''MANAGED_OPERATION_CONFLICT''
        ''The operation kept changing while this result was being recorded; send it again.''
        (Some operationId), svc)"
| "accept_attempts opts call k (Suc left) operationId receipt svc =
     (case store_read (sv_disk svc) operationId of
        Inl e \<Rightarrow> (Inl e, svc)
      | Inr None \<Rightarrow> (notFound operationId, svc)
      | Inr (Some current) \<Rightarrow>
          (case receipt_next opts call k current receipt of
             Inl e \<Rightarrow> (Inl e, svc)
           | Inr nxt \<Rightarrow>
               (case compareAndSwap (cl_cfg call) (cl_schedule call k) operationId (po_revision current) nxt
                       (sv_disk svc) of
                  (Inl e, d) \<Rightarrow> (Inl e, svc\<lparr>sv_disk := d\<rparr>)
                | (Inr False, d) \<Rightarrow>
                    accept_attempts opts call (k + 1) left operationId receipt (svc\<lparr>sv_disk := d\<rparr>)
                | (Inr True, d) \<Rightarrow>
                    (ok (po_operation nxt),
                     dispatch nxt (announce (po_operation nxt) (svc\<lparr>sv_disk := d\<rparr>))))))"

definition acceptHostReceipt where
  "acceptHostReceipt opts call operationId receipt svc =
     accept_attempts opts call 0 RECEIPT_ATTEMPTS operationId receipt svc"

section \<open>Beginning, and ending what was abandoned\<close>

definition ABANDONED :: error_body where
  "ABANDONED = \<lparr>err_code = ''MANAGED_PREREQUISITE_BLOCKED'',
     err_message = ''The core that started this operation is gone, and managed runtimes are not available on this system yet.'',
     err_details = None\<rparr>"

definition REPLACED :: error_body where
  "REPLACED = \<lparr>err_code = ''MANAGED_OPERATION_CONFLICT'',
     err_message = ''The core that was running this operation is gone; a new operation replaced it.'',
     err_details = None\<rparr>"

definition failAbandoned ::
  "service_call \<Rightarrow> nat \<Rightarrow> persisted_operation \<Rightarrow> error_body \<Rightarrow> service_state \<Rightarrow> service_state" where
  "failAbandoned call k r error svc =
     (case m_pending_effect (po_machine r) of
        Some pending \<Rightarrow>
          snd (apply_event call k (po_id r)
                 (Ev_failed \<lparr>ei_effect_id = ef_effect_id pending, ei_expected_revision = po_revision r\<rparr> error)
                 None svc)
      | None \<Rightarrow> snd (apply_and_dispatch call k (po_id r) Ev_cancel None svc))"

definition endAbandonedBlocker ::
  "service_options \<Rightarrow> service_call \<Rightarrow> nat \<Rightarrow> error_body \<Rightarrow> service_state \<Rightarrow> bool \<times> service_state" where
  "endAbandonedBlocker opts call k error svc =
     (if err_code error \<noteq> ''MANAGED_OPERATION_CONFLICT'' then (False, svc)
      else case err_details error of
        None \<Rightarrow> (False, svc)
      | Some ident \<Rightarrow>
          (case store_read (sv_disk svc) ident of
             Inr (Some running) \<Rightarrow>
               if finished running \<or> po_phase running \<in> set WAITING \<or> ownerAlive opts running
               then (False, svc)
               else (True, failAbandoned call k running REPLACED svc)
           | _ \<Rightarrow> (False, svc)))"

definition beginWith ::
  "service_options \<Rightarrow> service_call \<Rightarrow> string \<Rightarrow> begin_operation \<Rightarrow> operation_follow_up option \<Rightarrow> string option
     \<Rightarrow> service_state \<Rightarrow> created result \<times> service_state" where
  "beginWith opts call environmentId input followUp reinstallOf svc =
     (case beginFingerprint (sp_sha opts) input of
        Inl e \<Rightarrow> (Inl e, svc)
      | Inr fingerprint \<Rightarrow>
          let create = (\<lambda>k svc.
                case createOrGet (cl_cfg call) (cl_schedule call k) environmentId input fingerprint followUp
                       reinstallOf (sv_disk svc) of (r, d) \<Rightarrow> (r, svc\<lparr>sv_disk := d\<rparr>));
              begun = (\<lambda>(r, svc). case r of
                  Inl e \<Rightarrow> (Inl e, svc)
                | Inr c \<Rightarrow> (ok c, if cg_created c
                                 then dispatch (cg_record c) (announce (po_operation (cg_record c)) svc)
                                 else svc))
          in (case create 0 svc of
                (Inr c, svc) \<Rightarrow> begun (Inr c, svc)
              | (Inl e, svc) \<Rightarrow>
                  (case endAbandonedBlocker opts call 1 e svc of
                     (False, svc) \<Rightarrow> (Inl e, svc)
                   | (True, svc) \<Rightarrow> begun (create 2 svc))))"

definition svc_begin where
  "svc_begin opts call environmentId input svc =
     (case beginWith opts call environmentId input None None svc of
        (Inl e, svc) \<Rightarrow> (Inl e, svc)
      | (Inr c, svc) \<Rightarrow> (ok (po_operation (cg_record c)), svc))"

definition svc_probe ::
  "service_options \<Rightarrow> probe_environment_input \<Rightarrow> requirement_plan result" where
  "svc_probe opts input =
     (let environmentId = (case pe_environment_id input of None \<Rightarrow> sp_environmentId opts | Some e \<Rightarrow> e) in
      case sp_provisioner opts of
        None \<Rightarrow> ok (unsupported environmentId (pe_target input))
      | Some p \<Rightarrow>
          (case speculative opts environmentId (pe_target input) (Some (pe_descriptor_id input)) Setup None of
             Inl e \<Rightarrow> Inl e
           | Inr r \<Rightarrow> (case pv_probe p r of Inl e \<Rightarrow> Inl e | Inr answer \<Rightarrow> ok (pp_plan answer))))"

definition planRemoval ::
  "service_options \<Rightarrow> string \<Rightarrow> managed_operation_target \<Rightarrow> bool \<Rightarrow> requirement_plan result" where
  "planRemoval opts environmentId target retainModels =
     (case sp_provisioner opts of
        None \<Rightarrow> ok (unsupported environmentId target)
      | Some p \<Rightarrow>
          (case speculative opts environmentId target None Remove (Some retainModels) of
             Inl e \<Rightarrow> Inl e
           | Inr r \<Rightarrow> (case pv_probe p r of Inl e \<Rightarrow> Inl e | Inr answer \<Rightarrow> ok (pp_plan answer))))"

definition beginReinstall ::
  "service_options \<Rightarrow> service_call \<Rightarrow> string \<Rightarrow> string \<Rightarrow> string \<Rightarrow> string \<Rightarrow> string \<Rightarrow> service_state
     \<Rightarrow> environment_operation result \<times> service_state" where
  "beginReinstall opts call environmentId requestId installationId engineId descriptorId svc =
     (let target = Target_runtime installationId engineId in
      case planRemoval opts environmentId target True of
        Inl e \<Rightarrow> (Inl e, svc)
      | Inr plan \<Rightarrow>
          (case beginWith opts call environmentId
                  \<lparr>bo_request_id = requestId, bo_target = target, bo_kind = Remove, bo_descriptor_id = None,
                   bo_retain_models = Some True, bo_approved_plan_digest = Some (pl_plan_digest plan)\<rparr>
                  (Some \<lparr>fu_descriptor_id = descriptorId, fu_request_id = requestId @ '':setup''\<rparr>) None svc of
             (Inl e, svc) \<Rightarrow> (Inl e, svc)
           | (Inr c, svc) \<Rightarrow>
               (ok (po_operation (cg_record c)),
                if cg_created c then emit (Reinstall_started engineId) svc else svc)))"

definition beginFollowUp ::
  "service_options \<Rightarrow> service_call \<Rightarrow> persisted_operation \<Rightarrow> service_state \<Rightarrow> unit result \<times> service_state" where
  "beginFollowUp opts call r svc =
     (case po_follow_up r of
        None \<Rightarrow> (ok (), svc)
      | Some follow \<Rightarrow>
          if sv_stopped svc then (ok (), svc)
          else (case beginWith opts call (op_environment_id (po_operation r))
                       \<lparr>bo_request_id = fu_request_id follow, bo_target = bo_target (po_request r),
                        bo_kind = Setup, bo_descriptor_id = Some (fu_descriptor_id follow),
                        bo_retain_models = None, bo_approved_plan_digest = None\<rparr>
                       None (Some (po_id r)) svc of
                  (Inl e, svc) \<Rightarrow> (Inl e, svc)
                | (Inr _, svc) \<Rightarrow> (ok (), svc)))"

definition target_engine :: "managed_operation_target \<Rightarrow> string option" where
  "target_engine target = (case target of Target_environment \<Rightarrow> None | Target_runtime _ e \<Rightarrow> Some e)"

text \<open>What follows the chain of a reinstall in \<open>afterFinished\<close>.\<close>

definition after_chain ::
  "persisted_operation \<Rightarrow> environment_operation \<Rightarrow> service_state \<Rightarrow> service_state" where
  "after_chain r operation svc =
     (case target_engine (op_target operation) of
        None \<Rightarrow> svc
      | Some e \<Rightarrow>
          let svc = (if po_reinstall_of r \<noteq> None then emit (Reinstall_finished e) svc else svc) in
          if po_follow_up r \<noteq> None \<or> po_reinstall_of r \<noteq> None then svc
          else
            let svc = (if op_kind operation = Setup \<and> op_phase operation = Ready
                       then emit (Installation_changed e ''install'') svc else svc)
            in (if op_kind operation = Remove \<and> op_phase operation = Removed
                then emit (Installation_changed e ''uninstall'') svc else svc))"

definition afterFinished ::
  "service_options \<Rightarrow> service_call \<Rightarrow> environment_operation \<Rightarrow> service_state \<Rightarrow> service_state" where
  "afterFinished opts call operation svc =
     (case store_read (sv_disk svc) (op_operation_id operation) of
        Inr (Some r) \<Rightarrow>
          if po_follow_up r \<noteq> None \<and> op_phase operation = Removed then
            (case beginFollowUp opts call r svc of
               (Inl _, svc) \<Rightarrow> svc
             | (Inr _, svc) \<Rightarrow> after_chain r operation svc)
          else
            let svc = (case (po_follow_up r, target_engine (op_target operation)) of
                         (Some _, Some e) \<Rightarrow> emit (Reinstall_finished e) svc | _ \<Rightarrow> svc)
            in after_chain r operation svc
      | _ \<Rightarrow> svc)"

section \<open>Recovering at start\<close>

text \<open>A refusal or failure of one record's recovery is swallowed: the next record is looked at.\<close>

definition recover_one ::
  "service_options \<Rightarrow> service_call \<Rightarrow> string \<Rightarrow> nat \<Rightarrow> persisted_operation \<Rightarrow> service_state \<Rightarrow> service_state" where
  "recover_one opts call instanceId k r svc =
     (if ownerAlive opts r then svc
      else case sp_provisioner opts of
        None \<Rightarrow> failAbandoned call k r ABANDONED svc
      | Some p \<Rightarrow>
          (case recoverOperation r \<lparr>rd_instanceId = instanceId, rd_newEffectId = (\<lambda>i. cl_newEffectId call (k + i)),
                                    rd_inventory = pv_inventory p\<rparr> of
             Inl _ \<Rightarrow> svc
           | Inr (Unchanged _) \<Rightarrow> svc
           | Inr (Reconciled r' _) \<Rightarrow>
               (case compareAndSwap (cl_cfg call) (cl_schedule call k) (po_id r) (po_revision r) r' (sv_disk svc) of
                  (Inr True, d) \<Rightarrow> dispatch r' (announce (po_operation r') (svc\<lparr>sv_disk := d\<rparr>))
                | (_, d) \<Rightarrow> svc\<lparr>sv_disk := d\<rparr>)
           | Inr (Blocked r' _) \<Rightarrow>
               (case compareAndSwap (cl_cfg call) (cl_schedule call k) (po_id r) (po_revision r) r' (sv_disk svc) of
                  (Inr True, d) \<Rightarrow> announce (po_operation r') (svc\<lparr>sv_disk := d\<rparr>)
                | (_, d) \<Rightarrow> svc\<lparr>sv_disk := d\<rparr>)))"

fun recover_records ::
  "service_options \<Rightarrow> (nat \<Rightarrow> service_call) \<Rightarrow> string \<Rightarrow> nat \<Rightarrow> persisted_operation list \<Rightarrow> service_state \<Rightarrow> service_state" where
  "recover_records opts call instanceId k [] svc = svc"
| "recover_records opts call instanceId k (r # rs) svc =
     recover_records opts call instanceId (k + 1) rs (recover_one opts (call k) instanceId 0 r svc)"

fun begin_follow_ups ::
  "service_options \<Rightarrow> (nat \<Rightarrow> service_call) \<Rightarrow> nat \<Rightarrow> persisted_operation list \<Rightarrow> service_state \<Rightarrow> service_state" where
  "begin_follow_ups opts call k [] svc = svc"
| "begin_follow_ups opts call k (r # rs) svc =
     begin_follow_ups opts call (k + 1) rs
       (if po_follow_up r = None \<or> po_phase r \<noteq> Removed then svc
        else snd (beginFollowUp opts (call k) r svc))"

definition svc_recover ::
  "service_options \<Rightarrow> (nat \<Rightarrow> service_call) \<Rightarrow> string \<Rightarrow> service_state \<Rightarrow> unit result \<times> service_state" where
  "svc_recover opts call instanceId svc =
     (case listRecoverable (sv_disk svc) of
        Inl e \<Rightarrow> (Inl e, svc)
      | Inr pending \<Rightarrow>
          let svc = recover_records opts call instanceId 0 pending svc;
              all = (case listAll (sv_disk svc) of Inl _ \<Rightarrow> [] | Inr rs \<Rightarrow> rs)
          in (ok (), begin_follow_ups opts call (length pending) all svc))"

definition svc_shutdown :: "service_state \<Rightarrow> service_state" where
  "svc_shutdown svc = svc\<lparr>sv_stopped := True, sv_aborted := map snd (sv_aborts svc) @ sv_aborted svc\<rparr>"

definition svc_reset ::
  "service_options \<Rightarrow> service_call \<Rightarrow> string \<Rightarrow> string \<Rightarrow> service_state \<Rightarrow> environment_reset_result result \<times> service_state" where
  "svc_reset opts call environmentId stmp svc =
     (if environmentId \<noteq> sp_environmentId opts
      then (err ''MANAGED_OPERATION_NOT_FOUND'' ''No such environment.'' (Some environmentId), svc)
      else case archiveFinished (cl_cfg call) (cl_schedule call 0) (sp_root opts) stmp (sv_disk svc) of
        (Inl e, d) \<Rightarrow> (Inl e, svc\<lparr>sv_disk := d\<rparr>)
      | (Inr a, d) \<Rightarrow>
          let svc = svc\<lparr>sv_disk := d, sv_latest := filter (\<lambda>(i, _). i \<notin> set (ar_ids a)) (sv_latest svc)\<rparr>
          in (ok \<lparr>rr_environment_id = environmentId, rr_archived_operation_ids = ar_ids a,
                  rr_archive_path = ar_path a\<rparr>, emit (Was_reset (ar_ids a)) svc))"

section \<open>The work itself\<close>

text \<open>The ownership calls of a preparation; the first that fails ends it.\<close>

fun record_owned_calls ::
  "service_call \<Rightarrow> nat \<Rightarrow> string \<Rightarrow> string list list \<Rightarrow> service_state \<Rightarrow> unit result \<times> service_state" where
  "record_owned_calls call k operationId [] svc = (ok (), svc)"
| "record_owned_calls call k operationId (ids # rest) svc =
     (case recordOwned (cl_cfg call) (cl_schedule call k) operationId ids (sv_disk svc) of
        (Inl e, d) \<Rightarrow> (Inl e, svc\<lparr>sv_disk := d\<rparr>)
      | (Inr _, d) \<Rightarrow> record_owned_calls call (k + 1) operationId rest (svc\<lparr>sv_disk := d\<rparr>))"

text \<open>The event an effect's work answers with; the identity is the effect's own.\<close>

definition execute ::
  "service_call \<Rightarrow> environment_provisioner \<Rightarrow> effect_intent \<Rightarrow> persisted_operation \<Rightarrow> event_identity \<Rightarrow> service_state
     \<Rightarrow> operation_event result \<times> service_state" where
  "execute call p effect r ident svc =
     (let answer = (\<lambda>done event svc. (case done of Inl e \<Rightarrow> Inl e | Inr _ \<Rightarrow> ok event, svc)) in
      case ef_kind effect of
        Prepare_environment \<Rightarrow>
          (case pv_prepare p r of
             (owned, outcome) \<Rightarrow>
               (case record_owned_calls call 10 (po_id r) owned svc of
                  (Inl e, svc) \<Rightarrow> (Inl e, svc)
                | (Inr _, svc) \<Rightarrow> answer outcome (Ev_environment_verified ident) svc))
      | Pull_image \<Rightarrow>
          answer (pv_pull p r) (Ev_image_pulled ident)
            (svc\<lparr>sv_progress := AList.delete (po_id r) (sv_progress svc)\<rparr>)
      | Verify \<Rightarrow> answer (pv_verify p r) (Ev_verification_passed ident) svc
      | Unload_resident \<Rightarrow> answer (pv_unloadResident p r) (Ev_resident_unloaded ident) svc
      | Activate \<Rightarrow> answer (pv_activate p r) (Ev_activation_committed ident) svc
      | Remove_effect \<Rightarrow> answer (pv_remove p r) (Ev_removal_completed ident) svc
      | Cleanup \<Rightarrow> answer (pv_cleanup p r) (Ev_cleanup_completed ident) svc
      | _ \<Rightarrow> (err ''MANAGED_OPERATION_CONFLICT''
                (''Nothing runs a '' @ effect_kind_name (ef_kind effect) @ '' here.'') None, svc))"

text \<open>A call whose answer is not used further.\<close>

definition no_answer :: "'a result \<times> service_state \<Rightarrow> unit result \<times> service_state" where
  "no_answer r = (case r of (Inl e, svc) \<Rightarrow> (Inl e, svc) | (Inr _, svc) \<Rightarrow> (ok (), svc))"

text \<open>The body of \<open>perform\<close>'s \<open>try\<close>; an \<^const>\<open>Inl\<close> is what it throws.\<close>

definition perform_body ::
  "service_options \<Rightarrow> service_call \<Rightarrow> effect_task \<Rightarrow> service_state \<Rightarrow> unit result \<times> service_state" where
  "perform_body opts call task svc =
     (let r = tk_record task; effect = tk_effect task; ident = po_id r;
          identity = \<lparr>ei_effect_id = ef_effect_id effect, ei_expected_revision = ef_expected_revision effect\<rparr> in
      if ef_kind effect = Probe then
        (case (case sp_provisioner opts of
                 None \<Rightarrow> ok \<lparr>pp_plan = unsupported (op_environment_id (po_operation r)) (op_target (po_operation r)),
                             pp_host_step = None, pp_image_present = None\<rparr>
               | Some p \<Rightarrow> pv_probe p r) of
           Inl e \<Rightarrow> (Inl e, svc)
         | Inr answer \<Rightarrow>
             no_answer (apply_and_dispatch call 0 ident
               (Ev_requirements_ready identity
                  \<lparr>rq_plan = pp_plan answer, rq_host_step = pp_host_step answer,
                   rq_image_present = pp_image_present answer\<rparr>)
               (Some (pp_plan answer)) svc))
      else if ef_kind effect = Reconcile \<and> sp_provisioner opts \<noteq> None then
        (case ask_inventory (pv_inventory (the (sp_provisioner opts))) (sp_instanceId opts) r of
           Inl e \<Rightarrow> (Inl e, svc)
         | Inr facts \<Rightarrow> no_answer (apply_and_dispatch call 0 ident (Ev_reconciled identity facts) None svc))
      else if ef_kind effect = Host_step then
        no_answer (apply_event call 0 ident (Ev_host_step_started identity) None svc)
      else (case sp_provisioner opts of
        None \<Rightarrow>
          no_answer (apply_event call 0 ident
            (Ev_failed identity
               \<lparr>err_code = ''MANAGED_PREREQUISITE_BLOCKED'',
                err_message = ''Managed runtimes are not available on this system yet.'', err_details = None\<rparr>)
            None svc)
      | Some p \<Rightarrow>
          (case execute call p effect r identity svc of
             (Inl e, svc) \<Rightarrow> (Inl e, svc)
           | (Inr event, svc) \<Rightarrow> no_answer (apply_and_dispatch call 0 ident event None svc))))"

text \<open>
  The whole of \<open>perform\<close>: the body, the record of a failure (unless what was thrown says the result no
  longer applies), and the controller given back.
\<close>

definition perform ::
  "service_options \<Rightarrow> service_call \<Rightarrow> effect_task \<Rightarrow> service_state \<Rightarrow> service_state" where
  "perform opts call task svc =
     (let effect = tk_effect task; ident = po_id (tk_record task);
          identity = \<lparr>ei_effect_id = ef_effect_id effect, ei_expected_revision = ef_expected_revision effect\<rparr>;
          svc = (case perform_body opts call task svc of
                   (Inr _, svc) \<Rightarrow> svc
                 | (Inl e, svc) \<Rightarrow>
                     if err_code e = ''MANAGED_OPERATION_CONFLICT'' then svc
                     else
                       let svc = (if tk_controller task \<in> set (sv_aborted svc) then svc
                                  else emit (Failure_observed e (ef_kind effect)) svc)
                       in snd (apply_event call 1 ident (Ev_failed identity e) None svc));
          svc = (if map_of (sv_aborts svc) ident = Some (tk_controller task)
                 then svc\<lparr>sv_aborts := AList.delete ident (sv_aborts svc)\<rparr> else svc)
      in svc\<lparr>sv_running := filter (\<lambda>t. tk_controller t \<noteq> tk_controller task) (sv_running svc)\<rparr>)"

definition PROGRESS_EMIT_INTERVAL_MS :: int where
  "PROGRESS_EMIT_INTERVAL_MS = 250"

text \<open>
  One tick of a pull's progress: \<open>previous\<close> is when one was last announced; the flag says that the shared
  record is now being read back, and \<open>pull_announce\<close> is what happens when it has answered.
\<close>

definition pull_progress ::
  "environment_operation \<Rightarrow> managed_progress \<Rightarrow> int \<Rightarrow> int option \<Rightarrow> service_state
     \<Rightarrow> int option \<times> bool \<times> service_state" where
  "pull_progress operation progress at previous svc =
     (if \<not> stillPulling (map_of (sv_latest svc) (op_operation_id operation)) operation then (previous, False, svc)
      else
        let svc = svc\<lparr>sv_progress := AList.update (op_operation_id operation) progress (sv_progress svc)\<rparr>;
            final = (pr_total progress \<noteq> None \<and> pr_completed progress = pr_total progress) in
        if \<not> final \<and> (case previous of None \<Rightarrow> False | Some l \<Rightarrow> at - l < PROGRESS_EMIT_INTERVAL_MS)
        then (previous, False, svc)
        else (Some at, True, svc))"

definition pull_announce ::
  "environment_operation \<Rightarrow> managed_progress \<Rightarrow> persisted_operation option result \<Rightarrow> service_state \<Rightarrow> service_state" where
  "pull_announce operation progress stored svc =
     (case stored of
        Inl _ \<Rightarrow> svc
      | Inr s \<Rightarrow>
          if stillPulling (map_option po_operation s) operation
             \<and> stillPulling (map_of (sv_latest svc) (op_operation_id operation)) operation
          then emit (Emitted (operation\<lparr>op_progress := Some progress\<rparr>)) svc else svc)"

end
