(* ===== verification/Store_Lock.thy ===== *)
theory Store_Lock
  imports Store_Files
begin

text \<open>
  The store's lock file under interleaving: \<open>acquire\<close>, \<open>tryTakeoverStale\<close> and the release of \<open>withLock\<close>
  cut into the file system calls they make, each of them one step of one process, with crashes between
  any two and a clock that runs.  The code's premise is that a critical section is shorter than the
  lock's time to live and a takeover decision shorter than the mutex's: the clock step is where it is
  used.
\<close>

section \<open>Processes\<close>

datatype lock_pc =
    Outside
  | Opened string int        \<comment> \<open>\<open>openExclusive\<close> succeeded at this time; the token is not written yet\<close>
  | Inside string int        \<comment> \<open>in the critical section, under this token\<close>
  | Leaving string int       \<comment> \<open>read its own token back; about to remove the file\<close>
  | Deciding int             \<comment> \<open>holds the takeover mutex since this time\<close>
  | Clearing int             \<comment> \<open>saw a stale lock; about to remove it\<close>
  | Cleared int              \<comment> \<open>about to remove the mutex\<close>
  | Crashed

record lock_state =
  lk_disk :: disk
  lk_clock :: int
  lk_pc :: "nat \<Rightarrow> lock_pc"

fun section_since :: "lock_pc \<Rightarrow> int option" where
  "section_since (Opened _ t) = Some t"
| "section_since (Inside _ t) = Some t"
| "section_since (Leaving _ t) = Some t"
| "section_since _ = None"

fun deciding_since :: "lock_pc \<Rightarrow> int option" where
  "deciding_since (Deciding t) = Some t"
| "deciding_since (Clearing t) = Some t"
| "deciding_since (Cleared t) = Some t"
| "deciding_since _ = None"

text \<open>Within the two time limits at a given time.\<close>

definition in_time :: "int \<Rightarrow> int \<Rightarrow> (nat \<Rightarrow> lock_pc) \<Rightarrow> bool" where
  "in_time ttl now pc \<longleftrightarrow> (\<forall>p t. (section_since (pc p) = Some t \<longrightarrow> now \<le> t + ttl) \<and>
     (deciding_since (pc p) = Some t \<longrightarrow> now \<le> t + TAKEOVER_MUTEX_TTL_MS))"

definition lock_files :: "disk \<Rightarrow> store_file option \<times> store_file option" where
  "lock_files d = (map_of d Lock_file, map_of d Takeover_mutex)"

definition on_lock :: "string \<Rightarrow> disk \<Rightarrow> bool" where
  "on_lock token d \<longleftrightarrow> (\<exists>f text. map_of d Lock_file = Some f \<and> fi_content f = Plain_text text \<and> js_trim text = token)"

inductive lock_step :: "int \<Rightarrow> lock_state \<Rightarrow> lock_state \<Rightarrow> bool" for ttl :: int where
  open_lock: "lk_pc s p = Outside \<Longrightarrow> fs_openExclusive Lock_file (lk_clock s) (lk_disk s) = Some d \<Longrightarrow>
    lock_step ttl s (s\<lparr>lk_disk := d, lk_pc := (lk_pc s)(p := Opened token (lk_clock s))\<rparr>)"
| write_token: "lk_pc s p = Opened token t \<Longrightarrow>
    lock_step ttl s (s\<lparr>lk_disk := fs_writeFile Lock_file (Plain_text token) (lk_clock s) (lk_disk s),
      lk_pc := (lk_pc s)(p := Inside token t)\<rparr>)"
| work: "lk_pc s p = Inside token t \<Longrightarrow> lock_files d = lock_files (lk_disk s) \<Longrightarrow>
    lock_step ttl s (s\<lparr>lk_disk := d\<rparr>)"
| check_own: "lk_pc s p = Inside token t \<Longrightarrow> on_lock token (lk_disk s) \<Longrightarrow>
    lock_step ttl s (s\<lparr>lk_pc := (lk_pc s)(p := Leaving token t)\<rparr>)"
| check_not_own: "lk_pc s p = Inside token t \<Longrightarrow> \<not> on_lock token (lk_disk s) \<Longrightarrow>
    lock_step ttl s (s\<lparr>lk_pc := (lk_pc s)(p := Outside)\<rparr>)"
| remove_own: "lk_pc s p = Leaving token t \<Longrightarrow>
    lock_step ttl s (s\<lparr>lk_disk := fs_rm Lock_file (lk_disk s), lk_pc := (lk_pc s)(p := Outside)\<rparr>)"
| open_mutex: "lk_pc s p = Outside \<Longrightarrow>
    fs_openExclusive Takeover_mutex (lk_clock s) (lk_disk s) = Some d \<Longrightarrow>
    lock_step ttl s (s\<lparr>lk_disk := d, lk_pc := (lk_pc s)(p := Deciding (lk_clock s))\<rparr>)"
| drop_orphan_mutex: "lk_pc s p = Outside \<Longrightarrow>
    older_than TAKEOVER_MUTEX_TTL_MS (lk_clock s) Takeover_mutex (lk_disk s) \<Longrightarrow>
    lock_step ttl s (s\<lparr>lk_disk := fs_rm Takeover_mutex (lk_disk s)\<rparr>)"
| see_stale: "lk_pc s p = Deciding t \<Longrightarrow> older_than ttl (lk_clock s) Lock_file (lk_disk s) \<Longrightarrow>
    lock_step ttl s (s\<lparr>lk_pc := (lk_pc s)(p := Clearing t)\<rparr>)"
| see_live: "lk_pc s p = Deciding t \<Longrightarrow> \<not> older_than ttl (lk_clock s) Lock_file (lk_disk s) \<Longrightarrow>
    lock_step ttl s (s\<lparr>lk_pc := (lk_pc s)(p := Cleared t)\<rparr>)"
| clear_lock: "lk_pc s p = Clearing t \<Longrightarrow>
    lock_step ttl s (s\<lparr>lk_disk := fs_rm Lock_file (lk_disk s), lk_pc := (lk_pc s)(p := Cleared t)\<rparr>)"
| remove_mutex: "lk_pc s p = Cleared t \<Longrightarrow>
    lock_step ttl s (s\<lparr>lk_disk := fs_rm Takeover_mutex (lk_disk s), lk_pc := (lk_pc s)(p := Outside)\<rparr>)"
| crash: "lock_step ttl s (s\<lparr>lk_pc := (lk_pc s)(p := Crashed)\<rparr>)"
| tick: "lk_clock s \<le> now \<Longrightarrow> in_time ttl now (lk_pc s) \<Longrightarrow> lock_step ttl s (s\<lparr>lk_clock := now\<rparr>)"

definition lock_start :: "int \<Rightarrow> lock_state \<Rightarrow> bool" where
  "lock_start ttl s \<longleftrightarrow> 0 \<le> ttl \<and> (\<forall>p. lk_pc s p = Outside)"

section \<open>The invariant\<close>

definition section_inv :: "int \<Rightarrow> lock_state \<Rightarrow> bool" where
  "section_inv ttl s \<longleftrightarrow>
     (\<forall>p q t u. section_since (lk_pc s p) = Some t \<longrightarrow> section_since (lk_pc s q) = Some u \<longrightarrow> p = q) \<and>
     (\<forall>p t. section_since (lk_pc s p) = Some t \<longrightarrow>
        (\<exists>f. map_of (lk_disk s) Lock_file = Some f \<and> t \<le> fi_mtime f))"

definition mutex_inv :: "lock_state \<Rightarrow> bool" where
  "mutex_inv s \<longleftrightarrow>
     (\<forall>p q t u. deciding_since (lk_pc s p) = Some t \<longrightarrow> deciding_since (lk_pc s q) = Some u \<longrightarrow> p = q) \<and>
     (\<forall>p t. deciding_since (lk_pc s p) = Some t \<longrightarrow>
        (\<exists>f. map_of (lk_disk s) Takeover_mutex = Some f \<and> t \<le> fi_mtime f))"

definition clearing_inv :: "int \<Rightarrow> lock_state \<Rightarrow> bool" where
  "clearing_inv ttl s \<longleftrightarrow>
     (\<forall>p t. lk_pc s p = Clearing t \<longrightarrow> older_than ttl (lk_clock s) Lock_file (lk_disk s))"

definition lock_inv :: "int \<Rightarrow> lock_state \<Rightarrow> bool" where
  "lock_inv ttl s \<longleftrightarrow> 0 \<le> ttl \<and> section_inv ttl s \<and> mutex_inv s \<and> clearing_inv ttl s \<and>
     in_time ttl (lk_clock s) (lk_pc s) \<and>
     (\<forall>p t. (section_since (lk_pc s p) = Some t \<or> deciding_since (lk_pc s p) = Some t) \<longrightarrow> t \<le> lk_clock s)"

lemmas lock_inv_defs = lock_inv_def section_inv_def mutex_inv_def clearing_inv_def in_time_def

text \<open>A live section's lock is never stale, so nobody is about to remove it.\<close>

lemma section_fresh:
  assumes "lock_inv ttl s" "section_since (lk_pc s p) = Some t"
  shows "\<not> older_than ttl (lk_clock s) Lock_file (lk_disk s)"
proof -
  obtain f where "map_of (lk_disk s) Lock_file = Some f" "t \<le> fi_mtime f"
    using assms unfolding lock_inv_def section_inv_def by blast
  moreover have "lk_clock s \<le> t + ttl" using assms unfolding lock_inv_def in_time_def by blast
  ultimately show ?thesis by (simp add: older_than_def ageOf_def)
qed

lemma no_clearing_beside_section:
  assumes "lock_inv ttl s" "section_since (lk_pc s p) = Some t"
  shows "lk_pc s q \<noteq> Clearing u"
  using section_fresh [OF assms] assms(1) unfolding lock_inv_def clearing_inv_def by blast

lemma decider_fresh:
  assumes "lock_inv ttl s" "deciding_since (lk_pc s p) = Some t"
  shows "\<not> older_than TAKEOVER_MUTEX_TTL_MS (lk_clock s) Takeover_mutex (lk_disk s)"
proof -
  obtain f where "map_of (lk_disk s) Takeover_mutex = Some f" "t \<le> fi_mtime f"
    using assms unfolding lock_inv_def mutex_inv_def by blast
  moreover have "lk_clock s \<le> t + TAKEOVER_MUTEX_TTL_MS" using assms unfolding lock_inv_def in_time_def by blast
  ultimately show ?thesis by (simp add: older_than_def ageOf_def)
qed

lemma openExclusive_Some:
  "fs_openExclusive p now d = Some d' \<Longrightarrow>
   map_of d p = None \<and> map_of d' = (map_of d)(p \<mapsto> \<lparr>fi_content = Plain_text [], fi_mtime = now\<rparr>)"
  by (auto simp: fs_openExclusive_def fs_exists_def split: if_splits)

lemma older_than_iff: "older_than ttl now p d \<longleftrightarrow> (\<exists>f. map_of d p = Some f \<and> fi_mtime f + ttl < now)"
  by (auto simp: older_than_def ageOf_def split: option.split)

lemma section_facts:
  assumes "lock_inv ttl s" "section_since (lk_pc s p) = Some t"
  shows "t \<le> lk_clock s" "lk_clock s \<le> t + ttl" "\<forall>q u. section_since (lk_pc s q) = Some u \<longrightarrow> q = p"
    "\<exists>f. map_of (lk_disk s) Lock_file = Some f \<and> t \<le> fi_mtime f"
  using assms unfolding lock_inv_defs by blast+

lemma decider_facts:
  assumes "lock_inv ttl s" "deciding_since (lk_pc s p) = Some t"
  shows "t \<le> lk_clock s" "lk_clock s \<le> t + TAKEOVER_MUTEX_TTL_MS"
    "\<forall>q u. deciding_since (lk_pc s q) = Some u \<longrightarrow> q = p"
    "\<exists>f. map_of (lk_disk s) Takeover_mutex = Some f \<and> t \<le> fi_mtime f"
  using assms unfolding lock_inv_defs by blast+

lemma inv_write_token:
  assumes "lock_inv ttl s" "lk_pc s p = Opened token t"
  shows "lock_inv ttl (s\<lparr>lk_disk := fs_writeFile Lock_file (Plain_text token) (lk_clock s) (lk_disk s),
      lk_pc := (lk_pc s)(p := Inside token t)\<rparr>)"
proof -
  have sec: "section_since (lk_pc s p) = Some t" by (simp add: assms(2))
  show ?thesis
    using assms section_facts [OF assms(1) sec] no_clearing_beside_section [OF assms(1) sec]
    by (auto simp: lock_inv_defs older_than_iff)
qed

lemma inv_leave:
  assumes "lock_inv ttl s" "lk_pc s p = Inside token t"
  shows "lock_inv ttl (s\<lparr>lk_pc := (lk_pc s)(p := Leaving token t)\<rparr>)"
proof -
  have sec: "section_since (lk_pc s p) = Some t" by (simp add: assms(2))
  show ?thesis
    using assms section_facts [OF assms(1) sec] no_clearing_beside_section [OF assms(1) sec]
    by (auto simp: lock_inv_defs older_than_iff)
qed

lemma inv_decided:
  assumes "lock_inv ttl s" "lk_pc s p = Deciding t"
    and "c = Cleared t \<or> c = Clearing t \<and> older_than ttl (lk_clock s) Lock_file (lk_disk s)"
  shows "lock_inv ttl (s\<lparr>lk_pc := (lk_pc s)(p := c)\<rparr>)"
proof -
  have sec: "deciding_since (lk_pc s p) = Some t" by (simp add: assms(2))
  show ?thesis
    using assms decider_facts [OF assms(1) sec]
    by (auto simp: lock_inv_defs)
qed

lemma inv_removed:
  assumes "lock_inv ttl s" "lk_pc s p = Leaving token t"
  shows "lock_inv ttl (s\<lparr>lk_disk := fs_rm Lock_file (lk_disk s), lk_pc := (lk_pc s)(p := Outside)\<rparr>)"
proof -
  have sec: "section_since (lk_pc s p) = Some t" by (simp add: assms(2))
  show ?thesis
    using assms section_facts [OF assms(1) sec] no_clearing_beside_section [OF assms(1) sec]
    by (auto simp: lock_inv_defs older_than_iff)
qed

lemma inv_cleared:
  assumes "lock_inv ttl s" "lk_pc s p = Clearing t"
  shows "lock_inv ttl (s\<lparr>lk_disk := fs_rm Lock_file (lk_disk s), lk_pc := (lk_pc s)(p := Cleared t)\<rparr>)"
proof -
  have sec: "deciding_since (lk_pc s p) = Some t" by (simp add: assms(2))
  have none: "section_since (lk_pc s q) = None" for q
    using no_clearing_beside_section [OF assms(1), of q _ p] assms(2)
    by (cases "section_since (lk_pc s q)") auto
  show ?thesis
    using assms decider_facts [OF assms(1) sec] none by (auto simp: lock_inv_defs)
qed

lemma inv_mutex_removed:
  assumes "lock_inv ttl s" "lk_pc s p = Cleared t"
  shows "lock_inv ttl (s\<lparr>lk_disk := fs_rm Takeover_mutex (lk_disk s), lk_pc := (lk_pc s)(p := Outside)\<rparr>)"
proof -
  have sec: "deciding_since (lk_pc s p) = Some t" by (simp add: assms(2))
  show ?thesis
    using assms decider_facts [OF assms(1) sec] by (auto simp: lock_inv_defs older_than_iff)
qed

lemma inv_gone:
  assumes "lock_inv ttl s" "c = Outside \<or> c = Crashed"
  shows "lock_inv ttl (s\<lparr>lk_pc := (lk_pc s)(p := c)\<rparr>)"
  using assms by (auto simp: lock_inv_defs)

lemma inv_open_lock:
  assumes "lock_inv ttl s" "fs_openExclusive Lock_file (lk_clock s) (lk_disk s) = Some d"
  shows "lock_inv ttl (s\<lparr>lk_disk := d, lk_pc := (lk_pc s)(p := Opened token (lk_clock s))\<rparr>)"
proof -
  note d = openExclusive_Some [OF assms(2)]
  have "section_since (lk_pc s q) = None" for q
    using section_facts(4) [OF assms(1), of q] d by (cases "section_since (lk_pc s q)") auto
  moreover have "lk_pc s q \<noteq> Clearing u" for q u
    using assms(1) d by (auto simp: lock_inv_def clearing_inv_def older_than_iff)
  ultimately show ?thesis using assms(1) d by (auto simp: lock_inv_defs older_than_iff)
qed

lemma inv_open_mutex:
  assumes "lock_inv ttl s" "fs_openExclusive Takeover_mutex (lk_clock s) (lk_disk s) = Some d"
  shows "lock_inv ttl (s\<lparr>lk_disk := d, lk_pc := (lk_pc s)(p := Deciding (lk_clock s))\<rparr>)"
proof -
  note d = openExclusive_Some [OF assms(2)]
  have "deciding_since (lk_pc s q) = None" for q
    using decider_facts(4) [OF assms(1), of q] d by (cases "deciding_since (lk_pc s q)") auto
  then show ?thesis using assms(1) d
    by (auto simp: lock_inv_defs older_than_iff TAKEOVER_MUTEX_TTL_MS_def)
qed

lemma inv_drop_mutex:
  assumes "lock_inv ttl s" "older_than TAKEOVER_MUTEX_TTL_MS (lk_clock s) Takeover_mutex (lk_disk s)"
  shows "lock_inv ttl (s\<lparr>lk_disk := fs_rm Takeover_mutex (lk_disk s)\<rparr>)"
proof -
  have "deciding_since (lk_pc s q) = None" for q
    using assms(2) decider_fresh [OF assms(1), of q] by (cases "deciding_since (lk_pc s q)") auto
  then show ?thesis using assms(1) by (auto simp: lock_inv_defs older_than_iff)
qed

lemma lock_inv_step:
  assumes "lock_inv ttl s" "lock_step ttl s s'"
  shows "lock_inv ttl s'"
  using assms(2,1)
proof (induction rule: lock_step.induct)
  case (work s p token t d)
  then show ?case by (auto simp: lock_inv_defs older_than_iff lock_files_def)
next
  case (tick s now)
  have "older_than ttl now Lock_file (lk_disk s)" if "older_than ttl (lk_clock s) Lock_file (lk_disk s)"
    using that tick(1) by (auto simp: older_than_iff)
  then have "clearing_inv ttl (s\<lparr>lk_clock := now\<rparr>)"
    using tick(3) by (auto simp: lock_inv_def clearing_inv_def)
  moreover have "section_inv ttl (s\<lparr>lk_clock := now\<rparr>)" "mutex_inv (s\<lparr>lk_clock := now\<rparr>)" "0 \<le> ttl"
    using tick(3) by (auto simp: lock_inv_def section_inv_def mutex_inv_def)
  moreover have "t \<le> now" if "section_since (lk_pc s p) = Some t \<or> deciding_since (lk_pc s p) = Some t" for p t
    using that section_facts(1) [OF tick(3), of p t] decider_facts(1) [OF tick(3), of p t] tick(1) by auto
  ultimately show ?case using tick(2) by (simp add: lock_inv_def)
qed (simp_all add: inv_write_token inv_leave inv_decided inv_removed inv_cleared inv_mutex_removed
    inv_gone inv_open_lock inv_open_mutex inv_drop_mutex)

interpretation store_lock: invariant_system "lock_start ttl" "lock_step ttl" "lock_inv ttl" for ttl
proof
  show "lock_inv ttl s" if "lock_start ttl s" for s using that by (auto simp: lock_start_def lock_inv_defs)
  show "lock_inv ttl s'" if "lock_inv ttl s" "lock_step ttl s s'" for s s' using that by (rule lock_inv_step)
qed

section \<open>Properties\<close>

fun in_section :: "lock_pc \<Rightarrow> bool" where
  "in_section (Inside _ _) = True"
| "in_section (Leaving _ _) = True"
| "in_section _ = False"


lemma acquire_free:
  assumes "ls_others sch a d = d" "\<not> fs_exists d Lock_file"
  shows "\<exists>d'. acquire ttl sch a (Suc n) d = (Some (ls_token sch a), d') \<and>
    map_of d' Lock_file = Some \<lparr>fi_content = Plain_text (ls_token sch a), fi_mtime = ls_now sch a\<rparr>"
  using assms by (simp add: fs_openExclusive_def Let_def)

lemma acquire_held:
  assumes "ls_others sch a d = d" "fs_exists d Lock_file"
  shows "acquire ttl sch a (Suc n) d =
    acquire ttl sch (a + 1) n (snd (tryTakeoverStale ttl (ls_now sch a) d))"
  using assms by (simp add: fs_openExclusive_def Let_def)

lemma takeover_clears:
  assumes "\<not> fs_exists d Takeover_mutex" "older_than ttl now Lock_file d"
  shows "\<not> fs_exists (snd (tryTakeoverStale ttl now d)) Lock_file"
  using assms by (auto simp: tryTakeoverStale_def fs_openExclusive_def older_than_iff fs_exists_def)

lemma takeover_drops_orphan:
  assumes "older_than TAKEOVER_MUTEX_TTL_MS now Takeover_mutex d"
  shows "snd (tryTakeoverStale ttl now d) = fs_rm Takeover_mutex d"
proof -
  have "fs_exists d Takeover_mutex" using assms by (auto simp: older_than_iff fs_exists_def)
  then show ?thesis using assms by (simp add: tryTakeoverStale_def fs_openExclusive_def)
qed


end
