(* ===== verification/Store_Locked.thy ===== *)
theory Store_Locked
  imports Store_Lock
begin

text \<open>
  The store's operations as their callers meet them, the lock included: which files the lock protocol
  touches, what a commit does when nobody interferes, and what the other cores may do between a read
  and a commit without breaking what every record promises.
\<close>

section \<open>The lock touches no record\<close>

definition same_records :: "disk \<Rightarrow> disk \<Rightarrow> bool" where
  "same_records d d' \<longleftrightarrow> (\<forall>p. p \<noteq> Lock_file \<longrightarrow> p \<noteq> Takeover_mutex \<longrightarrow> map_of d' p = map_of d p)"

lemma same_records_refl [simp]: "same_records d d"
  by (simp add: same_records_def)

lemma same_records_trans: "same_records a b \<Longrightarrow> same_records b c \<Longrightarrow> same_records a c"
  by (simp add: same_records_def)

lemma same_records_read: "same_records d d' \<Longrightarrow> store_read d' ident = store_read d ident"
  by (rule store_read_cong) (simp add: same_records_def)

lemma same_records_lock [simp]:
  "same_records d (fs_writeFile Lock_file c now d)" "same_records d (fs_rm Lock_file d)"
  "same_records d (fs_writeFile Takeover_mutex c now d)" "same_records d (fs_rm Takeover_mutex d)"
  by (simp_all add: same_records_def)

lemma same_records_release [simp]: "same_records d (release token d)"
  by (simp add: release_def split: option.split file_content.split)

lemma same_records_takeover: "same_records d (snd (tryTakeoverStale ttl now d))"
  by (auto simp: tryTakeoverStale_def same_records_def fs_openExclusive_def split: option.split)

section \<open>Nobody interfering\<close>

definition quiet :: "lock_schedule \<Rightarrow> bool" where
  "quiet sch \<longleftrightarrow> (\<forall>a d. ls_others sch a d = d)"

text \<open>The lock is there for the taking.\<close>

definition lock_free :: "store_config \<Rightarrow> lock_schedule \<Rightarrow> disk \<Rightarrow> bool" where
  "lock_free cfg sch d \<longleftrightarrow> quiet sch \<and> \<not> fs_exists d Lock_file \<and> 0 < cf_lockAttempts cfg"

lemma withLock_free:
  assumes "lock_free cfg sch d"
  obtains d0 token where "same_records d d0"
    "withLock cfg sch run d = (fst (run d0), release token (snd (run d0)))"
proof -
  obtain n where n: "cf_lockAttempts cfg = Suc n"
    using assms by (auto simp: lock_free_def gr0_conv_Suc)
  let ?d0 = "fs_writeFile Lock_file (Plain_text (ls_token sch 0)) (ls_now sch 0)
    (fs_writeFile Lock_file (Plain_text []) (ls_now sch 0) d)"
  have "acquire (cf_lockTtlMs cfg) sch 0 (cf_lockAttempts cfg) d = (Some (ls_token sch 0), ?d0)"
    using assms by (simp add: n lock_free_def quiet_def fs_openExclusive_def Let_def)
  then have "withLock cfg sch run d = (fst (run ?d0), release (ls_token sch 0) (snd (run ?d0)))"
    by (simp add: withLock_def case_prod_beta)
  moreover have "same_records d ?d0" by (simp add: same_records_def)
  ultimately show thesis using that by blast
qed

lemma compareAndSwap_free:
  assumes "lock_free cfg sch d" "store_read d ident = Inr (Some current)" "po_revision current = revn"
    and "po_id nxt = ident" "storable nxt"
  shows "\<exists>d'. compareAndSwap cfg sch ident revn nxt d = (Inr True, d') \<and>
    store_read d' ident = Inr (Some (stamp cfg (merge_owned current nxt))) \<and>
    (\<forall>other. other \<noteq> ident \<longrightarrow> store_read d' other = store_read d other)"
proof -
  obtain d0 token where d0: "same_records d d0"
    "withLock cfg sch (compareAndSwap_run cfg ident revn nxt) d =
      (fst (compareAndSwap_run cfg ident revn nxt d0), release token (snd (compareAndSwap_run cfg ident revn nxt d0)))"
    by (rule withLock_free [OF assms(1)])
  have "store_read d0 ident = Inr (Some current)" using same_records_read [OF d0(1)] assms(2) by simp
  from op_store.cas_commits [OF this assms(3-5), of cfg]
  obtain d1 where d1: "compareAndSwap_run cfg ident revn nxt d0 = (Inr True, d1)"
    "store_read d1 ident = Inr (Some (stamp cfg (merge_owned current nxt)))" by blast
  have "store_read d1 other = store_read d other" if "other \<noteq> ident" for other
    using op_store.cas_others [OF that, of cfg revn nxt d0] d1(1) same_records_read [OF d0(1)] by simp
  then show ?thesis
    using d0(2) d1 same_records_read [OF same_records_release] by (auto simp: compareAndSwap_def)
qed

section \<open>What a call leaves, whoever interferes\<close>

lemma withLock_cases:
  assumes "withLock cfg sch run d = (out, d')"
  obtains (busy) "out = busy" "d' = snd (acquire (cf_lockTtlMs cfg) sch 0 (cf_lockAttempts cfg) d)"
  | (ran) d0 d1 token where "run d0 = (out, d1)" "d' = release token d1"
      "d0 = snd (acquire (cf_lockTtlMs cfg) sch 0 (cf_lockAttempts cfg) d)"
proof (cases "acquire (cf_lockTtlMs cfg) sch 0 (cf_lockAttempts cfg) d")
  case (Pair a d0)
  then show thesis using assms that by (cases a) (auto simp: withLock_def split: prod.splits)
qed

lemma acquire_keeps:
  assumes "\<And>d d'. same_records d d' \<Longrightarrow> P d \<Longrightarrow> P d'" "\<And>a d. P d \<Longrightarrow> P (ls_others sch a d)"
  shows "P d \<Longrightarrow> P (snd (acquire ttl sch a n d))"
proof (induction n arbitrary: a d)
  case (Suc n)
  let ?d = "ls_others sch a d"
  have P: "P ?d" using Suc.prems assms(2) by blast
  have opened: "P (fs_writeFile Lock_file c now d')" if "fs_openExclusive Lock_file now ?d = Some d'" for c now d'
  proof -
    have "same_records ?d (fs_writeFile Lock_file c now d')"
      using that by (auto simp: fs_openExclusive_def same_records_def split: if_splits)
    then show ?thesis using assms(1) P by blast
  qed
  have more: "P (snd (acquire ttl sch (a + 1) n (snd (tryTakeoverStale ttl now ?d))))" for now
    using Suc.IH assms(1) [OF same_records_takeover P] by blast
  show ?case using opened more by (auto simp: Let_def split: option.split)
qed simp

lemma withLock_keeps:
  assumes "\<And>d d'. same_records d d' \<Longrightarrow> P d \<Longrightarrow> P d'" "\<And>a d. P d \<Longrightarrow> P (ls_others sch a d)"
    and "\<And>d. P d \<Longrightarrow> P (snd (run d))" "P d"
  shows "P (snd (withLock cfg sch run d))"
proof -
  obtain out d' where w: "withLock cfg sch run d = (out, d')" by (cases "withLock cfg sch run d")
  then have "P d'"
  proof (cases rule: withLock_cases)
    case busy
    then show ?thesis using acquire_keeps [of P sch] assms by simp
  next
    case (ran d0 d1 token)
    have "P d0" using ran(3) acquire_keeps [of P sch] assms by simp
    then have "P d1" using assms(3) ran(1) by (metis snd_conv)
    then show ?thesis using assms(1) ran(2) same_records_release by blast
  qed
  then show ?thesis by (simp add: w)
qed

text \<open>Every record file holds a machine that a run of the reducer can be in.\<close>

definition machines_ok :: "disk \<Rightarrow> bool" where
  "machines_ok d \<longleftrightarrow> (\<forall>n f r. map_of d (Operation_path n) = Some f \<longrightarrow> fi_content f = Record r \<longrightarrow>
     machine_inv (po_machine r))"

lemma machines_ok_same: "same_records d d' \<Longrightarrow> machines_ok d \<Longrightarrow> machines_ok d'"
  by (simp add: machines_ok_def same_records_def)

lemma readRecord_SomeD:
  "readRecord d n = Some r \<Longrightarrow> \<exists>f. map_of d (Operation_path n) = Some f \<and> fi_content f = Record r"
  by (auto simp: readRecord_def dest: parseRecord_SomeD split: option.splits)

lemma machines_ok_read: "machines_ok d \<Longrightarrow> store_read d ident = Inr (Some r) \<Longrightarrow> machine_inv (po_machine r)"
  by (auto simp: store_read_def read_named_def corrupt_def machines_ok_def ok_def
      split: sum.splits option.splits if_splits dest!: readRecord_SomeD)

lemma machines_ok_write:
  assumes "machines_ok d" "machine_inv (po_machine r)"
  shows "machines_ok (snd (store_write cfg r d))"
proof (cases "operationFileName (po_id r)")
  case (Inl e)
  then show ?thesis using assms by (simp add: store_write_def Let_def)
next
  case (Inr name)
  then show ?thesis using assms
    by (auto simp: store_write_def Let_def machines_ok_def map_of_written split: option.splits if_splits)
qed

lemma machines_ok_cas_run:
  assumes "machines_ok d" "machine_inv (po_machine nxt)"
  shows "machines_ok (snd (compareAndSwap_run cfg ident revn nxt d))"
proof -
  have "machines_ok d'" if "store_write cfg (merge_owned c nxt) d = (out, d')" for c out d'
    using machines_ok_write [OF assms(1), of "merge_owned c nxt" cfg] assms(2) that by simp
  then show ?thesis using assms(1)
    by (auto simp: compareAndSwap_run_def split: sum.split option.split prod.split)
qed

lemma machines_ok_own_run:
  assumes "machines_ok d"
  shows "machines_ok (snd (recordOwned_run cfg ident ids d))"
proof (cases "\<exists>c. store_read d ident = Inr (Some c)")
  case True
  then obtain c where c: "store_read d ident = Inr (Some c)" by blast
  let ?next = "c\<lparr>po_owned_resource_ids := js_unique (po_owned_resource_ids c @ ids)\<rparr>"
  have "machines_ok (snd (store_write cfg ?next d))"
    using machines_ok_write [OF assms, of ?next] machines_ok_read [OF assms c] by simp
  then show ?thesis using c assms
    by (cases "store_write cfg ?next d") (auto simp: recordOwned_run_def Let_def split: sum.split)
qed (use assms in \<open>auto simp: recordOwned_run_def split: sum.split option.split\<close>)

lemma machines_ok_create_run:
  assumes "machines_ok d"
  shows "machines_ok (snd (createOrGet_run cfg e input dg fu ro d))"
proof -
  let ?r = "fresh_record cfg e input dg fu ro"
  have "machine_inv (po_machine ?r)" by (simp add: fresh_record_def machine_inv_start)
  have "machines_ok d'" if "store_write cfg ?r d = (out, d')" for out d'
    using machines_ok_write [OF assms \<open>machine_inv (po_machine ?r)\<close>, of cfg] that by simp
  then show ?thesis using assms
    by (auto simp: createOrGet_run_def split: sum.split option.split prod.split)
qed

text \<open>The rely: what the other cores do keeps the records' machines.\<close>

definition others_keep_machines :: "lock_schedule \<Rightarrow> bool" where
  "others_keep_machines sch \<longleftrightarrow> (\<forall>a d. machines_ok d \<longrightarrow> machines_ok (ls_others sch a d))"

lemma machines_ok_locked:
  assumes "others_keep_machines sch" "machines_ok d" "\<And>d. machines_ok d \<Longrightarrow> machines_ok (snd (run d))"
  shows "machines_ok (snd (withLock cfg sch run d))"
  using assms by (intro withLock_keeps [of machines_ok]) (auto simp: others_keep_machines_def machines_ok_same)

end
