(* ===== verification/Store_Props.thy ===== *)
theory Store_Props
  imports Store_Files
begin

text \<open>
  What the operation store promises: a copy survives an interrupted write, a commit lands only on the
  revision it was computed from, ownership only grows, a retried request finds its operation, and one
  environment is not begun on twice.
\<close>

section \<open>The listing\<close>

lemma readdir_iff: "n \<in> set (readdir_operations d) \<longleftrightarrow> fs_exists d (Operation_path n)"
proof -
  have "n \<in> set (readdir_operations d) \<longleftrightarrow> Operation_path n \<in> fst ` set d"
    by (force simp: readdir_operations_def split: store_path.splits)
  then show ?thesis by (auto simp: fs_exists_def map_of_eq_None_iff)
qed

lemma ends_with_append [simp]: "ends_with (s @ t) t"
  by (simp add: ends_with_def)

lemma ends_withD: "ends_with s t \<Longrightarrow> \<exists>u. s = u @ t"
  by (metis append_take_drop_id ends_with_def)

lemma ends_with_json: "ends_with s ''.json'' \<Longrightarrow> json_name s"
  by (auto dest!: ends_withD simp: json_name_def)

lemma set_base_names:
  "n \<in> set (base_names (readdir_operations d)) \<longleftrightarrow>
     ends_with n ''.json'' \<and> (fs_exists d (Operation_path n) \<or> fs_exists d (Operation_path (bak n)))"
proof -
  have bak: "ends_with m ''.json.bak'' \<longleftrightarrow> (\<exists>n. m = bak n \<and> ends_with n ''.json'')" for m
  proof
    assume "ends_with m ''.json.bak''"
    then obtain u where "m = u @ ''.json.bak''" by (auto dest: ends_withD)
    then show "\<exists>n. m = bak n \<and> ends_with n ''.json''"
      by (intro exI [of _ "u @ ''.json''"]) (simp add: bak_def)
  next
    assume "\<exists>n. m = bak n \<and> ends_with n ''.json''"
    then obtain u where "m = (u @ ''.json'') @ ''.bak''" by (auto simp: bak_def dest: ends_withD)
    then have "m = u @ ''.json.bak''" by simp
    then show "ends_with m ''.json.bak''" by (simp only: ends_with_append)
  qed
  have excl: "\<not> ends_with (bak n) ''.json''" for n
    by (metis bak_tmp_self ends_with_json json_name_bak(1))
  have take: "take (length (bak n) - 4) (bak n) = n" for n by (simp add: bak_def)
  have entry: "n \<in> set (if ends_with m ''.json'' then [m]
        else if ends_with m ''.json.bak'' then [take (length m - 4) m] else []) \<longleftrightarrow>
      ends_with n ''.json'' \<and> (m = n \<or> m = bak n)" for m
    using bak [of m] excl by (auto simp: take)
  show ?thesis
    unfolding base_names_def set_js_unique set_concat set_map UN_iff bex_simps entry
    by (auto simp: readdir_iff)
qed

text \<open>The record a base name stands for, as \<open>all\<close> reads it.\<close>

definition read_entry :: "disk \<Rightarrow> string \<Rightarrow> persisted_operation option" where
  "read_entry d n = (case readRecord d n of Some r \<Rightarrow> Some r | None \<Rightarrow> readRecord d (bak n))"

lemma read_all_iff: "read_all d ns = Inr rs \<longleftrightarrow> map (read_entry d) ns = map Some rs"
proof (induction ns arbitrary: rs)
  case (Cons n ns)
  show ?case
  proof (cases "read_entry d n")
    case None
    then show ?thesis by (cases rs) (auto simp: read_entry_def corrupt_def err_def split: option.splits)
  next
    case (Some r)
    then have "read_all d (n # ns) = (case read_all d ns of Inl e \<Rightarrow> Inl e | Inr rs \<Rightarrow> ok (r # rs))"
      by (auto simp: read_entry_def split: option.splits sum.split)
    then show ?thesis using Some Cons.IH [of "tl rs"]
      by (cases rs; cases "read_all d ns") auto
  qed
qed (auto simp: ok_def)

lemma store_all_set:
  "store_all d = Inr rs \<Longrightarrow>
   r \<in> set rs \<longleftrightarrow> (\<exists>n. ends_with n ''.json'' \<and> read_entry d n = Some r)"
proof -
  assume "store_all d = Inr rs"
  then have m: "map (read_entry d) (base_names (readdir_operations d)) = map Some rs"
    by (simp add: store_all_def read_all_iff)
  have "r \<in> set rs \<longleftrightarrow> Some r \<in> set (map Some rs)" by auto
  also have "\<dots> \<longleftrightarrow> (\<exists>n \<in> set (base_names (readdir_operations d)). read_entry d n = Some r)"
    by (simp only: m [symmetric]) (auto simp: eq_commute)
  finally have "r \<in> set rs \<longleftrightarrow> (\<exists>n \<in> set (base_names (readdir_operations d)). read_entry d n = Some r)" .
  moreover have "fs_exists d (Operation_path n) \<or> fs_exists d (Operation_path (bak n))"
    if "read_entry d n = Some r" for n
    using that by (auto simp: read_entry_def readRecord_def fs_exists_def split: option.splits)
  ultimately show ?thesis by (auto simp: set_base_names)
qed

lemma store_all_ok:
  "(\<exists>rs. store_all d = Inr rs) \<longleftrightarrow>
   (\<forall>n. ends_with n ''.json'' \<longrightarrow> fs_exists d (Operation_path n) \<or> fs_exists d (Operation_path (bak n)) \<longrightarrow>
      read_entry d n \<noteq> None)"
proof -
  have "(\<exists>rs. map f xs = map Some rs) \<longleftrightarrow> (\<forall>x \<in> set xs. f x \<noteq> None)" for f :: "string \<Rightarrow> 'b option" and xs
  proof (induction xs)
    case (Cons x xs)
    then show ?case by (cases "f x") (auto simp: Cons_eq_map_conv)
  qed simp
  from this [of "read_entry d" "base_names (readdir_operations d)"] show ?thesis
    by (simp only: store_all_def read_all_iff) (auto simp: set_base_names)
qed

lemma store_read_entry:
  "operationFileName ident = Inr n \<Longrightarrow> store_read d ident = Inr (Some r) \<longleftrightarrow> read_entry d n = Some r"
  by (auto simp: store_read_def read_named_def read_entry_def corrupt_def split: option.split)

section \<open>Interrupted writes\<close>

lemma files_after_crash:
  assumes "write_crash cfg r d d'" "operationFileName (po_id r) = Inr name" "p \<noteq> Operation_path (tmp name)"
    "p \<noteq> Operation_path name" "p \<noteq> Operation_path (bak name)"
  shows "map_of d' p = map_of d p"
  using assms
  by (induction rule: write_crash.induct)
    (auto simp: map_of_written map_of_keep_previous map_of_write_tmp split: option.split)

lemma read_other_after_crash:
  assumes "write_crash cfg r d d'" "ident \<noteq> po_id r"
  shows "store_read d' ident = store_read d ident"
proof (rule store_read_cong)
  fix name assume name: "operationFileName ident = Inr name"
  show "map_of d' (Operation_path name) = map_of d (Operation_path name) \<and>
      map_of d' (Operation_path (bak name)) = map_of d (Operation_path (bak name))"
  proof (cases "operationFileName (po_id r)")
    case (Inl e)
    with assms(1) have "d' = d" by (cases rule: write_crash.cases) auto
    then show ?thesis by simp
  next
    case (Inr n)
    note files = files_after_crash [OF assms(1) Inr]
    show ?thesis
      using other_names [OF Inr name] assms(2) json_nameI [OF name] json_nameI [OF Inr]
      by (intro conjI files) auto
  qed
qed

definition torn_main :: "disk \<Rightarrow> string \<Rightarrow> bool" where
  "torn_main d ident \<longleftrightarrow> (\<exists>name. operationFileName ident = Inr name \<and>
     fs_exists d (Operation_path name) \<and> readRecord d name = None)"

lemma read_after_crash:
  assumes "write_crash cfg r d d'" "storable r" "\<not> torn_main d (po_id r)"
  shows "store_read d' (po_id r) \<in> {store_read d (po_id r), Inr (Some (stamp cfg r))} \<and>
    (\<forall>other. other \<noteq> po_id r \<longrightarrow> store_read d' other = store_read d other)"
proof
  show "\<forall>other. other \<noteq> po_id r \<longrightarrow> store_read d' other = store_read d other"
    using read_other_after_crash [OF assms(1)] by blast
  show "store_read d' (po_id r) \<in> {store_read d (po_id r), Inr (Some (stamp cfg r))}"
    using assms(1)
  proof (cases rule: write_crash.cases)
    case (crash_kept name)
    then show ?thesis using assms(3)
      by (auto simp: torn_main_def store_read_def read_named_def readRecord_def fs_exists_def
          map_of_keep_previous map_of_write_tmp split: option.split)
  next
    case (crash_swapped name)
    then have "store_write cfg r d = (Inr (stamp cfg r), d')" by (simp add: store_write_def Let_def ok_def)
    then show ?thesis using read_after_write assms(2) by blast
  qed (auto simp: map_of_write_tmp intro!: store_read_cong)
qed

text \<open>
  A write that is interrupted at any point, torn bytes of the new file included, leaves the
  operation readable as it was or as it was going to be, and every other operation as it was, as long
  as the record file itself was not already torn.
\<close>

theorem interrupted_write_leaves_a_copy:
  assumes "write_crash cfg r d d'" "storable r" "\<not> torn_main d (po_id r)"
  shows "store_read d' (po_id r) \<in> {store_read d (po_id r), Inr (Some (stamp cfg r))} \<and>
    (\<forall>other. other \<noteq> po_id r \<longrightarrow> store_read d' other = store_read d other)"
  by (rule read_after_crash [OF assms])

text \<open>
  The only good copy can still be lost: when the record file is torn and the previous record is the
  copy that is read, the next write moves the torn file over that copy before the new one is in place,
  and a crash in between leaves an operation that cannot be read at all.
\<close>

theorem torn_record_then_crash_loses_both:
  assumes "operationFileName (po_id r) = Inr name"
    and "map_of d (Operation_path name) = Some \<lparr>fi_content = Plain_text t, fi_mtime = m\<rparr>"
    and "readRecord d (bak name) = Some old"
  shows "store_read d (po_id r) = Inr (Some old) \<and>
    (\<exists>d'. write_crash cfg r d d' \<and> store_read d' (po_id r) = corrupt (po_id r))"
proof
  show "store_read d (po_id r) = Inr (Some old)"
    using assms by (simp add: store_read_def read_named_def readRecord_def [of d name] parseRecord_def)
  let ?d = "keep_previous name (write_tmp cfg name (stamp cfg r) d)"
  have "store_read ?d (po_id r) = corrupt (po_id r)"
    using assms(1,2)
    by (simp add: store_read_def read_named_def readRecord_def fs_exists_def parseRecord_def
        map_of_keep_previous map_of_write_tmp)
  then show "\<exists>d'. write_crash cfg r d d' \<and> store_read d' (po_id r) = corrupt (po_id r)"
    using crash_kept [OF assms(1)] by blast
qed

section \<open>Commits\<close>

text \<open>
  C9.  A commit lands exactly when the stored record still has the revision it was computed from; the
  record is then the committed one, stamped with this core's identity and keeping everything recorded
  as owned; otherwise nothing is written.
\<close>

theorem commit_lands_on_its_revision:
  assumes "store_read d ident = Inr (Some current)" "po_id nxt = ident" "storable nxt"
  shows "if po_revision current = revn
    then \<exists>d'. compareAndSwap_run cfg ident revn nxt d = (Inr True, d') \<and>
      store_read d' ident = Inr (Some (stamp cfg (merge_owned current nxt))) \<and>
      (\<forall>other. other \<noteq> ident \<longrightarrow> store_read d' other = store_read d other)
    else compareAndSwap_run cfg ident revn nxt d = (Inr False, d)"
proof (cases "po_revision current = revn")
  case True
  then obtain d' where d': "compareAndSwap_run cfg ident revn nxt d = (Inr True, d')"
      "store_read d' ident = Inr (Some (stamp cfg (merge_owned current nxt)))"
    using op_store.cas_commits [OF assms(1) True assms(2,3)] by blast
  then show ?thesis using True op_store.cas_others [of _ ident cfg revn nxt d] by auto
next
  case False
  then show ?thesis using op_store.cas_moved [OF assms(1) False] by simp
qed

text \<open>
  Two writers that computed from the same revision cannot both commit: once the first has moved the
  revision, the second is told it lost and changes nothing.
\<close>

theorem second_writer_loses:
  assumes "compareAndSwap_run cfg ident revn first d = (Inr True, d')"
    and "storable first" "po_id first = ident" "po_revision first \<noteq> revn"
  shows "compareAndSwap_run cfg2 ident revn second d' = (Inr False, d')"
proof -
  obtain current where current: "store_read d ident = Inr (Some current)" "po_revision current = revn"
    using op_store.cas_true_iff [OF assms(2,3), of cfg revn d] assms(1) by auto
  have "store_read d' ident = Inr (Some (stamp cfg (merge_owned current first)))"
    using op_store.cas_commits [OF current assms(3,2), of cfg] assms(1) by auto
  then show ?thesis by (rule op_store.cas_moved) (simp add: assms(4))
qed

section \<open>Beginning an operation\<close>

lemma ends_with_name: "operationFileName ident = Inr n \<Longrightarrow> ends_with n ''.json''"
  using operationFileName_Inr by fastforce

text \<open>What a write of an operation the directory does not hold yet does to the listing.\<close>

lemma entry_after_new:
  assumes "store_write cfg r d = (Inr s, d')" "storable r" "ends_with n ''.json''"
    and "operationFileName (po_id r) = Inr name"
  shows "read_entry d' n = (if n = name then Some (stamp cfg r) else read_entry d n)"
    "n \<noteq> name \<Longrightarrow> fs_exists d' (Operation_path n) = fs_exists d (Operation_path n)"
    "n \<noteq> name \<Longrightarrow> fs_exists d' (Operation_path (bak n)) = fs_exists d (Operation_path (bak n))"
proof -
  have d': "d' = swap_in name (keep_previous name (write_tmp cfg name (stamp cfg r) d))"
    using store_write_cases [OF assms(1)] assms(4) by auto
  note n = ends_with_json [OF assms(3)] and nm = json_nameI [OF assms(4)]
  show "read_entry d' n = (if n = name then Some (stamp cfg r) else read_entry d n)"
  proof (cases "n = name")
    case True
    then show ?thesis using assms(2) by (simp add: read_entry_def readRecord_def d' map_of_written)
  next
    case False
    then have "readRecord d' n = readRecord d n" "readRecord d' (bak n) = readRecord d (bak n)"
      using n nm by (simp_all add: readRecord_def d' map_of_written)
    then show ?thesis using False by (simp add: read_entry_def split: option.split)
  qed
  show "n \<noteq> name \<Longrightarrow> fs_exists d' (Operation_path n) = fs_exists d (Operation_path n)"
    "n \<noteq> name \<Longrightarrow> fs_exists d' (Operation_path (bak n)) = fs_exists d (Operation_path (bak n))"
    using n nm by (auto simp: fs_exists_def d' map_of_written)
qed

lemma listing_after_new:
  assumes "store_all d = Inr rs" "store_write cfg r d = (Inr s, d')" "storable r"
    and "store_read d (po_id r) = Inr None"
  shows "\<exists>rs'. store_all d' = Inr rs' \<and> set rs' = insert (stamp cfg r) (set rs)"
proof -
  obtain name where name: "operationFileName (po_id r) = Inr name"
    using store_write_cases [OF assms(2)] by auto
  note entry = entry_after_new [OF assms(2,3) _ name]
  have none: "read_entry d name = None"
    using assms(4) store_read_entry [OF name, of d] by (cases "read_entry d name") auto
  have "\<exists>rs'. store_all d' = Inr rs'"
    unfolding store_all_ok using assms(1) store_all_ok [of d] entry by (metis option.distinct(1))
  then obtain rs' where rs': "store_all d' = Inr rs'" by blast
  have "x \<in> set rs' \<longleftrightarrow> x = stamp cfg r \<or> x \<in> set rs" for x
    unfolding store_all_set [OF rs'] store_all_set [OF assms(1)]
    using entry(1) none ends_with_name [OF name] by (metis option.distinct(1) option.inject)
  then show ?thesis using rs' by blast
qed

lemma storable_fresh [simp]: "storable (fresh_record cfg e input dg fu ro)"
  by (simp add: storable_def fresh_record_def startOperation_def Let_def)

lemma fresh_record_simps [simp]:
  "po_request (fresh_record cfg e input dg fu ro) = input"
  "po_request_digest (fresh_record cfg e input dg fu ro) = dg"
  "po_id (fresh_record cfg e input dg fu ro) = cf_newOperationId cfg"
  "op_environment_id (po_operation (fresh_record cfg e input dg fu ro)) = e"
  "po_phase (fresh_record cfg e input dg fu ro) = Checking"
  by (simp_all add: fresh_record_def startOperation_def start_of_def Let_def)

definition new_id_free :: "store_config \<Rightarrow> disk \<Rightarrow> bool" where
  "new_id_free cfg d \<longleftrightarrow> store_read d (cf_newOperationId cfg) = Inr None"

lemma createOrGet_cases:
  assumes "createOrGet_run cfg e input dg fu ro d = (Inr c, d')"
  obtains (found) rs where "store_all d = Inr rs" "d' = d" "cg_created c = False" "cg_record c \<in> set rs"
      "find (\<lambda>r. bo_request_id (po_request r) = bo_request_id input) rs = Some (cg_record c)"
      "po_request_digest (cg_record c) = dg"
  | (new) rs where "store_all d = Inr rs" "cg_created c = True"
      "find (\<lambda>r. bo_request_id (po_request r) = bo_request_id input) rs = None"
      "find (\<lambda>r. op_environment_id (po_operation r) = e \<and> \<not> finished r) rs = None"
      "store_write cfg (fresh_record cfg e input dg fu ro) d = (Inr (cg_record c), d')"
      "cg_record c = stamp cfg (fresh_record cfg e input dg fu ro)"
proof -
  obtain rs where rs: "store_all d = Inr rs"
    using assms by (cases "store_all d") (auto simp: createOrGet_run_def)
  show thesis
  proof (cases "find (\<lambda>r. bo_request_id (po_request r) = bo_request_id input) rs")
    case (Some r)
    then show thesis using assms rs found [of rs] find_SomeD [OF Some]
      by (auto simp: createOrGet_run_def ok_def split: if_splits)
  next
    case None
    obtain out dw where w: "store_write cfg (fresh_record cfg e input dg fu ro) d = (out, dw)"
      by (cases "store_write cfg (fresh_record cfg e input dg fu ro) d")
    show thesis using assms rs None w new [of rs] store_write_cases [OF w]
      by (auto simp: createOrGet_run_def ok_def split: option.splits)
  qed
qed

text \<open>
  A retried request is the same operation: once \<open>createOrGet\<close> has answered a request, asking again with
  the same request id and digest answers that record and writes nothing, and the same id with another
  digest is refused with \<open>MANAGED_OPERATION_CONFLICT\<close>.
\<close>

theorem retried_begin_is_the_same_operation:
  assumes "createOrGet_run cfg e input dg fu ro d = (Inr c, d')" "new_id_free cfg d"
    and "bo_request_id again = bo_request_id input"
  shows "createOrGet_run cfg2 e2 again dg fu2 ro2 d' = (Inr \<lparr>cg_record = cg_record c, cg_created = False\<rparr>, d') \<and>
    (dg2 \<noteq> dg \<longrightarrow> (\<exists>err. createOrGet_run cfg2 e2 again dg2 fu2 ro2 d' = (Inl err, d') \<and>
       err_code err = ''MANAGED_OPERATION_CONFLICT''))"
proof -
  let ?P = "\<lambda>r. bo_request_id (po_request r) = bo_request_id input"
  from assms(1) have "\<exists>rs. store_all d' = Inr rs \<and> find ?P rs = Some (cg_record c) \<and>
      po_request_digest (cg_record c) = dg"
  proof (cases rule: createOrGet_cases)
    case (found rs)
    then show ?thesis by auto
  next
    case (new rs)
    from listing_after_new [OF new(1,5)] assms(2)
    obtain rs' where rs': "store_all d' = Inr rs'" "set rs' = insert (cg_record c) (set rs)"
      using new(6) by (auto simp: new_id_free_def)
    obtain r where r: "find ?P rs' = Some r"
      using rs'(2) new(6) find_NoneD [of ?P rs' "cg_record c"] by (cases "find ?P rs'") auto
    then have "r = cg_record c" using find_SomeD [OF r] rs'(2) find_NoneD [OF new(3)] by auto
    then show ?thesis using rs' r new(6) by auto
  qed
  then show ?thesis using assms(3) by (auto simp: createOrGet_run_def ok_def)
qed

text \<open>
  C10.  A new operation is begun only on an idle environment: when \<open>createOrGet\<close> creates one, no operation in
  the store is unfinished on that environment, and the new one is the only one afterwards.
\<close>

theorem begins_only_on_an_idle_environment:
  assumes "createOrGet_run cfg e input dg fu ro d = (Inr c, d')" "cg_created c" "new_id_free cfg d"
  shows "\<exists>rs rs'. store_all d = Inr rs \<and> store_all d' = Inr rs' \<and>
    {r \<in> set rs. op_environment_id (po_operation r) = e \<and> \<not> finished r} = {} \<and>
    {r \<in> set rs'. op_environment_id (po_operation r) = e \<and> \<not> finished r} = {cg_record c}"
  using assms(1)
proof (cases rule: createOrGet_cases)
  case (new rs)
  from listing_after_new [OF new(1,5)] assms(3)
  obtain rs' where "store_all d' = Inr rs'" "set rs' = insert (cg_record c) (set rs)"
    using new(6) by (auto simp: new_id_free_def)
  then show ?thesis using new find_NoneD [OF new(4)] by (intro exI [of _ rs] exI [of _ rs']) auto
qed (use assms(2) in simp)

end
