(* ===== verification/Store_Runs.thy ===== *)
theory Store_Runs
  imports Store_Props
begin

text \<open>
  Histories of the store: any sequence of begins, commits and ownership records by any cores, each of
  them possibly cut short by a crash inside its write.  A fresh operation id is one no record has.
\<close>

section \<open>Calls and crashes\<close>

inductive store_call :: "disk \<Rightarrow> disk \<Rightarrow> bool" where
  call_begin: "new_id_free cfg d \<Longrightarrow>
    store_call d (snd (createOrGet_run cfg e input dg fu ro d))"
| call_begin_crash: "new_id_free cfg d \<Longrightarrow> write_crash cfg (fresh_record cfg e input dg fu ro) d d' \<Longrightarrow>
    store_call d d'"
| call_commit: "storable nxt \<Longrightarrow> store_call d (snd (compareAndSwap_run cfg ident revn nxt d))"
| call_commit_crash: "store_read d (po_id nxt) = Inr (Some current) \<Longrightarrow> storable nxt \<Longrightarrow>
    write_crash cfg (merge_owned current nxt) d d' \<Longrightarrow> store_call d d'"
| call_own: "store_call d (snd (recordOwned_run cfg ident ids d))"
| call_own_crash: "store_read d ident = Inr (Some current) \<Longrightarrow>
    write_crash cfg (current\<lparr>po_owned_resource_ids := js_unique (po_owned_resource_ids current @ ids)\<rparr>) d d' \<Longrightarrow>
    store_call d d'"

text \<open>Every copy of a record the store keeps is whole, is filed under its own id and lists a resource once.\<close>

definition good_copy :: "string \<Rightarrow> store_file \<Rightarrow> bool" where
  "good_copy ident f \<longleftrightarrow> (\<exists>r. fi_content f = Record r \<and> storable r \<and> po_id r = ident \<and>
     distinct (po_owned_resource_ids r))"

definition store_ok :: "disk \<Rightarrow> bool" where
  "store_ok d \<longleftrightarrow> (\<forall>ident name n f. operationFileName ident = Inr name \<longrightarrow> n \<in> {name, bak name} \<longrightarrow>
     map_of d (Operation_path n) = Some f \<longrightarrow> good_copy ident f)"

lemma store_okD:
  "store_ok d \<Longrightarrow> operationFileName ident = Inr name \<Longrightarrow> n \<in> {name, bak name} \<Longrightarrow>
   map_of d (Operation_path n) = Some f \<Longrightarrow> good_copy ident f"
  unfolding store_ok_def by blast

lemma readRecord_good: "map_of d (Operation_path n) = Some f \<Longrightarrow> good_copy ident f \<Longrightarrow>
   \<exists>r. readRecord d n = Some r \<and> fi_content f = Record r \<and> storable r \<and> po_id r = ident \<and>
     distinct (po_owned_resource_ids r)"
  by (auto simp: readRecord_def good_copy_def)

lemma store_ok_read:
  assumes "store_ok d" "operationFileName ident = Inr name"
  shows "store_read d ident = Inr None \<or>
    (\<exists>r. store_read d ident = Inr (Some r) \<and> storable r \<and> po_id r = ident \<and> distinct (po_owned_resource_ids r))"
proof (cases "map_of d (Operation_path name)")
  case (Some f)
  then have "good_copy ident f" using store_okD [OF assms, of name f] by simp
  from readRecord_good [OF Some this] show ?thesis
    using assms(2) by (auto simp: store_read_def read_named_def)
next
  case None
  then have main: "readRecord d name = None" by (simp add: readRecord_def)
  show ?thesis
  proof (cases "map_of d (Operation_path (bak name))")
    case (Some f)
    then have "good_copy ident f" using store_okD [OF assms, of "bak name" f] by simp
    from readRecord_good [OF Some this] main show ?thesis
      using assms(2) by (auto simp: store_read_def read_named_def)
  next
    case bak: None
    then have "readRecord d (bak name) = None" by (simp add: readRecord_def)
    then show ?thesis
      using main None bak assms(2) by (simp add: store_read_def read_named_def fs_exists_def)
  qed
qed

lemma store_ok_record:
  assumes "store_ok d" "store_read d ident = Inr (Some r)"
  shows "storable r \<and> po_id r = ident \<and> distinct (po_owned_resource_ids r)"
  using read_encodes [OF assms(2)] store_ok_read [OF assms(1)] assms(2) by fastforce

lemma store_ok_not_torn: "store_ok d \<Longrightarrow> \<not> torn_main d ident"
  using readRecord_good store_okD by (fastforce simp: torn_main_def fs_exists_def)

lemma store_ok_crash:
  assumes "store_ok d" "write_crash cfg r d d'" "storable r" "distinct (po_owned_resource_ids r)"
  shows "store_ok d'"
  unfolding store_ok_def
proof (intro allI impI)
  fix ident name n f
  assume name: "operationFileName ident = Inr name" and n: "n \<in> {name, bak name}"
    and f: "map_of d' (Operation_path n) = Some f"
  have new: "good_copy (po_id r) \<lparr>fi_content = Record (stamp cfg r), fi_mtime = m\<rparr>" for m
    using assms(3,4) by (simp add: good_copy_def)
  note old = store_okD [OF assms(1)]
  show "good_copy ident f"
  proof (cases "ident = po_id r")
    case True
    from assms(2) show ?thesis
      by (cases rule: write_crash.cases)
        (use True name n f new old [of "po_id r" name] json_nameI [OF name] in
          \<open>auto simp: map_of_written map_of_keep_previous map_of_write_tmp split: option.splits if_splits\<close>)
  next
    case False
    show ?thesis
    proof (cases "operationFileName (po_id r)")
      case (Inl e)
      with assms(2) have "d' = d" by (cases rule: write_crash.cases) auto
      then show ?thesis using old name n f by blast
    next
      case (Inr m)
      have "map_of d' (Operation_path n) = map_of d (Operation_path n)"
        using other_names [OF Inr name] False json_nameI [OF name] json_nameI [OF Inr] n
        by (intro files_after_crash [OF assms(2) Inr]) auto
      then show ?thesis using old name n f by auto
    qed
  qed
qed

lemma store_ok_write:
  assumes "store_ok d" "store_write cfg r d = (out, d')" "storable r" "distinct (po_owned_resource_ids r)"
  shows "store_ok d'"
  using store_write_cases [OF assms(2)] assms store_ok_crash crash_swapped by blast

section \<open>The invariant\<close>

lemma store_ok_call:
  assumes "store_ok d" "store_call d d'"
  shows "store_ok d'"
  using assms(2,1)
proof (induction rule: store_call.induct)
  case (call_begin cfg d e input dg fu ro)
  then show ?case
    using store_ok_write [of d cfg "fresh_record cfg e input dg fu ro"]
    by (auto simp: createOrGet_run_def fresh_record_def [of cfg e input dg fu ro] storable_def
        startOperation_def Let_def split: sum.split option.split prod.split)
next
  case (call_begin_crash cfg d e input dg fu ro d')
  show ?case
    by (rule store_ok_crash [OF call_begin_crash(3,2)]) (simp_all add: fresh_record_def storable_def startOperation_def Let_def)
next
  case (call_commit nxt d cfg ident revn)
  then show ?case
    using store_ok_write [of d cfg "merge_owned _ nxt"]
    by (auto simp: compareAndSwap_run_def merge_owned_def storable_def split: sum.split option.split prod.split)
next
  case (call_commit_crash d nxt current cfg d')
  show ?case
    by (rule store_ok_crash [OF call_commit_crash(4,3)])
      (use call_commit_crash(2) in \<open>simp_all add: merge_owned_def storable_def\<close>)
next
  case (call_own d cfg ident ids)
  show ?case
  proof (cases "\<exists>current. store_read d ident = Inr (Some current)")
    case True
    then obtain current where c: "store_read d ident = Inr (Some current)" by blast
    let ?next = "current\<lparr>po_owned_resource_ids := js_unique (po_owned_resource_ids current @ ids)\<rparr>"
    obtain out d' where w: "store_write cfg ?next d = (out, d')" by (cases "store_write cfg ?next d")
    have "store_ok d'" by (rule store_ok_write [OF call_own w])
        (use store_ok_record [OF call_own c] in \<open>simp_all add: storable_def\<close>)
    then show ?thesis using c w call_own by (auto simp: recordOwned_run_def Let_def split: sum.split)
  qed (use call_own in \<open>auto simp: recordOwned_run_def split: sum.split option.split\<close>)
next
  case (call_own_crash d ident current cfg ids d')
  show ?case
    by (rule store_ok_crash [OF call_own_crash(3,2)])
      (use store_ok_record [OF call_own_crash(3,1)] in \<open>simp_all add: storable_def\<close>)
qed

interpretation store_runs: invariant_system "\<lambda>d. d = []" store_call store_ok
proof
  show "store_ok s" if "s = []" for s using that by (simp add: store_ok_def)
  show "store_ok t" if "store_ok s" "store_call s t" for s t using that store_ok_call by blast
qed

abbreviation store_reached :: "disk \<Rightarrow> bool" where
  "store_reached \<equiv> reached (\<lambda>d. d = []) store_call"

section \<open>Properties\<close>

text \<open>
  C8.  No history of calls and crashes leaves an operation unreadable: on every disk reached from an
  empty one, whatever writes were cut short, reading an operation answers its record or that there is
  none, and the record is filed under its own id.
\<close>

theorem no_history_tears_a_record:
  assumes "store_reached d" "operationFileName ident = Inr name"
  shows "store_read d ident = Inr None \<or> (\<exists>r. store_read d ident = Inr (Some r) \<and> po_id r = ident)"
  using store_ok_read [OF store_runs.reached_inv [OF assms(1)] assms(2)] by blast

lemma merge_owned_set [simp]:
  "set (po_owned_resource_ids (stamp cfg (merge_owned c n))) = set (po_owned_resource_ids c) \<union> set (po_owned_resource_ids n)"
  by simp

definition owns_more :: "disk \<Rightarrow> disk \<Rightarrow> bool" where
  "owns_more d d' \<longleftrightarrow> (\<forall>ident r. store_read d ident = Inr (Some r) \<longrightarrow>
     (\<exists>r'. store_read d' ident = Inr (Some r') \<and> set (po_owned_resource_ids r) \<subseteq> set (po_owned_resource_ids r')))"

lemma owns_more_refl [simp]: "owns_more d d"
  by (simp add: owns_more_def)

lemma owns_more_trans: "owns_more a b \<Longrightarrow> owns_more b c \<Longrightarrow> owns_more a c"
  unfolding owns_more_def by (meson order_trans)

text \<open>Every write of the store adds to what is owned, so no interrupted one loses any of it.\<close>

lemma owns_more_crash:
  assumes "store_ok d" "write_crash cfg r d d'" "storable r"
    and "store_read d (po_id r) = Inr None \<or> (\<exists>c. store_read d (po_id r) = Inr (Some c) \<and>
      set (po_owned_resource_ids c) \<subseteq> set (po_owned_resource_ids r))"
  shows "owns_more d d'"
  unfolding owns_more_def
proof (intro allI impI)
  fix ident c assume c: "store_read d ident = Inr (Some c)"
  note crash = read_after_crash [OF assms(2,3) store_ok_not_torn [OF assms(1)]]
  show "\<exists>r'. store_read d' ident = Inr (Some r') \<and> set (po_owned_resource_ids c) \<subseteq> set (po_owned_resource_ids r')"
  proof (cases "ident = po_id r")
    case True
    then show ?thesis using crash c assms(4) by auto
  next
    case False
    then show ?thesis using crash c by auto
  qed
qed

lemma owns_more_write:
  assumes "store_ok d" "store_write cfg r d = (out, d')" "storable r"
    and "store_read d (po_id r) = Inr None \<or> (\<exists>c. store_read d (po_id r) = Inr (Some c) \<and>
      set (po_owned_resource_ids c) \<subseteq> set (po_owned_resource_ids r))"
  shows "owns_more d d'"
  using store_write_cases [OF assms(2)] owns_more_crash [OF assms(1) _ assms(3,4)] crash_swapped by fastforce

lemma owns_more_call:
  assumes "store_ok d" "store_call d d'"
  shows "owns_more d d'"
  using assms(2,1)
proof (induction rule: store_call.induct)
  case (call_begin cfg d e input dg fu ro)
  let ?r = "fresh_record cfg e input dg fu ro"
  have w: "owns_more d d'" if "store_write cfg ?r d = (out, d')" for out d'
    using owns_more_write [OF call_begin(2) that] call_begin(1) by (simp add: new_id_free_def)
  show ?case
    by (auto simp: createOrGet_run_def intro: w split: sum.split option.split prod.split)
next
  case (call_begin_crash cfg d e input dg fu ro d')
  then show ?case using owns_more_crash [OF call_begin_crash(3,2)] by (simp add: new_id_free_def)
next
  case (call_commit nxt d cfg ident revn)
  have w: "owns_more d d'" if "store_read d ident = Inr (Some c)" "po_id nxt = ident"
      "store_write cfg (merge_owned c nxt) d = (out, d')" for c out d'
    using owns_more_write [OF call_commit(2) that(3)] call_commit(1) that by auto
  show ?case
    by (auto simp: compareAndSwap_run_def intro: w split: sum.split option.split prod.split)
next
  case (call_commit_crash d nxt current cfg d')
  then show ?case using owns_more_crash [OF call_commit_crash(4,3)] by auto
next
  case (call_own d cfg ident ids)
  have w: "owns_more d d'" if "store_read d ident = Inr (Some c)"
      "store_write cfg (c\<lparr>po_owned_resource_ids := js_unique (po_owned_resource_ids c @ ids)\<rparr>) d = (out, d')" for c out d'
    using owns_more_write [OF call_own that(2)] store_ok_record [OF call_own that(1)] that
    by (auto simp: storable_def)
  show ?case
    by (auto simp: recordOwned_run_def Let_def intro: w split: sum.split option.split prod.split)
next
  case (call_own_crash d ident current cfg ids d')
  then show ?case
    using owns_more_crash [OF call_own_crash(3,2)] store_ok_record [OF call_own_crash(3,1)]
    by (auto simp: storable_def)
qed


end
