(* ===== verification/Canonical_Json_Props.thy ===== *)
theory Canonical_Json_Props
  imports Canonical_Json
begin

text \<open>
  The canonical writer is a normal form: two values are written alike exactly when they agree up to the
  order of an object's entries and its \<open>undefined\<close> properties.  What the digests over it identify
  follows.
\<close>

section \<open>The value a text stands for\<close>

text \<open>\<open>normal\<close> sorts entries and drops \<open>undefined\<close> ones; \<open>print_value\<close> writes a normal value.\<close>

fun normal :: "js_value \<Rightarrow> js_value"
  and normal_items :: "js_value list \<Rightarrow> js_value list"
  and normal_entries :: "(string \<times> js_value) list \<Rightarrow> (string \<times> js_value) list" where
  "normal (J_array vs) = J_array (normal_items vs)"
| "normal (J_object es) = J_object (sort_key fst (normal_entries es))"
| "normal v = v"
| "normal_items [] = []"
| "normal_items (v # vs) = normal v # normal_items vs"
| "normal_entries [] = []"
| "normal_entries ((k, v) # es) =
     (if is_undefined v then normal_entries es else (k, normal v) # normal_entries es)"

fun print_value :: "js_value \<Rightarrow> string"
  and print_items :: "js_value list \<Rightarrow> string"
  and print_entries :: "(string \<times> js_value) list \<Rightarrow> string" where
  "print_value (J_bool b) = (if b then ''true'' else ''false'')"
| "print_value (J_string s) = stringify_string s"
| "print_value (J_number n) = (case n of Finite i \<Rightarrow> stringify_int i | _ \<Rightarrow> ''null'')"
| "print_value (J_array vs) = CHR ''['' # print_items vs"
| "print_value (J_object es) = CHR ''{'' # print_entries es"
| "print_value _ = ''null''"
| "print_items [] = '']''"
| "print_items (v # vs) =
     print_value v @ (if vs = [] then '']'' else CHR '','' # print_items vs)"
| "print_entries [] = ''}''"
| "print_entries ((k, v) # es) =
     stringify_string k @ CHR '':'' # print_value v @ (if es = [] then ''}'' else CHR '','' # print_entries es)"

fun representable :: "js_value \<Rightarrow> bool"
  and representable_items :: "js_value list \<Rightarrow> bool"
  and representable_entries :: "(string \<times> js_value) list \<Rightarrow> bool" where
  "representable J_null = True"
| "representable (J_bool b) = True"
| "representable (J_string s) = True"
| "representable (J_number n) = (case n of Finite i \<Rightarrow> True | _ \<Rightarrow> False)"
| "representable (J_array vs) = representable_items vs"
| "representable (J_object es) = representable_entries es"
| "representable _ = False"
| "representable_items [] = True"
| "representable_items (v # vs) = (representable v \<and> representable_items vs)"
| "representable_entries [] = True"
| "representable_entries ((k, v) # es) = (representable v \<and> representable_entries es)"

section \<open>Strings and numbers are read back\<close>

definition unhex_digit :: "char \<Rightarrow> nat" where
  "unhex_digit c = (let n = of_char c :: nat in if n < 58 then n - 48 else n - 87)"

lemma unhex_hex_digit [simp]: "n < 16 \<Longrightarrow> unhex_digit (hex_digit n) = n"
  by (auto simp: unhex_digit_def hex_digit_def Let_def)

text \<open>One character off an escaped text; \<^const>\<open>None\<close> at the closing quote.\<close>

fun read_char :: "string \<Rightarrow> (char \<times> string) option" where
  "read_char [] = None"
| "read_char (c # cs) =
     (if c = CHR 0x22 then None
      else if c \<noteq> CHR 0x5C then Some (c, cs)
      else case cs of
        [] \<Rightarrow> None
      | d # ds \<Rightarrow>
          if d = CHR ''b'' then Some (CHR 0x08, ds)
          else if d = CHR ''f'' then Some (CHR 0x0C, ds)
          else if d = CHR ''n'' then Some (CHR 0x0A, ds)
          else if d = CHR ''r'' then Some (CHR 0x0D, ds)
          else if d = CHR ''t'' then Some (CHR 0x09, ds)
          else if d = CHR ''u'' then
            Some (char_of (16 * unhex_digit (ds ! 2) + unhex_digit (ds ! 3)), drop 4 ds)
          else Some (d, ds))"

lemma read_escape [simp]: "read_char (escape_char c @ cs) = Some (c, cs)"
proof (cases "(of_char c :: nat) < 32")
  case True
  then have "(of_char c :: nat) div 16 < 16" "(of_char c :: nat) mod 16 < 16" by auto
  with True show ?thesis by (auto simp: escape_char_def Let_def)
qed (auto simp: escape_char_def Let_def)

lemma escape_char_inj: "escape_char c @ r = escape_char d @ r' \<Longrightarrow> c = d \<and> r = r'"
  by (metis read_escape option.inject prod.inject)

lemma quote_not_escape [simp]: "escape_char c @ r \<noteq> CHR 0x22 # r'" "CHR 0x22 # r' \<noteq> escape_char c @ r"
proof -
  have "read_char (CHR 0x22 # r') = None" by simp
  then show "escape_char c @ r \<noteq> CHR 0x22 # r'" using read_escape [of c r] by (metis option.distinct(1))
  then show "CHR 0x22 # r' \<noteq> escape_char c @ r" by metis
qed

lemma escaped_inj:
  "concat (map escape_char s) @ CHR 0x22 # r = concat (map escape_char t) @ CHR 0x22 # r' \<Longrightarrow>
   s = t \<and> r = r'"
proof (induction s arbitrary: t)
  case Nil
  then show ?case by (cases t) simp_all
next
  case (Cons c s)
  then obtain d t' where t: "t = d # t'" by (cases t) simp_all
  have "escape_char c @ concat (map escape_char s) @ CHR 0x22 # r =
      escape_char d @ concat (map escape_char t') @ CHR 0x22 # r'"
    using Cons.prems by (simp add: t)
  from escape_char_inj [OF this] Cons.IH [of t'] show ?case by (simp add: t)
qed

lemma stringify_inj: "stringify_string s @ r = stringify_string t @ r' \<Longrightarrow> s = t \<and> r = r'"
  using escaped_inj [of s r t r'] by (simp add: stringify_string_def)

text \<open>What may follow a value inside a text; no digit is among it.\<close>

definition delimited :: "string \<Rightarrow> bool" where
  "delimited r \<longleftrightarrow> r = [] \<or> hd r \<in> {CHR '','', CHR '']'', CHR ''}''}"

lemma delimited_no_digit: "delimited r \<Longrightarrow> takeWhile is_digit r = []"
  by (cases r) (auto simp: delimited_def is_digit_def)

lemma take_number: "delimited r \<Longrightarrow> takeWhile is_digit (show_nat n @ r) = show_nat n"
  using show_nat_digits by (subst takeWhile_append2) (auto simp: delimited_no_digit)

lemma show_nat_append_inj:
  assumes "show_nat m @ r = show_nat n @ r'" "delimited r" "delimited r'"
  shows "m = n \<and> r = r'"
proof -
  have "show_nat m = show_nat n" using take_number assms by metis
  with assms(1) show ?thesis using show_nat_inj by auto
qed

lemma show_nat_hd: "is_digit (hd (show_nat n))"
  using show_nat_digits [of "hd (show_nat n)" n] by (simp add: show_nat_nonempty)

lemma stringify_int_inj:
  assumes "stringify_int i @ r = stringify_int j @ r'" "delimited r" "delimited r'"
  shows "i = j \<and> r = r'"
proof -
  have "hd (show_nat n) \<noteq> CHR ''-''" for n
    using show_nat_hd [of n] by (auto simp: is_digit_def)
  then have minus: "CHR ''-'' # xs \<noteq> show_nat n @ ys" for n xs ys
    using show_nat_nonempty [of n] by (metis append_is_Nil_conv hd_append2 list.sel(1))
  have minus': "show_nat n @ ys \<noteq> CHR ''-'' # xs" for n xs ys using minus by metis
  have body: "nat a = nat b \<and> r = r'" if "show_nat (nat a) @ r = show_nat (nat b) @ r'" for a b
    using show_nat_append_inj [OF that assms(2,3)] .
  show ?thesis
  proof (cases "i < 0"; cases "j < 0")
    assume "i < 0" "j < 0"
    then show ?thesis using assms(1) body [of "- i" "- j"] by (auto simp: stringify_int_def)
  next
    assume "\<not> i < 0" "\<not> j < 0"
    then show ?thesis using assms(1) body [of i j] by (auto simp: stringify_int_def)
  qed (use assms(1) minus minus' in \<open>simp_all add: stringify_int_def\<close>)
qed

section \<open>The writer\<close>

text \<open>The first character says what kind of value follows.\<close>

definition lead :: "char \<Rightarrow> nat" where
  "lead c = (if c = CHR ''n'' then 0 else if c = CHR ''t'' then 1 else if c = CHR ''f'' then 2
     else if c = CHR 0x22 then 3 else if c = CHR ''['' then 4 else if c = CHR ''{'' then 5
     else if c = CHR ''-'' \<or> is_digit c then 6 else 7)"

fun value_lead :: "js_value \<Rightarrow> nat" where
  "value_lead (J_bool b) = (if b then 1 else 2)"
| "value_lead (J_string s) = 3"
| "value_lead (J_array vs) = 4"
| "value_lead (J_object es) = 5"
| "value_lead (J_number n) = (case n of Finite i \<Rightarrow> 6 | _ \<Rightarrow> 0)"
| "value_lead _ = 0"

lemma lead_digit: "is_digit c \<Longrightarrow> lead c = 6"
  by (auto simp: lead_def is_digit_def)

lemma lead_show_nat: "\<exists>c cs. show_nat n = c # cs \<and> lead c = 6"
  using show_nat_hd [of n] lead_digit show_nat_nonempty [of n] by (cases "show_nat n") auto

lemma print_lead: "representable v \<Longrightarrow> \<exists>c cs. print_value v = c # cs \<and> lead c = value_lead v"
proof (cases v)
  case (J_number n)
  assume "representable v"
  with J_number obtain i where "n = Finite i" by (cases n) auto
  then show ?thesis
    using J_number lead_show_nat [of "nat i"] by (auto simp: stringify_int_def lead_def)
qed (auto simp: lead_def stringify_string_def)

lemma same_lead:
  assumes "print_value v @ r = print_value w @ r'" "representable v" "representable w"
  shows "value_lead v = value_lead w"
  using print_lead [OF assms(2)] print_lead [OF assms(3)] assms(1) by auto

text \<open>A representable value can be read off the front of any text it starts.\<close>

lemma delimited_simps [simp]:
  "delimited ('']'' @ r)" "delimited (CHR '','' # r)" "delimited ([])" "delimited (CHR '']'' # r)"
  "delimited (CHR ''}'' # r)"
  by (auto simp: delimited_def)

lemma lead_closing [simp]: "lead CHR '']'' = 7" "lead CHR '','' = 7" "lead CHR ''}'' = 7"
  by code_simp+

lemma value_lead_less: "value_lead v < 7"
  by (cases v) (auto split: js_number.split)

lemma not_closing:
  assumes "representable v" "lead c = 7"
  shows "print_value v @ r \<noteq> c # r'" "c # r' \<noteq> print_value v @ r"
proof -
  obtain d cs where d: "print_value v = d # cs" "lead d = value_lead v" using print_lead [OF assms(1)] by blast
  then have "lead d \<noteq> lead c" using value_lead_less [of v] assms(2) by simp
  then show "print_value v @ r \<noteq> c # r'" "c # r' \<noteq> print_value v @ r" using d(1) by auto
qed

lemma string_not_brace [simp]: "stringify_string k @ r \<noteq> CHR ''}'' # r'" "CHR ''}'' # r' \<noteq> stringify_string k @ r"
  by (simp_all add: stringify_string_def)

lemma value_lead_cases:
  "value_lead w = 0 \<Longrightarrow> representable w \<Longrightarrow> w = J_null"
  "value_lead w = 1 \<Longrightarrow> w = J_bool True"
  "value_lead w = 2 \<Longrightarrow> w = J_bool False"
  "value_lead w = 3 \<Longrightarrow> \<exists>s. w = J_string s"
  "value_lead w = 4 \<Longrightarrow> \<exists>vs. w = J_array vs"
  "value_lead w = 5 \<Longrightarrow> \<exists>es. w = J_object es"
  "value_lead w = 6 \<Longrightarrow> \<exists>i. w = J_number (Finite i)"
  by (cases w; auto split: if_splits js_number.splits)+

lemma print_inj:
  "print_value v @ r = print_value w @ r' \<Longrightarrow> representable v \<Longrightarrow> representable w \<Longrightarrow>
     delimited r \<Longrightarrow> delimited r' \<Longrightarrow> v = w \<and> r = r'"
  "print_items vs @ r = print_items ws @ r' \<Longrightarrow> representable_items vs \<Longrightarrow> representable_items ws \<Longrightarrow>
     vs = ws \<and> r = r'"
  "print_entries es @ r = print_entries fs @ r' \<Longrightarrow> representable_entries es \<Longrightarrow> representable_entries fs \<Longrightarrow>
     es = fs \<and> r = r'"
proof (induction v and vs and es arbitrary: w r r' and ws r r' and fs r r'
    rule: print_value_print_items_print_entries.induct)
  case (1 b)
  then have "value_lead w = (if b then 1 else 2)" using same_lead [OF 1(1)] by simp
  then have "w = J_bool b" using value_lead_cases(2,3) [of w] by (cases b) simp_all
  then show ?case using 1(1) by simp
next
  case (2 s)
  then obtain t where "w = J_string t" using same_lead [OF 2(1)] value_lead_cases(4) [of w] by auto
  then show ?case using 2(1) stringify_inj [of s r t r'] by simp
next
  case (3 n)
  then obtain i where i: "n = Finite i" by (cases n) auto
  then obtain j where "w = J_number (Finite j)" using same_lead [OF 3(1)] 3 value_lead_cases(7) [of w] by auto
  then show ?case using 3 i stringify_int_inj [of i r j r'] by simp
next
  case (4 vs)
  then obtain ws where "w = J_array ws" using same_lead [OF 4(2)] value_lead_cases(5) [of w] by auto
  then show ?case using 4 by simp
next
  case (5 es)
  then obtain fs where "w = J_object fs" using same_lead [OF 5(2)] value_lead_cases(6) [of w] by auto
  then show ?case using 5 by simp
next
  case "6_1"
  then show ?case using same_lead [OF "6_1"(1)] value_lead_cases(1) [of w] by auto
next
  case (8 v vs)
  have "ws \<noteq> []" using 8(3,4) not_closing(1) [of v "CHR '']''"] by auto
  then obtain x xs where ws: "ws = x # xs" by (cases ws) auto
  let ?tail = "\<lambda>vs r. (if vs = [] then '']'' else CHR '','' # print_items vs) @ r"
  have "print_value v @ ?tail vs r = print_value x @ ?tail xs r'" using 8(3) by (simp add: ws)
  then have "v = x \<and> ?tail vs r = ?tail xs r'" using 8(4,5) ws by (intro 8(1)) auto
  then show ?case using 8(2) [of r xs r'] 8(4,5) ws by (cases "vs = []"; cases "xs = []") auto
next
  case 7
  then show ?case using not_closing(2) [of _ "CHR '']''"] by (cases ws) auto
next
  case 9
  then show ?case by (cases fs) auto
next
  case (10 k v es)
  have "fs \<noteq> []" using 10(3) by (auto simp: stringify_string_def)
  then obtain l x fs' where fs: "fs = (l, x) # fs'" by (cases fs) auto
  let ?tail = "\<lambda>es r. (if es = [] then ''}'' else CHR '','' # print_entries es) @ r"
  have "stringify_string k @ CHR '':'' # print_value v @ ?tail es r =
      stringify_string l @ CHR '':'' # print_value x @ ?tail fs' r'" using 10(3) by (simp add: fs)
  then have kl: "k = l" "print_value v @ ?tail es r = print_value x @ ?tail fs' r'"
    using stringify_inj by blast+
  then have "v = x \<and> ?tail es r = ?tail fs' r'" using 10(4,5) fs by (intro 10(1)) auto
  then show ?case using 10(2) [of r fs' r'] 10(4,5) fs kl by (cases "es = []"; cases "fs' = []") auto
qed simp_all

text \<open>
  A written entry and the normal entry it comes from: the same key, and the text is there exactly when
  the value is representable.
\<close>

definition written :: "string result \<Rightarrow> js_value \<Rightarrow> bool" where
  "written t v \<longleftrightarrow> (\<forall>s. t = Inr s \<longleftrightarrow> representable v \<and> s = print_value v)"

definition written_entry :: "'k \<times> string result \<Rightarrow> 'k \<times> js_value \<Rightarrow> bool" where
  "written_entry e f \<longleftrightarrow> fst e = fst f \<and> written (snd e) (snd f)"

lemma insort_key_rel:
  "list_all2 written_entry xs ys \<Longrightarrow> written_entry x y \<Longrightarrow>
   list_all2 written_entry (insort_key fst x xs) (insort_key fst y ys)"
proof (induction xs ys rule: list_all2_induct)
  case (Cons a xs b ys)
  moreover have "fst a = fst b" "fst x = fst y" using Cons by (auto simp: written_entry_def)
  ultimately show ?case by simp
qed simp

lemma sort_key_rel:
  "list_all2 written_entry xs ys \<Longrightarrow> list_all2 written_entry (sort_key fst xs) (sort_key fst ys)"
proof (induction xs ys rule: list_all2_induct)
  case (Cons x xs y ys)
  then show ?case by (simp add: insort_key_rel)
qed simp

lemma all_results_entries:
  "list_all2 written_entry xs ys \<Longrightarrow>
   all_results xs = Inr parts \<longleftrightarrow> list_all (\<lambda>(k, v). representable v) ys \<and> parts = map (\<lambda>(k, v). (k, print_value v)) ys"
proof (induction xs ys arbitrary: parts rule: list_all2_induct)
  case (Cons x xs y ys)
  obtain k t where x: "x = (k, t)" by (cases x)
  obtain v where y: "y = (k, v)" "written t v" using Cons(1) x by (cases y) (auto simp: written_entry_def)
  show ?case
  proof (cases t)
    case (Inl e)
    then show ?thesis using y x by (auto simp: written_def)
  next
    case (Inr s)
    then have s: "representable v" "s = print_value v" using y by (auto simp: written_def)
    show ?thesis
    proof (cases "all_results xs")
      case (Inl e)
      then show ?thesis using Cons.IH x y Inr by auto
    next
      case rest: (Inr ps)
      then show ?thesis using Cons.IH [of ps] x y Inr s by auto
    qed
  qed
qed (auto simp: ok_def)

lemma js_join_entries:
  "''{'' @ js_join '','' (map (\<lambda>(k, t). stringify_string k @ '':'' @ t) (map (\<lambda>(k, v). (k, print_value v)) es)) @ ''}''
    = print_value (J_object es)"
proof (induction es)
  case (Cons e es)
  then show ?case by (cases e; cases es) auto
qed simp

lemma js_join_items: "''['' @ js_join '','' (map print_value vs) @ '']'' = print_value (J_array vs)"
proof (induction vs)
  case (Cons v vs)
  then show ?case by (cases vs) auto
qed simp

lemma representable_list:
  "representable_entries es \<longleftrightarrow> list_all (\<lambda>(k, v). representable v) es"
  "representable_items vs \<longleftrightarrow> list_all (\<lambda>(k, v). representable v) (map (\<lambda>v. ((), v)) vs)"
  subgoal by (induction es) auto
  subgoal by (induction vs) auto
  done

lemma write_normal:
  "written (write_value v p) (normal v)"
  "list_all2 written_entry (write_items vs p i) (map (\<lambda>v. ((), v)) (normal_items vs))"
  "list_all2 written_entry (write_entries es p) (normal_entries es)"
proof (induction v p and vs p i and es p rule: write_value_write_items_write_entries.induct)
  case (4 n path)
  then show ?case by (cases n) (auto simp: written_def invalid_def)
next
  case (9 vs path)
  note parts = all_results_entries [OF this]
  show ?case
  proof (cases "all_results (write_items vs path 0)")
    case (Inl e)
    then show ?thesis using parts by (auto simp: written_def representable_list(2))
  next
    case (Inr ps)
    then have ps: "representable_items (normal_items vs)" "map snd ps = map print_value (normal_items vs)"
      using parts [of ps] by (simp_all add: representable_list(2))
    then show ?thesis using Inr js_join_items [of "normal_items vs"] by (auto simp: written_def)
  qed
next
  case (11 es path)
  note parts = all_results_entries [OF sort_key_rel [OF this]]
  show ?case
  proof (cases "all_results (sort_key fst (write_entries es path))")
    case (Inl e)
    then show ?thesis using parts by (auto simp: written_def representable_list(1))
  next
    case (Inr ps)
    then show ?thesis
      using parts [of ps] js_join_entries [of "sort_key fst (normal_entries es)"]
      by (auto simp: written_def representable_list(1))
  qed
qed (auto simp: written_def written_entry_def invalid_def)

lemma canonicalJson_iff:
  "canonicalJson v = Inr s \<longleftrightarrow> representable (normal v) \<and> s = print_value (normal v)"
  using write_normal(1) [of v "''$''"] by (simp add: canonicalJson_def written_def)

section \<open>Objects by key\<close>

text \<open>What an entry contributes to the normal form: nothing, or its normal value.\<close>

definition kept :: "js_value \<Rightarrow> js_value option" where
  "kept v = (if is_undefined v then None else Some (normal v))"

lemma fst_normal_entries: "k \<in> fst ` set (normal_entries es) \<Longrightarrow> k \<in> fst ` set es"
proof (induction es)
  case (Cons e es)
  then show ?case by (cases e) (auto split: if_splits)
qed simp

lemma distinct_normal_entries: "distinct (map fst es) \<Longrightarrow> distinct (map fst (normal_entries es))"
proof (induction es)
  case (Cons e es)
  then show ?case using fst_normal_entries [of "fst e" es] by (cases e) auto
qed simp

lemma map_of_normal_entries:
  "distinct (map fst es) \<Longrightarrow> map_of (normal_entries es) k = Option.bind (map_of es k) kept"
proof (induction es)
  case (Cons e es)
  obtain l v where e: "e = (l, v)" by (cases e)
  have "map_of es l = None" using Cons.prems e by (simp add: map_of_eq_None_iff)
  then show ?case using Cons e by (auto simp: kept_def)
qed simp

lemma sorted_entries_eq_iff:
  assumes "distinct (map fst xs)" "distinct (map fst ys)"
  shows "sort_key fst xs = sort_key fst ys \<longleftrightarrow> map_of xs = map_of ys"
proof -
  have dist: "distinct (map fst (sort_key fst zs))" if "distinct (map fst zs)" for zs :: "('a::linorder \<times> 'b) list"
    using that by (metis distinct_map distinct_sort set_sort)
  have of: "map_of (sort_key fst zs) = map_of zs" if "distinct (map fst zs)" for zs :: "('a::linorder \<times> 'b) list"
    using that dist [OF that] by (intro map_of_inject_set [THEN iffD2]) auto
  have "sort_key fst xs = sort_key fst ys" if "map_of xs = map_of ys"
  proof -
    have "set xs = set ys" using that assms map_of_inject_set by blast
    then show ?thesis
      using assms by (intro map_sorted_distinct_set_unique [of fst]) (auto simp: dist distinct_map)
  qed
  then show ?thesis using of [OF assms(1)] of [OF assms(2)] by metis
qed

lemma object_normal_iff:
  assumes "distinct (map fst es)" "distinct (map fst fs)"
  shows "normal (J_object es) = normal (J_object fs) \<longleftrightarrow>
    (\<forall>k. Option.bind (map_of es k) kept = Option.bind (map_of fs k) kept)"
  using assms sorted_entries_eq_iff [OF distinct_normal_entries [OF assms(1)] distinct_normal_entries [OF assms(2)]]
  by (simp add: fun_eq_iff map_of_normal_entries)

lemma object_same_keys:
  assumes "map fst es = map fst fs" "distinct (map fst es)"
  shows "normal (J_object es) = normal (J_object fs) \<longleftrightarrow> map (kept \<circ> snd) es = map (kept \<circ> snd) fs"
proof -
  have "(\<forall>k. Option.bind (map_of es k) kept = Option.bind (map_of fs k) kept) \<longleftrightarrow>
      map (kept \<circ> snd) es = map (kept \<circ> snd) fs"
    using map_eq_imp_length_eq [OF assms(1)] assms
  proof (induction es fs rule: list_induct2)
    case (Cons e es f fs)
    obtain l v w where ef: "e = (l, v)" "f = (l, w)" using Cons.prems by (cases e; cases f) auto
    have none: "map_of es l = None" "map_of fs l = None"
    proof -
      have keys: "map fst fs = map fst es" and es: "l \<notin> set (map fst es)" using Cons.prems ef by auto
      from es have "l \<notin> set (map fst fs)" unfolding keys .
      with es show "map_of es l = None" "map_of fs l = None" by (simp_all add: map_of_eq_None_iff)
    qed
    have "(\<forall>k. Option.bind (map_of (e # es) k) kept = Option.bind (map_of (f # fs) k) kept) \<longleftrightarrow>
        kept v = kept w \<and> (\<forall>k. Option.bind (map_of es k) kept = Option.bind (map_of fs k) kept)"
    proof (intro iffI conjI allI)
      assume all: "\<forall>k. Option.bind (map_of (e # es) k) kept = Option.bind (map_of (f # fs) k) kept"
      show "kept v = kept w" using all [rule_format, of l] by (simp add: ef)
      show "Option.bind (map_of es k) kept = Option.bind (map_of fs k) kept" for k
        using none all [rule_format, of k] by (cases "k = l") (simp_all add: ef)
    next
      fix k assume "kept v = kept w \<and> (\<forall>k. Option.bind (map_of es k) kept = Option.bind (map_of fs k) kept)"
      then show "Option.bind (map_of (e # es) k) kept = Option.bind (map_of (f # fs) k) kept"
        by (simp add: ef)
    qed
    then show ?case using Cons ef by simp
  qed simp
  then show ?thesis using assms object_normal_iff [of es fs] by simp
qed

lemma kept_eq [simp]:
  "\<not> is_undefined v \<Longrightarrow> \<not> is_undefined w \<Longrightarrow> kept v = kept w \<longleftrightarrow> normal v = normal w"
  by (simp add: kept_def)

lemma is_undefined_simps [simp]:
  "is_undefined J_undefined" "\<not> is_undefined J_null" "\<not> is_undefined (J_string s)"
  "\<not> is_undefined (J_bool b)" "\<not> is_undefined (J_array vs)" "\<not> is_undefined (J_object es)"
  "\<not> is_undefined (js_target t)"
  by (simp_all add: is_undefined_def) (cases t; simp)

lemma js_target_normal [simp]: "normal (js_target t) = normal (js_target u) \<longleftrightarrow> t = u"
proof (cases t; cases u)
  fix i e i' e' assume "t = Target_runtime i e" "u = Target_runtime i' e'"
  then show ?thesis by (simp add: object_same_keys del: normal.simps) auto
next
  fix i e assume tu: "t = Target_environment" "u = Target_runtime i e"
  have "normal (js_target t) \<noteq> normal (js_target u)"
    unfolding tu js_target.simps by (subst object_normal_iff) (auto intro!: exI [of _ "''kind''"])
  then show ?thesis using tu by simp
next
  fix i e assume tu: "u = Target_environment" "t = Target_runtime i e"
  have "normal (js_target t) \<noteq> normal (js_target u)"
    unfolding tu js_target.simps by (subst object_normal_iff) (auto intro!: exI [of _ "''kind''"])
  then show ?thesis using tu by simp
qed simp

section \<open>Properties\<close>

lemma canonicalJson_one_text: "canonicalJson v = Inr s \<Longrightarrow> canonicalJson w = Inr s \<longleftrightarrow> normal v = normal w"
  using print_inj(1) [of "normal v" "[]" "normal w" "[]"] by (auto simp: canonicalJson_iff)

text \<open>
  C20.  One byte sequence per value: where a value has a canonical text, another value has the same text
  exactly when the two agree up to the order of object entries and \<open>undefined\<close> properties.  Nothing is
  coerced into anything else.
\<close>

theorem canonicalJson_one_text_per_value:
  assumes "canonicalJson v = Inr s"
  shows "canonicalJson w = Inr s \<longleftrightarrow> normal v = normal w"
  by (rule canonicalJson_one_text [OF assms])

theorem canonicalJson_one_text_per_value_witness:
  "(canonicalJson (J_object [(''b'', J_undefined), (''a'', J_null)]) = Inr (''{'' @ [CHR 0x22, CHR ''a'', CHR 0x22] @ '':null}''))
   = (normal (J_object [(''a'', J_null)]) = normal (J_object [(''b'', J_undefined), (''a'', J_null)]))"
  by (rule canonicalJson_one_text_per_value) code_simp


section \<open>Fingerprints\<close>

lemma js_nullable_normal:
  "(\<And>a. \<not> is_undefined (f a) \<and> normal (f a) \<noteq> J_null) \<Longrightarrow>
   (\<And>a b. normal (f a) = normal (f b) \<longleftrightarrow> a = b) \<Longrightarrow>
   \<not> is_undefined (js_nullable f x) \<and> (normal (js_nullable f x) = normal (js_nullable f y) \<longleftrightarrow> x = y)"
  by (cases x; cases y) (auto simp: js_nullable_def dest: sym [of J_null])

lemma nullable_string [simp]:
  "\<not> is_undefined (js_nullable J_string x)"
  "normal (js_nullable J_string x) = normal (js_nullable J_string y) \<longleftrightarrow> x = y"
  using js_nullable_normal [of J_string x y] by simp_all

lemma nullable_bool [simp]:
  "\<not> is_undefined (js_nullable J_bool x)"
  "normal (js_nullable J_bool x) = normal (js_nullable J_bool y) \<longleftrightarrow> x = y"
  using js_nullable_normal [of J_bool x y] by simp_all

lemma kind_name_inj [simp]: "kind_name k = kind_name l \<longleftrightarrow> k = l"
  by (cases k; cases l) simp_all

lemma representable_object:
  assumes "list_all (\<lambda>(k, v). is_undefined v \<or> representable (normal v)) es"
  shows "representable (normal (J_object es))"
proof -
  have "list_all (\<lambda>(k, v). representable v) (normal_entries es)"
    using assms by (induction es) (auto split: if_splits)
  then show ?thesis by (simp add: representable_list list_all_iff)
qed

lemma representable_nullable [simp]:
  "representable (normal (js_nullable J_string x))" "representable (normal (js_nullable J_bool y))"
  by (cases x; cases y; simp add: js_nullable_def)+

lemma representable_target [simp]: "representable (normal (js_target t))"
  by (cases t) (auto simp del: normal.simps(2) intro!: representable_object)

lemma begin_value_representable: "representable (normal (begin_value input))"
  unfolding begin_value_def by (rule representable_object) simp

lemma begin_value_normal:
  "normal (begin_value a) = normal (begin_value b) \<longleftrightarrow>
     bo_target a = bo_target b \<and> bo_kind a = bo_kind b \<and> bo_descriptor_id a = bo_descriptor_id b \<and>
     (bo_retain_models a = Some True \<longleftrightarrow> bo_retain_models b = Some True)"
proof -
  have r: "(case x of None \<Rightarrow> False | Some b \<Rightarrow> b) = (x = Some True)" for x by (cases x) auto
  show ?thesis unfolding begin_value_def r by (subst object_same_keys) auto
qed

text \<open>
  What a \<open>begin\<close> request's fingerprint stands for: the text that is hashed always exists, and two
  requests share it exactly when they agree on target, kind, descriptor and on asking to retain the
  models.  The request id and the approval are not part of it; a request that leaves \<open>retain_models\<close>
  out shares its fingerprint with one that sets it to \<open>false\<close>.
\<close>

theorem begin_fingerprint_identifies:
  "canonicalJson (begin_value a) = canonicalJson (begin_value b) \<longleftrightarrow>
     bo_target a = bo_target b \<and> bo_kind a = bo_kind b \<and> bo_descriptor_id a = bo_descriptor_id b \<and>
     (bo_retain_models a = Some True \<longleftrightarrow> bo_retain_models b = Some True)"
proof -
  have "canonicalJson (begin_value x) = Inr (print_value (normal (begin_value x)))" for x
    by (simp add: canonicalJson_iff begin_value_representable)
  then show ?thesis
    using canonicalJson_one_text [of "begin_value a"] by (metis begin_value_normal)
qed

section \<open>The consent digest\<close>

text \<open>The parameters of a system change are a JavaScript object: its keys are distinct.\<close>

definition proper_change :: "managed_system_change \<Rightarrow> bool" where
  "proper_change c \<longleftrightarrow> (case sc_params c of None \<Rightarrow> True | Some m \<Rightarrow> distinct (map fst m))"

definition same_change :: "managed_system_change \<Rightarrow> managed_system_change \<Rightarrow> bool" where
  "same_change c d \<longleftrightarrow> sc_code c = sc_code d \<and> sc_text c = sc_text d \<and>
     map_option map_of (sc_params c) = map_option map_of (sc_params d)"

lemma string_map_normal:
  assumes "distinct (map fst m)" "distinct (map fst m')"
  shows "normal (js_string_map m) = normal (js_string_map m') \<longleftrightarrow> map_of m = map_of m'"
proof -
  have keys: "map fst (map (\<lambda>(k, v). (k, J_string v)) m) = map fst m" for m
    by (induction m) auto
  have at: "Option.bind (map_of (map (\<lambda>(k, v). (k, J_string v)) m) k) kept = map_option J_string (map_of m k)" for m k
    by (induction m) (auto simp: kept_def)
  have "map_option J_string x = map_option J_string y \<longleftrightarrow> x = y" for x y
    by (cases x; cases y) simp_all
  then have "(\<forall>k. map_option J_string (map_of m k) = map_option J_string (map_of m' k)) \<longleftrightarrow> map_of m = map_of m'"
    by (simp add: fun_eq_iff)
  then show ?thesis
    unfolding js_string_map_def using assms by (subst object_normal_iff) (simp_all only: keys at)
qed

lemma params_kept:
  assumes "proper_change c" "proper_change d"
  shows "kept (js_optional js_string_map (sc_params c)) = kept (js_optional js_string_map (sc_params d)) \<longleftrightarrow>
    map_option map_of (sc_params c) = map_option map_of (sc_params d)"
  using assms string_map_normal
  by (cases "sc_params c"; cases "sc_params d")
    (auto simp: js_optional_def proper_change_def kept_def js_string_map_def)

lemma change_normal:
  assumes "proper_change c" "proper_change d"
  shows "normal (js_system_change c) = normal (js_system_change d) \<longleftrightarrow> same_change c d"
  unfolding js_system_change_def
  by (subst object_same_keys) (simp_all add: params_kept [OF assms] same_change_def)

lemma normal_items_map: "normal_items (map f xs) = map (\<lambda>x. normal (f x)) xs"
  by (induction xs) simp_all

lemma array_normal: "normal (J_array (map f xs)) = J_array (map (\<lambda>x. normal (f x)) xs)"
  by (simp add: normal_items_map)

lemma map_eq_list_all2: "map f xs = map g ys \<longleftrightarrow> list_all2 (\<lambda>x y. f x = g y) xs ys"
  by (simp add: list_all2_eq list.rel_map)

lemma host_normal [simp]: "normal (js_host g) = normal (js_host h) \<longleftrightarrow> g = h"
proof -
  have "map J_string xs = map J_string ys \<longleftrightarrow> xs = ys" for xs ys
    by (auto simp: inj_on_def inj_map_eq_map)
  then show ?thesis
    unfolding js_host_def by (subst object_same_keys) (auto simp: array_normal simp del: normal.simps(1))
qed

lemma descriptor_normal:
  "normal (J_object [(''descriptor_id'', J_string d), (''image_digest'', J_string i)]) =
   normal (J_object [(''descriptor_id'', J_string d'), (''image_digest'', J_string i')]) \<longleftrightarrow> d = d' \<and> i = i'"
  by (subst object_same_keys) auto

lemma object_not_null: "\<not> is_undefined (J_object es) \<and> normal (J_object es) \<noteq> J_null"
  by simp

lemma nullable_host [simp]:
  "\<not> is_undefined (js_nullable js_host x)"
  "normal (js_nullable js_host x) = normal (js_nullable js_host y) \<longleftrightarrow> x = y"
proof -
  have "\<not> is_undefined (js_host h) \<and> normal (js_host h) \<noteq> J_null" for h
    unfolding js_host_def by (rule object_not_null)
  from js_nullable_normal [of js_host x y, OF this host_normal]
  show "\<not> is_undefined (js_nullable js_host x)"
    "normal (js_nullable js_host x) = normal (js_nullable js_host y) \<longleftrightarrow> x = y" by blast+
qed

abbreviation js_descriptor :: "string \<times> sha256 \<Rightarrow> js_value" where
  "js_descriptor \<equiv> \<lambda>(d, i). J_object [(''descriptor_id'', J_string d), (''image_digest'', J_string i)]"

lemma nullable_descriptor [simp]:
  "\<not> is_undefined (js_nullable js_descriptor x)"
  "normal (js_nullable js_descriptor x) = normal (js_nullable js_descriptor y) \<longleftrightarrow> x = y"
proof -
  have "\<not> is_undefined (js_descriptor h) \<and> normal (js_descriptor h) \<noteq> J_null" for h
    by (cases h) simp
  moreover have "normal (js_descriptor g) = normal (js_descriptor h) \<longleftrightarrow> g = h" for g h
    by (cases g; cases h) (simp only: prod.case descriptor_normal prod.inject)
  ultimately show "\<not> is_undefined (js_nullable js_descriptor x)"
    "normal (js_nullable js_descriptor x) = normal (js_nullable js_descriptor y) \<longleftrightarrow> x = y"
    using js_nullable_normal [of js_descriptor x y] by blast+
qed

lemma changes_normal:
  assumes "list_all proper_change cs" "list_all proper_change ds"
  shows "normal (J_array (map js_system_change cs)) = normal (J_array (map js_system_change ds)) \<longleftrightarrow>
    list_all2 same_change cs ds"
proof -
  have "list_all2 (\<lambda>c d. normal (js_system_change c) = normal (js_system_change d)) cs ds \<longleftrightarrow>
      list_all2 same_change cs ds"
    using assms change_normal by (intro list.rel_cong) (auto simp: list_all_iff)
  then show ?thesis by (simp only: array_normal map_eq_list_all2 js_value.inject)
qed

lemma representable_string_map [simp]: "representable (normal (js_string_map m))"
  unfolding js_string_map_def by (rule representable_object) (auto simp: list_all_iff)

lemma representable_change: "representable (normal (js_system_change c))"
  unfolding js_system_change_def
  by (rule representable_object) (cases "sc_params c"; simp add: js_optional_def)

lemma representable_array: "(\<And>x. representable (normal (f x))) \<Longrightarrow> representable (normal (J_array (map f xs)))"
  by (induction xs) auto

lemma representable_host: "representable (normal (js_nullable js_host h))"
proof -
  have "representable (normal (js_host h))" for h
    unfolding js_host_def by (rule representable_object)
      (simp add: representable_array del: normal.simps(1))
  then show ?thesis by (cases h) (simp_all add: js_nullable_def)
qed

lemma representable_descriptor: "representable (normal (js_nullable js_descriptor d))"
proof -
  have "representable (normal (js_descriptor h))" for h
    by (cases h) (simp only: prod.case, rule representable_object, simp)
  then show ?thesis by (cases d) (simp_all add: js_nullable_def)
qed

lemma representable_plan: "representable (normal (plan_value p))"
  unfolding plan_value_def by (rule representable_object)
    (simp add: representable_array representable_change representable_descriptor representable_host
      del: normal.simps(1,2))

lemma plan_but_changes:
  fixes p q :: plan_fingerprint
  shows "q\<lparr>pf_system_changes := pf_system_changes p\<rparr> = p \<longleftrightarrow>
     pf_target p = pf_target q \<and> pf_recipe_id p = pf_recipe_id q \<and> pf_recipe_digest p = pf_recipe_digest q \<and>
     pf_adopts_existing_engine p = pf_adopts_existing_engine q \<and>
     pf_requires_elevation p = pf_requires_elevation q \<and>
     pf_may_require_relogin p = pf_may_require_relogin q \<and>
     pf_may_require_reboot p = pf_may_require_reboot q \<and> pf_descriptor p = pf_descriptor q \<and>
     pf_environment_manifest_id p = pf_environment_manifest_id q \<and> pf_host p = pf_host q"
  by (cases p; cases q) auto

text \<open>
  What a consent digest stands for: the hashed texts of two plans are equal exactly when they have the
  same target, recipe, system changes (code, text and parameters, in order), elevation, sign-in and
  reboot needs, descriptor and image, environment manifest and host facts.  An approval bound to one
  is an approval of the other, and of nothing else.
\<close>

theorem plan_digest_identifies:
  assumes "list_all proper_change (pf_system_changes p)" "list_all proper_change (pf_system_changes q)"
  shows "canonicalJson (plan_value p) = canonicalJson (plan_value q) \<longleftrightarrow>
    list_all2 same_change (pf_system_changes p) (pf_system_changes q) \<and>
    q\<lparr>pf_system_changes := pf_system_changes p\<rparr> = p"
proof -
  have "canonicalJson (plan_value x) = Inr (print_value (normal (plan_value x)))" for x
    by (simp add: canonicalJson_iff representable_plan)
  then have "canonicalJson (plan_value p) = canonicalJson (plan_value q) \<longleftrightarrow>
      normal (plan_value p) = normal (plan_value q)"
    using canonicalJson_one_text [of "plan_value p"] by metis
  also have "\<dots> \<longleftrightarrow> list_all2 same_change (pf_system_changes p) (pf_system_changes q) \<and>
      q\<lparr>pf_system_changes := pf_system_changes p\<rparr> = p"
    unfolding plan_value_def
    by (subst object_same_keys)
      (auto simp: changes_normal [OF assms] plan_but_changes simp del: normal.simps(1,2))
  finally show ?thesis .
qed

definition ex_fingerprint :: "string_map \<Rightarrow> plan_fingerprint" where
  "ex_fingerprint params =
     \<lparr>pf_target = Target_runtime ''i'' ''vllm'', pf_recipe_id = ''r'', pf_recipe_digest = ''d'',
      pf_adopts_existing_engine = False,
      pf_system_changes = [\<lparr>sc_code = ''c'', sc_text = ''t'', sc_params = Some params\<rparr>],
      pf_requires_elevation = True, pf_may_require_relogin = False, pf_may_require_reboot = False,
      pf_descriptor = None, pf_environment_manifest_id = None, pf_host = None\<rparr>"

theorem plan_digest_identifies_witness:
  "canonicalJson (plan_value (ex_fingerprint [(''a'', ''1''), (''b'', ''2'')])) =
   canonicalJson (plan_value (ex_fingerprint [(''b'', ''2''), (''a'', ''1'')]))"
  by (subst plan_digest_identifies)
    (auto simp: ex_fingerprint_def proper_change_def same_change_def fun_eq_iff)

end
