(* ===== verification/Store_Reset.thy ===== *)
theory Store_Reset
  imports Store_Runs Canonical_Json_Props
begin

text \<open>
  Archiving finished operations, and the single-use receipts: what \<open>archiveFinished\<close> moves and refuses, and
  what \<open>classifyReceipt\<close> answers once a nonce is spent.
\<close>

section \<open>Archiving\<close>

lemma files_archive_path:
  "map_of (archive_path stmp m d) (Operation_path n) = (if n = m then None else map_of d (Operation_path n))"
  "map_of (archive_path stmp m d) (Archive_path stmp n) =
     (if n = m \<and> fs_exists d (Operation_path m) then map_of d (Operation_path m) else map_of d (Archive_path stmp n))"
  by (auto simp: archive_path_def map_of_rename fs_exists_def split: option.split)

definition file_names :: "persisted_operation \<Rightarrow> string set" where
  "file_names r = (case operationFileName (po_id r) of Inl _ \<Rightarrow> {} | Inr name \<Rightarrow> {name, bak name})"

lemma archive_records_files:
  "archive_records stmp rs d = (Inr ids, d') \<Longrightarrow>
   ids = map po_id rs \<and>
   map_of d' (Operation_path n) = (if n \<in> \<Union> (file_names ` set rs) then None else map_of d (Operation_path n)) \<and>
   map_of d' (Archive_path stmp n) =
     (if n \<in> \<Union> (file_names ` set rs) \<and> fs_exists d (Operation_path n) then map_of d (Operation_path n)
      else map_of d (Archive_path stmp n))"
proof (induction rs arbitrary: d ids)
  case (Cons r rs)
  then obtain name where name: "operationFileName (po_id r) = Inr name"
    by (cases "operationFileName (po_id r)") auto
  let ?d = "archive_path stmp (bak name) (archive_path stmp name d)"
  obtain ids' where rest: "archive_records stmp rs ?d = (Inr ids', d')" "ids = po_id r # ids'"
    using Cons.prems name by (cases "archive_records stmp rs ?d") (auto split: sum.splits)
  show ?case
    using Cons.IH [OF rest(1)] rest(2) name
    by (auto simp: file_names_def files_archive_path fs_exists_def split: if_splits)
qed auto

lemma archive_records_ok:
  "\<forall>r \<in> set rs. po_id r \<noteq> [] \<Longrightarrow> \<exists>ids d'. archive_records stmp rs d = (Inr ids, d')"
proof (induction rs arbitrary: d)
  case (Cons r rs)
  obtain seg where "encodeManagedId (po_id r) = Inr seg" using Cons.prems encode_ok [of "po_id r"] by auto
  then have name: "operationFileName (po_id r) = Inr (seg @ ''.json'')"
    by (simp add: operationFileName_def ok_def)
  let ?d = "archive_path stmp (bak (seg @ ''.json'')) (archive_path stmp (seg @ ''.json'') d)"
  obtain ids d' where "archive_records stmp rs ?d = (Inr ids, d')" using Cons.IH [of ?d] Cons.prems by auto
  then show ?case using name by (simp add: ok_def)
qed (simp add: ok_def)

text \<open>
  A reset refuses to run over unfinished work, and then changes nothing; otherwise every operation is
  moved to the archive folder, its files byte for byte, and the store has none of them any more.
\<close>

theorem reset_moves_only_finished_operations:
  assumes "store_all d = Inr rs" "\<forall>r \<in> set rs. po_id r \<noteq> []"
    and "archiveFinished_run root stmp d = (out, d')"
  shows "if \<exists>r \<in> set rs. \<not> finished r
    then d' = d \<and> (\<exists>e. out = Inl e \<and> err_code e = ''MANAGED_OPERATION_CONFLICT'')
    else (\<exists>a. out = Inr a \<and> ar_ids a = map po_id rs) \<and>
      (\<forall>r \<in> set rs. store_read d' (po_id r) = Inr None \<and>
        (\<forall>n \<in> file_names r. fs_exists d (Operation_path n) \<longrightarrow>
           map_of d' (Archive_path stmp n) = map_of d (Operation_path n)))"
proof (cases "find (\<lambda>r. \<not> finished r) rs")
  case (Some r)
  then show ?thesis using assms find_SomeD [OF Some] by (auto simp: archiveFinished_run_def)
next
  case None
  then have fin: "\<not> (\<exists>r \<in> set rs. \<not> finished r)" using find_NoneD [OF None] by blast
  show ?thesis
  proof (cases "rs = []")
    case True
    then show ?thesis using assms by (auto simp: archiveFinished_run_def ok_def)
  next
    case False
    obtain ids da where a: "archive_records stmp rs d = (Inr ids, da)"
      using archive_records_ok [OF assms(2)] by blast
    have d': "d' = da" "\<exists>x. out = Inr x \<and> ar_ids x = ids"
      using assms None False a by (auto simp: archiveFinished_run_def ok_def)
    note files = archive_records_files [OF a]
    have "store_read da (po_id r) = Inr None" if "r \<in> set rs" for r
    proof -
      have "po_id r \<noteq> []" using assms(2) that by blast
      from encode_ok [OF this] obtain name where name: "operationFileName (po_id r) = Inr name"
        by (auto simp: operationFileName_def ok_def)
      then have "map_of da (Operation_path name) = None" "map_of da (Operation_path (bak name)) = None"
        using files that by (auto simp: file_names_def)
      then show ?thesis
        using name by (simp add: store_read_def read_named_def readRecord_def fs_exists_def ok_def)
    qed
    moreover have "map_of da (Archive_path stmp n) = map_of d (Operation_path n)"
      if "r \<in> set rs" "n \<in> file_names r" "fs_exists d (Operation_path n)" for r n
      using files [of n] that by auto
    ultimately show ?thesis using fin d' files by auto
  qed
qed

section \<open>Receipts\<close>

lemma representable_receipt: "representable (normal (receipt_value rc))"
  unfolding receipt_value_def by (rule representable_object) simp

lemma receipt_text: "canonicalJson (receipt_value rc) = Inr (print_value (normal (receipt_value rc)))"
  by (simp add: canonicalJson_iff representable_receipt)

lemma receiptIdentity_ok:
  "receiptIdentity sha rc = Inr (''sha256:'' @ sha (print_value (normal (receipt_value rc))))"
  by (simp add: receiptIdentity_def canonicalDigest_def receipt_text ok_def)

lemma outcome_name_inj [simp]: "outcome_name a = outcome_name b \<longleftrightarrow> a = b"
  by (cases a; cases b) simp_all

lemma receipt_normal:
  "normal (receipt_value a) = normal (receipt_value b) \<longleftrightarrow> a\<lparr>rc_log_tail := rc_log_tail b\<rparr> = b"
  unfolding receipt_value_def
  by (subst object_same_keys; cases a; cases b) (auto simp: kept_def is_undefined_def)

text \<open>
  A receipt's nonce is used once: after a receipt is recorded, the same receipt (whatever its log
  tail) is a duplicate, any other receipt that names its nonce is refused where SHA-256 tells their
  texts apart, and in no case is that nonce fresh again.
\<close>

theorem receipt_nonce_is_spent_once:
  assumes "withReceipt sha r receipt = Inr r'" "rc_nonce other = rc_nonce receipt"
    and "inj_on sha {print_value (normal (receipt_value receipt)), print_value (normal (receipt_value other))}"
  shows "(if other\<lparr>rc_log_tail := rc_log_tail receipt\<rparr> = receipt then classifyReceipt sha r' other = Inr Duplicate
    else \<exists>e. classifyReceipt sha r' other = Inl e \<and> err_code e = ''MANAGED_RECEIPT_CONFLICT'')"
proof -
  let ?t = "\<lambda>rc. print_value (normal (receipt_value rc))"
  have r': "map_of (po_accepted_receipt_digests r') (rc_nonce other) = Some (''sha256:'' @ sha (?t receipt))"
    using assms(1,2) by (auto simp: withReceipt_def receiptIdentity_ok AList.update_conv')
  have "sha (?t receipt) = sha (?t other) \<longleftrightarrow> ?t receipt = ?t other" by (rule inj_on_eq_iff [OF assms(3)]) simp_all
  also have "\<dots> \<longleftrightarrow> normal (receipt_value receipt) = normal (receipt_value other)"
    using canonicalJson_one_text [OF receipt_text [of receipt], of "receipt_value other"]
    unfolding receipt_text sum.inject by (simp only: eq_commute [of "?t receipt"])
  also have "\<dots> \<longleftrightarrow> other\<lparr>rc_log_tail := rc_log_tail receipt\<rparr> = receipt"
    using receipt_normal [of other receipt] by (simp only: eq_commute [of "normal (receipt_value receipt)"])
  finally show ?thesis
    by (auto simp: classifyReceipt_def r' receiptIdentity_ok ok_def)
qed

end
