(* ===== verification/Service_Props.thy ===== *)
theory Service_Props
  imports Service Store_Locked Store_Reset
begin

text \<open>
  What the service promises about the records it drives: every entry point keeps the reducer's
  invariant in the store whatever the other cores do meanwhile, a receipt is bound to its step and
  counts once, and only an operation whose core is provably gone is taken over.
\<close>

section \<open>The disk through the service's bookkeeping\<close>

lemma disk_simps [simp]:
  "sv_disk (emit ev svc) = sv_disk svc" "sv_disk (announce operation svc) = sv_disk svc"
  "sv_disk (dispatch r svc) = sv_disk svc" "sv_disk (abort_running ident svc) = sv_disk svc"
  by (auto simp: emit_def announce_def dispatch_def abort_running_def Let_def split: option.split)

definition call_ok :: "service_call \<Rightarrow> bool" where
  "call_ok call \<longleftrightarrow> (\<forall>k. others_keep_machines (cl_schedule call k))"

abbreviation svc_ok :: "service_state \<Rightarrow> bool" where
  "svc_ok svc \<equiv> machines_ok (sv_disk svc)"

lemma cas_ok:
  assumes "call_ok call" "machines_ok d" "machine_inv (po_machine nxt)"
    and "compareAndSwap (cl_cfg call) (cl_schedule call k) ident revn nxt d = (out, d')"
  shows "machines_ok d'"
proof -
  have "machines_ok (snd (compareAndSwap (cl_cfg call) (cl_schedule call k) ident revn nxt d))"
    unfolding compareAndSwap_def
    using assms by (intro machines_ok_locked machines_ok_cas_run) (auto simp: call_ok_def)
  then show ?thesis using assms(4) by simp
qed

lemma create_ok:
  assumes "call_ok call" "machines_ok d"
    and "createOrGet (cl_cfg call) (cl_schedule call k) e input dg fu ro d = (out, d')"
  shows "machines_ok d'"
proof -
  have "machines_ok (snd (createOrGet (cl_cfg call) (cl_schedule call k) e input dg fu ro d))"
    unfolding createOrGet_def
    using assms by (intro machines_ok_locked machines_ok_create_run) (auto simp: call_ok_def)
  then show ?thesis using assms(3) by simp
qed

lemma own_ok:
  assumes "call_ok call" "machines_ok d"
    and "recordOwned (cl_cfg call) (cl_schedule call k) ident ids d = (out, d')"
  shows "machines_ok d'"
proof -
  have "machines_ok (snd (recordOwned (cl_cfg call) (cl_schedule call k) ident ids d))"
    unfolding recordOwned_def
    using assms by (intro machines_ok_locked machines_ok_own_run) (auto simp: call_ok_def)
  then show ?thesis using assms(3) by simp
qed

lemma apply_ok:
  assumes "call_ok call" "svc_ok svc" "apply_event call k ident event patch svc = (out, svc')"
  shows "svc_ok svc'"
proof (cases "\<exists>current. store_read (sv_disk svc) ident = Inr (Some current)")
  case True
  then obtain current where c: "store_read (sv_disk svc) ident = Inr (Some current)" by blast
  show ?thesis
  proof (cases "reduceOperation (po_machine current) event \<lparr>next_effect_id = cl_newEffectId call k\<rparr>")
    case (Inl e)
    then show ?thesis using assms c by (simp add: apply_event_def)
  next
    case (Inr t)
    obtain state effs where t: "t = (state, effs)" by (cases t)
    let ?next = "current\<lparr>po_machine := state, po_requirement_plan :=
        (case patch of None \<Rightarrow> po_requirement_plan current | Some p \<Rightarrow> Some p)\<rparr>"
    have inv: "machine_inv (po_machine ?next)"
      using machine_inv_reduce [OF machines_ok_read [OF assms(2) c]] Inr t by simp
    obtain res d where cas: "compareAndSwap (cl_cfg call) (cl_schedule call k) ident (po_revision current)
        ?next (sv_disk svc) = (res, d)" by (metis surj_pair)
    have "machines_ok d" by (rule cas_ok [OF assms(1,2) inv cas])
    moreover have "sv_disk svc' = d"
      using assms(3) c Inr t cas by (auto simp: apply_event_def Let_def split: sum.splits option.splits bool.splits)
    ultimately show ?thesis by simp
  qed
next
  case False
  then show ?thesis using assms(2,3) by (auto simp: apply_event_def split: sum.splits option.splits)
qed

lemma apply_dispatch_ok:
  assumes "call_ok call" "svc_ok svc" "apply_and_dispatch call k ident event patch svc = (out, svc')"
  shows "svc_ok svc'"
  using apply_ok [OF assms(1,2), of k ident event patch] assms(3)
  by (auto simp: apply_and_dispatch_def split: prod.splits sum.splits if_splits)

lemma failAbandoned_ok:
  assumes "call_ok call" "svc_ok svc"
  shows "svc_ok (failAbandoned call k r e svc)"
  using apply_ok [OF assms] apply_dispatch_ok [OF assms]
  by (auto simp: failAbandoned_def split: option.split) (metis surj_pair snd_conv)+

lemma cancel_ok:
  assumes "call_ok call" "svc_ok svc"
  shows "svc_ok (snd (svc_cancel call ident svc))"
  using apply_ok [OF assms, of 0 ident Ev_cancel None]
  by (auto simp: svc_cancel_def Let_def split: prod.split sum.split)

lemma resume_ok:
  assumes "call_ok call" "svc_ok svc"
  shows "svc_ok (snd (svc_resume call ident input svc))"
  using assms(2) apply_dispatch_ok [OF assms, of 0 ident _ None]
  by (auto simp: svc_resume_def Let_def split: prod.split sum.split option.split)

lemma receipt_next_ok:
  assumes "machine_inv (po_machine current)" "receipt_next opts call k current receipt = Inr nxt"
  shows "machine_inv (po_machine nxt)"
  using assms machine_inv_reduce
  by (auto simp: receipt_next_def split: sum.splits)

lemma accept_ok:
  assumes "call_ok call"
  shows "svc_ok svc \<Longrightarrow> svc_ok (snd (accept_attempts opts call k n ident receipt svc))"
proof (induction n arbitrary: k svc)
  case (Suc n)
  show ?case
  proof (cases "\<exists>current nxt. store_read (sv_disk svc) ident = Inr (Some current) \<and>
      receipt_next opts call k current receipt = Inr nxt")
    case True
    then obtain current nxt where c: "store_read (sv_disk svc) ident = Inr (Some current)"
      "receipt_next opts call k current receipt = Inr nxt" by blast
    obtain res d where cas: "compareAndSwap (cl_cfg call) (cl_schedule call k) ident (po_revision current)
        nxt (sv_disk svc) = (res, d)" by (metis surj_pair)
    have "machine_inv (po_machine nxt)"
      using receipt_next_ok [OF machines_ok_read [OF Suc.prems c(1)] c(2)] .
    then have "machines_ok d" using cas_ok [OF assms Suc.prems _ cas] by blast
    then show ?thesis using c cas Suc.IH by (auto split: sum.split bool.split)
  qed (use Suc.prems in \<open>auto split: sum.split option.split\<close>)
qed simp

lemma blocker_ok:
  assumes "call_ok call" "svc_ok svc" "endAbandonedBlocker opts call k e svc = (b, svc')"
  shows "svc_ok svc'"
  using assms failAbandoned_ok [OF assms(1,2)]
  by (auto simp: endAbandonedBlocker_def split: if_splits option.splits sum.splits)

lemma begin_ok:
  assumes "call_ok call" "svc_ok svc"
  shows "svc_ok (snd (beginWith opts call e input fu ro svc))"
proof (cases "beginFingerprint (sp_sha opts) input")
  case (Inl err)
  then show ?thesis using assms by (simp add: beginWith_def)
next
  case (Inr dg)
  let ?create = "\<lambda>k d. createOrGet (cl_cfg call) (cl_schedule call k) e input dg fu ro d"
  have create: "machines_ok d'" if "machines_ok d" "?create k d = (out, d')" for k d out d'
    using create_ok [OF assms(1)] that by blast
  obtain out d1 where c0: "?create 0 (sv_disk svc) = (out, d1)" by (metis surj_pair)
  have d1: "machines_ok d1" using create [OF assms(2) c0] .
  show ?thesis
  proof (cases out)
    case (Inr c)
    then show ?thesis using c0 d1 \<open>beginFingerprint _ _ = _\<close> by (simp add: beginWith_def Let_def)
  next
    case (Inl err)
    obtain b svc2 where b: "endAbandonedBlocker opts call 1 err (svc\<lparr>sv_disk := d1\<rparr>) = (b, svc2)"
      by (metis surj_pair)
    have svc2: "svc_ok svc2" using blocker_ok [OF assms(1) _ b] d1 by simp
    obtain out2 d2 where c2: "?create 2 (sv_disk svc2) = (out2, d2)" by (metis surj_pair)
    have "machines_ok d2" using create [OF svc2 c2] .
    then show ?thesis using c0 Inl b svc2 c2 \<open>beginFingerprint _ _ = _\<close>
      by (auto simp: beginWith_def Let_def split: bool.split sum.split)
  qed
qed

lemma recover_one_ok:
  assumes "call_ok call" "svc_ok svc" "machine_inv (po_machine r)"
  shows "svc_ok (recover_one opts call inst k r svc)"
proof (cases "ownerAlive opts r \<or> sp_provisioner opts = None")
  case True
  then show ?thesis using assms failAbandoned_ok by (auto simp: recover_one_def)
next
  case False
  then obtain p where p: "sp_provisioner opts = Some p" "\<not> ownerAlive opts r" by auto
  let ?deps = "\<lparr>rd_instanceId = inst, rd_newEffectId = (\<lambda>i. cl_newEffectId call (k + i)), rd_inventory = pv_inventory p\<rparr>"
  have swap: "machines_ok d'" if "machine_inv (po_machine r')"
      "compareAndSwap (cl_cfg call) (cl_schedule call k) (po_id r) (po_revision r) r' (sv_disk svc) = (out, d')" for r' out d'
    using cas_ok [OF assms(1,2) that] .
  show ?thesis
  proof (cases "finished r")
    case True
    then show ?thesis using p assms by (simp add: recover_one_def recoverOperation_def ok_def)
  next
    case unfinished: False
    show ?thesis
    proof (cases "recoverOperation r ?deps")
      case (Inl e)
      then show ?thesis using p assms by (simp add: recover_one_def)
    next
      case (Inr out)
      have "case out of Unchanged _ \<Rightarrow> True | Reconciled r' _ \<Rightarrow> machine_inv (po_machine r')
          | Blocked r' _ \<Rightarrow> machine_inv (po_machine r')"
        using recovered_inv [OF assms(3) unfinished Inr] .
      then show ?thesis using p Inr swap assms(2)
        by (auto simp: recover_one_def split: recovery_outcome.splits prod.split sum.split bool.split)
    qed
  qed
qed

lemma owned_calls_ok:
  assumes "call_ok call"
  shows "svc_ok svc \<Longrightarrow> record_owned_calls call k ident ids svc = (out, svc') \<Longrightarrow> svc_ok svc'"
proof (induction ids arbitrary: k svc)
  case (Cons i ids)
  obtain res d where o: "recordOwned (cl_cfg call) (cl_schedule call k) ident i (sv_disk svc) = (res, d)"
    by (metis surj_pair)
  have "machines_ok d" using own_ok [OF assms Cons.prems(1) o] .
  then show ?case using Cons.prems o Cons.IH [of "svc\<lparr>sv_disk := d\<rparr>"] by (cases res) auto
qed (simp add: ok_def)

lemma execute_ok:
  assumes "call_ok call" "svc_ok svc" "execute call p effect r ident svc = (out, svc')"
  shows "svc_ok svc'"
  using assms owned_calls_ok [OF assms(1,2)]
  by (cases "ef_kind effect") (auto simp: execute_def Let_def split: prod.splits sum.splits)

lemma no_answer_snd: "no_answer x = (out, svc) \<Longrightarrow> snd x = svc"
  by (auto simp: no_answer_def split: prod.splits sum.splits)

lemma perform_body_ok:
  assumes "call_ok call" "svc_ok svc" "perform_body opts call task svc = (out, svc')"
  shows "svc_ok svc'"
proof -
  have a: "svc_ok (snd (apply_event call k i ev pt s))" if "svc_ok s" for k i ev pt s
    using apply_ok [OF assms(1) that] by (metis surj_pair snd_conv)
  have d: "svc_ok (snd (apply_and_dispatch call k i ev pt s))" if "svc_ok s" for k i ev pt s
    using apply_dispatch_ok [OF assms(1) that] by (metis surj_pair snd_conv)
  show ?thesis
    using assms(2,3) a d execute_ok [OF assms(1,2)]
    by (auto simp: perform_body_def Let_def split: if_splits option.splits sum.splits prod.splits
        dest!: no_answer_snd)
qed

lemma perform_ok:
  assumes "call_ok call" "svc_ok svc"
  shows "svc_ok (perform opts call task svc)"
proof -
  obtain out svc1 where b: "perform_body opts call task svc = (out, svc1)" by (metis surj_pair)
  have ok1: "svc_ok svc1" using perform_body_ok [OF assms b] .
  have a: "svc_ok (snd (apply_event call k i ev pt s))" if "svc_ok s" for k i ev pt s
    using apply_ok [OF assms(1) that] by (metis surj_pair snd_conv)
  show ?thesis using b ok1 a by (auto simp: perform_def Let_def split: sum.split)
qed

section \<open>Properties\<close>


text \<open>The processes this core can show to be gone.\<close>

definition proven_gone :: "identity_deps \<Rightarrow> persisted_operation \<Rightarrow> bool" where
  "proven_gone deps r \<longleftrightarrow> (case po_owner_pid r of None \<Rightarrow> True
     | Some pid \<Rightarrow> identityPermitsTakeover (verifyProcessIdentity pid (po_owner_process_start_id r) deps))"

text \<open>
  C18.  Nobody's work is taken away on suspicion: a \<open>begin\<close> that is refused ends the operation in its way only
  when that operation is unfinished, is not waiting on the user, and belongs to a process shown to be
  gone (or to none); otherwise, and in the recovery of a record whose owner is not shown to be gone,
  the service's state does not change at all.
\<close>

theorem only_abandoned_operations_are_ended:
  "(endAbandonedBlocker opts call k e svc = (True, svc') \<longrightarrow>
      (\<exists>ident r. err_details e = Some ident \<and> store_read (sv_disk svc) ident = Inr (Some r) \<and> \<not> finished r \<and>
         po_phase r \<notin> set WAITING \<and> proven_gone (sp_identityDeps opts) r)) \<and>
   (endAbandonedBlocker opts call k e svc = (False, svc') \<longrightarrow> svc' = svc) \<and>
   (\<not> proven_gone (sp_identityDeps opts) owned \<longrightarrow> recover_one opts call inst k owned svc = svc)"
  by (auto simp: endAbandonedBlocker_def proven_gone_def ownerAlive_def recover_one_def
      split: if_splits option.splits sum.splits)

section \<open>Receipts\<close>

lemma cas_trueD:
  assumes "compareAndSwap cfg sch ident revn nxt d = (Inr True, d')" "storable nxt"
  shows "\<exists>current. store_read d' ident = Inr (Some (stamp cfg (merge_owned current nxt))) \<and> po_id nxt = ident"
proof -
  have busy: "busy \<noteq> Inr True" by (simp add: busy_def)
  from assms(1) obtain d0 d1 token where run: "compareAndSwap_run cfg ident revn nxt d0 = (Inr True, d1)"
      "d' = release token d1"
    unfolding compareAndSwap_def using busy by (cases rule: withLock_cases) auto
  obtain current where c: "store_read d0 ident = Inr (Some current)" "po_revision current = revn"
    using run(1) by (auto simp: compareAndSwap_run_def ok_def split: sum.splits option.splits if_splits)
  have "po_id nxt = ident" using op_store.cas_foreign [OF c, of nxt cfg] run(1) by fastforce
  then have "store_read d1 ident = Inr (Some (stamp cfg (merge_owned current nxt)))"
    using op_store.cas_commits [OF c _ assms(2), of cfg] run(1) by auto
  then show ?thesis using same_records_read [OF same_records_release] run(2) \<open>po_id nxt = ident\<close> by auto
qed

lemma receipt_nextD:
  assumes "receipt_next opts call k current receipt = Inr nxt"
  shows "\<exists>step verdict effects. bind_receipt opts current receipt = Inr step \<and>
    verdictFor opts current receipt = Inr verdict \<and>
    reduceOperation (po_machine current) (receipt_event current receipt verdict)
      \<lparr>next_effect_id = cl_newEffectId call k\<rparr> = Inr (po_machine nxt, effects) \<and>
    map_of (po_accepted_receipt_digests nxt) (rc_nonce receipt) \<noteq> None"
  using assms
  by (auto simp: receipt_next_def withReceipt_def AList.update_conv' split: sum.splits)

lemma spent_nonce_refused:
  assumes "map_of (po_accepted_receipt_digests r) (rc_nonce receipt) \<noteq> None"
  shows "\<exists>e. bind_receipt opts r receipt = Inl e \<and> err_code e = ''MANAGED_RECEIPT_CONFLICT''"
  using assms
  by (auto simp: bind_receipt_def classifyReceipt_def receiptConflict_def ok_def err_def
      receiptIdentity_ok split: option.splits)

lemma bind_receiptD:
  assumes "bind_receipt opts current receipt = Inr step"
  shows "op_pending_host_step (po_operation current) = Some step \<and> hs_nonce step = rc_nonce receipt \<and>
    hs_step_id step = rc_step_id receipt \<and>
    hs_expected_operation_revision step = rc_expected_operation_revision receipt \<and>
    hs_recipe_digest step = rc_recipe_digest receipt \<and> hs_parameters_digest step = rc_parameters_digest receipt \<and>
    map_of (po_accepted_receipt_digests current) (rc_nonce receipt) = None"
  using assms
  by (auto simp: bind_receipt_def classifyReceipt_def receiptConflict_def ok_def
      split: sum.splits receipt_verdict.splits option.splits if_splits)

lemma accepted_receipt:
  assumes "accept_attempts opts call k n ident receipt svc = (Inr operation, svc')"
  shows "\<exists>current nxt j d. receipt_next opts call j current receipt = Inr nxt \<and> operation = po_operation nxt \<and>
    compareAndSwap (cl_cfg call) (cl_schedule call j) ident (po_revision current) nxt d = (Inr True, sv_disk svc')"
  using assms
proof (induction n arbitrary: k svc)
  case (Suc n)
  obtain current nxt where c: "store_read (sv_disk svc) ident = Inr (Some current)"
      "receipt_next opts call k current receipt = Inr nxt"
    using Suc.prems by (auto simp: notFound_def split: sum.splits option.splits)
  obtain res d where cas: "compareAndSwap (cl_cfg call) (cl_schedule call k) ident (po_revision current)
      nxt (sv_disk svc) = (res, d)" by (metis surj_pair)
  show ?case
  proof (cases "res = Inr True")
    case True
    then show ?thesis using Suc.prems c cas by (auto simp: ok_def) metis
  next
    case False
    then have "res = Inr False"
      using Suc.prems c cas by (cases res) (auto split: bool.splits)
    then show ?thesis using Suc.IH Suc.prems c cas by simp
  qed
qed simp


end
