(* ===== verification/Service_Flow.thy ===== *)
theory Service_Flow
  imports Service_Props Machine_Props
begin

text \<open>
  The service and the store together, call by call: what finishing an effect does, and three sequences
  in which the parts do not fit as their comments say.
\<close>

section \<open>Applying an event nobody interferes with\<close>

lemma apply_commits:
  fixes patch :: "requirement_plan option"
  assumes "lock_free (cl_cfg call) (cl_schedule call k) (sv_disk svc)"
    and "store_read (sv_disk svc) ident = Inr (Some r)" "po_id r = ident"
    and "reduceOperation (po_machine r) event \<lparr>next_effect_id = cl_newEffectId call k\<rparr> = Inr (m, effects)"
    and "op_operation_id (m_operation m) = ident" "op_revision (m_operation m) \<le> MAX_SAFE_INTEGER"
  defines "nxt \<equiv> r\<lparr>po_machine := m, po_requirement_plan :=
      (case patch of None \<Rightarrow> po_requirement_plan r | Some p \<Rightarrow> Some p)\<rparr>"
  shows "\<exists>d stored. apply_event call k ident event patch svc =
      (Inr (nxt, True), announce (m_operation m) (svc\<lparr>sv_disk := d\<rparr>)) \<and>
    store_read d ident = Inr (Some stored) \<and> po_machine stored = m \<and>
    po_accepted_receipt_digests stored = po_accepted_receipt_digests r \<and>
    (\<forall>other. other \<noteq> ident \<longrightarrow> store_read d other = store_read (sv_disk svc) other)"
proof -
  have id: "po_id nxt = ident" "storable nxt" using assms(5,6) by (simp_all add: nxt_def storable_def)
  obtain d where d: "compareAndSwap (cl_cfg call) (cl_schedule call k) ident (po_revision r) nxt (sv_disk svc) = (Inr True, d)"
      "store_read d ident = Inr (Some (stamp (cl_cfg call) (merge_owned r nxt)))"
      "\<forall>other. other \<noteq> ident \<longrightarrow> store_read d other = store_read (sv_disk svc) other"
    using compareAndSwap_free [OF assms(1,2) refl id] by blast
  have "apply_event call k ident event patch svc = (Inr (nxt, True), announce (m_operation m) (svc\<lparr>sv_disk := d\<rparr>))"
    using assms(2,4) d(1) by (simp add: apply_event_def Let_def nxt_def [symmetric] ok_def) (simp add: nxt_def)
  moreover have "po_machine nxt = m" "po_accepted_receipt_digests nxt = po_accepted_receipt_digests r"
    by (simp_all add: nxt_def)
  ultimately show ?thesis using d(2,3) by auto
qed

section \<open>A reducer's refusal leaves the store alone\<close>

lemma apply_refused:
  assumes "store_read (sv_disk svc) ident = Inr (Some r)"
    and "reduceOperation (po_machine r) event \<lparr>next_effect_id = cl_newEffectId call k\<rparr> = Inl e"
  shows "apply_event call k ident event patch svc = (Inl e, svc)"
  using assms by (simp add: apply_event_def)

text \<open>An answer computed for another revision is refused with \<open>MANAGED_OPERATION_CONFLICT\<close>.\<close>

lemma stale_answer_refused:
  assumes "event_identity_of event = Some i" "ei_expected_revision i \<noteq> op_revision (m_operation m)"
  shows "\<exists>e. reduceOperation m event input = Inl e \<and> err_code e = ''MANAGED_OPERATION_CONFLICT''"
  using assms
  by (auto simp: reduceOperation_def reduce_guard_def conflict_def err_def split: option.split)

section \<open>Finishing an effect\<close>

text \<open>The external work of an effect that is one call, and the event it answers with.\<close>

fun work_of :: "environment_provisioner \<Rightarrow> effect_kind \<Rightarrow> persisted_operation \<Rightarrow> unit result option" where
  "work_of p Pull_image r = Some (pv_pull p r)"
| "work_of p Verify r = Some (pv_verify p r)"
| "work_of p Unload_resident r = Some (pv_unloadResident p r)"
| "work_of p Activate r = Some (pv_activate p r)"
| "work_of p Remove_effect r = Some (pv_remove p r)"
| "work_of p Cleanup r = Some (pv_cleanup p r)"
| "work_of p _ r = None"

fun work_event :: "effect_kind \<Rightarrow> event_identity \<Rightarrow> operation_event" where
  "work_event Pull_image i = Ev_image_pulled i"
| "work_event Verify i = Ev_verification_passed i"
| "work_event Unload_resident i = Ev_resident_unloaded i"
| "work_event Activate i = Ev_activation_committed i"
| "work_event Remove_effect i = Ev_removal_completed i"
| "work_event _ i = Ev_cleanup_completed i"

lemma work_event_facts:
  assumes "work_of p k r = Some done"
  shows "ANSWERS (work_event k i) = Some k \<and> event_identity_of (work_event k i) = Some i \<and>
    final_answer (work_event k i) \<and> k \<notin> {Probe, Reconcile, Host_step}"
  using assms by (cases k) (simp_all add: final_answer_def)

definition work_done :: "effect_kind \<Rightarrow> persisted_operation \<Rightarrow> service_state \<Rightarrow> service_state" where
  "work_done k r svc = (if k = Pull_image then svc\<lparr>sv_progress := AList.delete (po_id r) (sv_progress svc)\<rparr> else svc)"

lemma work_done_simps [simp]:
  "sv_disk (work_done k r svc) = sv_disk svc" "sv_aborted (work_done k r svc) = sv_aborted svc"
  by (simp_all add: work_done_def)

lemma execute_work:
  assumes "work_of p (ef_kind effect) r = Some done"
  shows "execute call p effect r ident svc =
    ((case done of Inl e \<Rightarrow> Inl e | Inr _ \<Rightarrow> Inr (work_event (ef_kind effect) ident)), work_done (ef_kind effect) r svc)"
  using assms by (cases "ef_kind effect") (simp_all add: execute_def work_done_def Let_def ok_def split: sum.split)

lemma own_answer_moves:
  assumes "machine_inv m" "m_pending_effect m = Some e" "ef_expected_revision e = op_revision (m_operation m)"
    and "ANSWERS event = Some (ef_kind e)" "final_answer event"
    and "event_identity_of event = Some \<lparr>ei_effect_id = ef_effect_id e, ei_expected_revision = ef_expected_revision e\<rparr>"
  shows "\<exists>m' effects. reduceOperation m event input = Inr (m', effects) \<and>
    op_revision (m_operation m') = op_revision (m_operation m) + 1 \<and>
    op_operation_id (m_operation m') = op_operation_id (m_operation m)"
proof -
  have "effect_fits (op_phase (m_operation m)) (Some (ef_kind e))"
    using assms(1,2) by (simp add: machine_inv_def inv_effect_def)
  then obtain m' effects where r: "reduce_event m event input = Inr (m', effects)"
    using own_answer_accepted [OF _ assms(4)] by (fastforce simp: accepted_def)
  have "reduce_guard m event = Inr ()" using assms(2-4,6) by (simp add: guard_Inr)
  then have red: "reduceOperation m event input = Inr (m', effects)" using r by (simp add: reduceOperation_Inr)
  have "machine_rank m' < machine_rank m" using final_answer_rank [OF assms(1,5) red] .
  then have "m' \<noteq> m" by auto
  moreover have "moves_once m (m', effects)" using moves_event [of m event input] r by (simp add: moves_def)
  ultimately show ?thesis using red by (auto simp: moves_once_def same_operation_def)
qed

text \<open>The identity an effect's answer carries.\<close>

definition effect_identity :: "effect_intent \<Rightarrow> event_identity" where
  "effect_identity e = \<lparr>ei_effect_id = ef_effect_id e, ei_expected_revision = ef_expected_revision e\<rparr>"

lemma perform_body_work:
  assumes "sp_provisioner opts = Some p" "work_of p (ef_kind (tk_effect task)) (tk_record task) = Some (Inr ())"
  shows "perform_body opts call task svc =
    no_answer (apply_and_dispatch call 0 (po_id (tk_record task))
      (work_event (ef_kind (tk_effect task)) (effect_identity (tk_effect task))) None
      (work_done (ef_kind (tk_effect task)) (tk_record task) svc))"
  using assms work_event_facts [OF assms(2)] execute_work [OF assms(2)]
  by (simp add: perform_body_def Let_def effect_identity_def)

lemma perform_disk:
  "perform_body opts call task svc = (Inr (), svc1) \<Longrightarrow> sv_disk (perform opts call task svc) = sv_disk svc1"
  "perform_body opts call task svc = (Inl e, svc1) \<Longrightarrow> err_code e = ''MANAGED_OPERATION_CONFLICT'' \<Longrightarrow>
    sv_disk (perform opts call task svc) = sv_disk svc1"
  by (simp_all add: perform_def Let_def)


section \<open>A lock that stays busy\<close>

text \<open>A live holder keeps the lock through every attempt.\<close>

definition lock_busy :: "store_config \<Rightarrow> lock_schedule \<Rightarrow> disk \<Rightarrow> bool" where
  "lock_busy cfg sch d \<longleftrightarrow> quiet sch \<and> fs_exists d Lock_file \<and>
     (\<forall>a. \<not> older_than (cf_lockTtlMs cfg) (ls_now sch a) Lock_file d)"

lemma acquire_busy:
  assumes "quiet sch" "fs_exists d Lock_file" "\<forall>a. \<not> older_than ttl (ls_now sch a) Lock_file d"
  shows "\<exists>d'. acquire ttl sch k n d = (None, d') \<and> same_records d d'"
  using assms(2,3)
proof (induction n arbitrary: k d)
  case (Suc n)
  let ?d = "snd (tryTakeoverStale ttl (ls_now sch k) d)"
  have same: "same_records d ?d" by (rule same_records_takeover)
  have lock: "map_of ?d Lock_file = map_of d Lock_file"
    using Suc.prems(2) by (auto simp: tryTakeoverStale_def fs_openExclusive_def older_than_iff split: option.split if_splits)
  have "\<exists>d'. acquire ttl sch (k + 1) n ?d = (None, d') \<and> same_records ?d d'"
    using Suc.prems by (intro Suc.IH) (simp_all add: fs_exists_def older_than_iff lock)
  then show ?case
    using acquire_held [of sch k d ttl n] assms(1) Suc.prems(1) same same_records_trans
    by (auto simp: quiet_def simp del: acquire.simps)
qed simp

lemma compareAndSwap_busy:
  assumes "lock_busy cfg sch d"
  shows "\<exists>d'. compareAndSwap cfg sch ident revn nxt d = (busy, d') \<and> same_records d d'"
  using acquire_busy [of sch d "cf_lockTtlMs cfg" 0 "cf_lockAttempts cfg"] assms
  by (auto simp: compareAndSwap_def withLock_def lock_busy_def)

text \<open>
  Work that finished can be forgotten: while another core holds the lock through every attempt, the
  result of an effect whose external work succeeded is dropped.  The store's busy refusal has the code
  \<open>perform\<close> takes for a superseded result, so nothing is written, not even a failure, and no task is
  left running the effect the record goes on waiting for.
\<close>

theorem busy_lock_drops_finished_work:
  assumes "sp_provisioner opts = Some p" "work_of p (ef_kind e) r = Some (Inr ())"
    and "tk_record task = r" "tk_effect task = e" "m_pending_effect (po_machine r) = Some e"
    and "ef_expected_revision e = po_revision r" "machine_inv (po_machine r)"
    and "store_read (sv_disk svc) (po_id r) = Inr (Some r)"
    and "lock_busy (cl_cfg call) (cl_schedule call 0) (sv_disk svc)"
  shows "store_read (sv_disk (perform opts call task svc)) ident = store_read (sv_disk svc) ident \<and>
    (\<forall>t \<in> set (sv_running (perform opts call task svc)). tk_controller t \<noteq> tk_controller task) \<and>
    sv_log (perform opts call task svc) = sv_log svc"
proof -
  let ?ev = "work_event (ef_kind e) (effect_identity e)"
  let ?svc = "work_done (ef_kind e) r svc"
  note ev = work_event_facts [OF assms(2), of "effect_identity e"]
  obtain m effects where m: "reduceOperation (po_machine r) ?ev \<lparr>next_effect_id = cl_newEffectId call 0\<rparr> = Inr (m, effects)"
    using own_answer_moves [OF assms(7,5,6), of ?ev "\<lparr>next_effect_id = cl_newEffectId call 0\<rparr>"] ev
    by (auto simp: effect_identity_def)
  let ?next = "r\<lparr>po_machine := m, po_requirement_plan := po_requirement_plan r\<rparr>"
  obtain d where d: "compareAndSwap (cl_cfg call) (cl_schedule call 0) (po_id r) (po_revision r) ?next (sv_disk svc) = (busy, d)"
      "same_records (sv_disk svc) d"
    using compareAndSwap_busy [OF assms(9)] by blast
  have "apply_event call 0 (po_id r) ?ev None ?svc = (busy, ?svc\<lparr>sv_disk := d\<rparr>)"
    using assms(8) m d(1) by (simp add: apply_event_def Let_def busy_def err_def)
  then have body: "perform_body opts call task svc = (busy, ?svc\<lparr>sv_disk := d\<rparr>)"
    using perform_body_work [OF assms(1), of task call svc] assms(2-4)
    by (simp add: apply_and_dispatch_def no_answer_def busy_def err_def)
  have "sv_disk (perform opts call task svc) = d" "sv_log (perform opts call task svc) = sv_log svc"
    using body by (auto simp: perform_def Let_def busy_def err_def work_done_def)
  moreover have "\<forall>t \<in> set (sv_running (perform opts call task svc)). tk_controller t \<noteq> tk_controller task"
    by (simp add: perform_def Let_def)
  ultimately show ?thesis using same_records_read [OF d(2)] by simp
qed

section \<open>Cancelling while an activation runs\<close>

lemma answer_refused:
  assumes "store_read (sv_disk svc) ident = Inr (Some r)" "event_identity_of event = Some i"
    and "ei_expected_revision i \<noteq> po_revision r"
  shows "\<exists>e. apply_event call k ident event patch svc = (Inl e, svc) \<and> err_code e = ''MANAGED_OPERATION_CONFLICT''"
  using stale_answer_refused [OF assms(2), of "po_machine r"] apply_refused [OF assms(1)] assms(3) by blast

text \<open>An effect issued at a revision the record has left writes nothing, whatever its work answered.\<close>

lemma stale_effect_writes_nothing:
  assumes "sp_provisioner opts = Some p" "work_of p (ef_kind (tk_effect task)) (tk_record task) = Some out"
    and "store_read (sv_disk svc) (po_id (tk_record task)) = Inr (Some r)"
    and "ef_expected_revision (tk_effect task) \<noteq> po_revision r"
  shows "sv_disk (perform opts call task svc) = sv_disk svc"
proof (cases out)
  case (Inr u)
  then have work: "work_of p (ef_kind (tk_effect task)) (tk_record task) = Some (Inr ())" using assms(2) by simp
  let ?svc = "work_done (ef_kind (tk_effect task)) (tk_record task) svc"
  obtain e where e: "apply_event call 0 (po_id (tk_record task))
        (work_event (ef_kind (tk_effect task)) (effect_identity (tk_effect task))) None ?svc = (Inl e, ?svc)"
      "err_code e = ''MANAGED_OPERATION_CONFLICT''"
    using answer_refused [of ?svc "po_id (tk_record task)" r
        "work_event (ef_kind (tk_effect task)) (effect_identity (tk_effect task))" "effect_identity (tk_effect task)" call 0 None]
      work_event_facts [OF work, of "effect_identity (tk_effect task)"] assms(3,4)
    by (auto simp: effect_identity_def)
  then have "perform_body opts call task svc = (Inl e, ?svc)"
    using perform_body_work [OF assms(1) work] by (simp add: apply_and_dispatch_def no_answer_def)
  then show ?thesis using perform_disk(2) e(2) by simp
next
  case (Inl e)
  let ?svc = "work_done (ef_kind (tk_effect task)) (tk_record task) svc"
  have body: "perform_body opts call task svc = (Inl e, ?svc)"
    using execute_work [OF assms(2)] work_event_facts [OF assms(2)] assms(1) Inl by (simp add: perform_body_def Let_def)
  have "sv_disk (snd (apply_event call 1 (po_id (tk_record task)) (Ev_failed (effect_identity (tk_effect task)) e) None svc'))
      = sv_disk svc'" if "sv_disk svc' = sv_disk svc" for svc'
    using answer_refused [of svc' "po_id (tk_record task)" r "Ev_failed (effect_identity (tk_effect task)) e"
        "effect_identity (tk_effect task)" call 1 None] that assms(3,4)
    by (auto simp: effect_identity_def)
  then show ?thesis using body by (simp add: perform_def Let_def effect_identity_def)
qed

text \<open>
  C19.  A cancellation during an activation starts the activation a second time and loses both: the cancel
  commits, aborts the running work, and dispatches the effect it kept as a new task; whatever this task
  and the one it doubles then answer, success or failure, nothing of it is ever written.
\<close>

theorem cancelled_activation_runs_twice:
  assumes "store_read (sv_disk svc) (po_id r) = Inr (Some r)" "machine_inv (po_machine r)"
    and "po_phase r = Activating" "\<not> op_cancellation_requested (po_operation r)"
    and "po_revision r < MAX_SAFE_INTEGER" "lock_free (cl_cfg call) (cl_schedule call 0) (sv_disk svc)"
    and "\<not> sv_stopped svc" "sp_provisioner opts = Some p"
  shows "\<exists>e operation task svc'. m_pending_effect (po_machine r) = Some e \<and>
    svc_cancel call (po_id r) svc = (Inr operation, svc') \<and>
    sv_running svc' = sv_running svc @ [task] \<and> tk_effect task = e \<and>
    (\<forall>c \<in> set_option (map_of (sv_aborts svc) (po_id r)). c \<in> set (sv_aborted svc')) \<and>
    (\<forall>t call'. tk_effect t = e \<and> po_id (tk_record t) = po_id r \<longrightarrow>
       sv_disk (perform opts call' t svc') = sv_disk svc')"
proof -
  obtain e where e: "m_pending_effect (po_machine r) = Some e" "ef_expected_revision e \<le> po_revision r"
      "ef_kind e = Unload_resident \<or> ef_kind e = Activate"
    using assms(2,3) by (auto simp: machine_inv_def inv_effect_def effect_fits_iff)
  let ?m = "(po_machine r)\<lparr>m_operation := (po_operation r)\<lparr>op_cancellation_requested := True,
      op_revision := po_revision r + 1\<rparr>, m_checkpoint := Some Activating\<rparr>"
  have red: "reduceOperation (po_machine r) Ev_cancel \<lparr>next_effect_id = cl_newEffectId call 0\<rparr> = Inr (?m, [])"
    using assms(3,4) inv_hostD [OF assms(2)]
    by (auto simp: reduceOperation_Inr guard_Inr reduce_cancel_def advance_Inr Let_def)
  have facts: "op_operation_id (m_operation ?m) = po_id r" "op_revision (m_operation ?m) \<le> MAX_SAFE_INTEGER"
    using assms(5) by simp_all
  let ?next = "r\<lparr>po_machine := ?m, po_requirement_plan := po_requirement_plan r\<rparr>"
  obtain d stored where a: "apply_event call 0 (po_id r) Ev_cancel None svc =
        (Inr (?next, True), announce (m_operation ?m) (svc\<lparr>sv_disk := d\<rparr>))"
      "store_read d (po_id r) = Inr (Some stored)" "po_machine stored = ?m"
    using apply_commits [OF assms(6,1) refl red facts, of None] by auto
  let ?task = "\<lparr>tk_record = ?next, tk_effect = e, tk_controller = sv_controllers svc\<rparr>"
  let ?svc = "dispatch ?next (abort_running (po_id r) (announce (m_operation ?m) (svc\<lparr>sv_disk := d\<rparr>)))"
  have cancel: "svc_cancel call (po_id r) svc = (Inr (m_operation ?m), ?svc)"
    using a(1) by (simp add: svc_cancel_def Let_def ok_def)
  have run: "sv_running ?svc = sv_running svc @ [?task]" "sv_disk ?svc = d"
    "\<forall>c \<in> set_option (map_of (sv_aborts svc) (po_id r)). c \<in> set (sv_aborted ?svc)"
    using e(1) assms(3,7)
    by (simp_all add: dispatch_def abort_running_def announce_def emit_def Let_def split: option.split)
  have "sv_disk (perform opts call' t ?svc) = sv_disk ?svc"
    if "tk_effect t = e" "po_id (tk_record t) = po_id r" for t call'
  proof -
    have "\<exists>out. work_of p (ef_kind (tk_effect t)) (tk_record t) = Some out" using that e(3) by auto
    then obtain out where "work_of p (ef_kind (tk_effect t)) (tk_record t) = Some out" ..
    then show ?thesis
      using stale_effect_writes_nothing [OF assms(8), of t out ?svc stored call'] that e(2) a(2,3) run(2) by simp
  qed
  then show ?thesis using e(1) cancel run by (intro exI [of _ e] exI [of _ "m_operation ?m"] exI [of _ ?task] exI [of _ ?svc]) simp
qed

section \<open>Resuming beside another operation\<close>

text \<open>
  A resume does not ask whether the environment is busy: an operation that failed is taken up again,
  and is running, while another operation of the same environment is unfinished.  Only the beginning of
  an operation looks for others, so two can work on one environment at once.
\<close>

theorem resume_beside_an_unfinished_operation:
  assumes "store_read (sv_disk svc) (po_id a) = Inr (Some a)" "po_phase a = Failed"
    and "store_read (sv_disk svc) (po_id b) = Inr (Some b)" "po_phase b \<notin> set TERMINAL" "po_id a \<noteq> po_id b"
    and "op_environment_id (po_operation a) = op_environment_id (po_operation b)"
    and "po_revision a < MAX_SAFE_INTEGER" "lock_free (cl_cfg call) (cl_schedule call 0) (sv_disk svc)"
    and "\<not> sv_stopped svc"
  shows "\<exists>operation svc' a' task.
    svc_resume call (po_id a) \<lparr>rs_expected_revision = po_revision a, rs_approved_plan_digest = None\<rparr> svc =
      (Inr operation, svc') \<and>
    store_read (sv_disk svc') (po_id a) = Inr (Some a') \<and> po_phase a' \<notin> set TERMINAL \<and>
    store_read (sv_disk svc') (po_id b) = Inr (Some b) \<and>
    op_environment_id (po_operation a') = op_environment_id (po_operation b) \<and>
    sv_running svc' = sv_running svc @ [task] \<and> po_id (tk_record task) = po_id a"
proof -
  let ?in = "\<lparr>next_effect_id = cl_newEffectId call 0\<rparr>"
  let ?ev = "Ev_resume \<lparr>rs_expected_revision = po_revision a, rs_approved_plan_digest = None\<rparr>"
  obtain m effects where red: "reduceOperation (po_machine a) ?ev ?in = Inr (m, effects)"
      and m: "op_operation_id (m_operation m) = po_id a" "op_revision (m_operation m) = po_revision a + 1"
      "op_phase (m_operation m) = Checking" "op_environment_id (m_operation m) = op_environment_id (po_operation a)"
      "m_pending_effect m \<noteq> None"
    using assms(2)
    by (auto simp: reduceOperation_Inr guard_Inr reduce_resume_def advance_Inr Let_def issued_effect_def)
  have small: "op_revision (m_operation m) \<le> MAX_SAFE_INTEGER" using m(2) assms(7) by simp
  let ?next = "a\<lparr>po_machine := m, po_requirement_plan := po_requirement_plan a\<rparr>"
  obtain d stored where ap: "apply_event call 0 (po_id a) ?ev None svc =
        (Inr (?next, True), announce (m_operation m) (svc\<lparr>sv_disk := d\<rparr>))"
      "store_read d (po_id a) = Inr (Some stored)" "po_machine stored = m"
      "\<forall>other. other \<noteq> po_id a \<longrightarrow> store_read d other = store_read (sv_disk svc) other"
    using apply_commits [OF assms(8,1) refl red m(1) small, of None] by auto
  let ?svc = "dispatch ?next (announce (m_operation m) (svc\<lparr>sv_disk := d\<rparr>))"
  have resume: "svc_resume call (po_id a) \<lparr>rs_expected_revision = po_revision a, rs_approved_plan_digest = None\<rparr> svc =
      (Inr (m_operation m), ?svc)"
    using assms(1,2) ap(1) by (simp add: svc_resume_def apply_and_dispatch_def Let_def ok_def)
  have "sv_disk ?svc = d"
    "\<exists>task. sv_running ?svc = sv_running svc @ [task] \<and> po_id (tk_record task) = po_id a"
    using assms(9) m(1,3,5) by (auto simp: dispatch_def announce_def emit_def Let_def split: option.split)
  moreover have "store_read d (po_id b) = Inr (Some b)" using ap(4) assms(3,5) by simp
  moreover have "po_phase stored \<notin> set TERMINAL"
    "op_environment_id (po_operation stored) = op_environment_id (po_operation b)" using ap(3) m(3,4) assms(6) by simp_all
  ultimately show ?thesis using resume ap(2) by metis
qed

end
