(* ===== verification/Removal.thy ===== *)
theory Removal
  imports Store_Files Canonical_Json_Props
begin

text \<open>
  Installations and the plan that removes one (\<open>installations.ts\<close>, \<open>store-models.ts\<close> and
  \<open>runtime-removal-plan.ts\<close> under \<open>src/src/runtime/environment\<close>).  The installations directory is the
  association list from its subdirectories to the \<open>installation.json\<close> in them; a subdirectory without
  the file has no entry.  A file holds what a completed write put there, or other text.
\<close>

section \<open>The installation store\<close>

record installation_record =
  ir_installation :: runtime_installation
  ir_image :: platform_image
  ir_probe_image :: "platform_image option"
  ir_platform :: string
  ir_installed_at :: string

datatype installation_file = Inst_record installation_record | Inst_text string

type_synonym installations = "(string \<times> installation_file) list"

definition readPath :: "installations \<Rightarrow> string \<Rightarrow> installation_record option" where
  "readPath d name = (case map_of d name of Some (Inst_record r) \<Rightarrow> Some r | _ \<Rightarrow> None)"

definition installations_read :: "installations \<Rightarrow> string \<Rightarrow> installation_record option result" where
  "installations_read d installationId =
     (case encodeManagedId installationId of Inl e \<Rightarrow> Inl e | Inr seg \<Rightarrow> ok (readPath d seg))"

fun readable :: "installations \<Rightarrow> string list \<Rightarrow> installation_record list" where
  "readable d [] = []"
| "readable d (name # names) =
     (case readPath d name of None \<Rightarrow> readable d names | Some r \<Rightarrow> r # readable d names)"

definition installations_list :: "installations \<Rightarrow> installation_record list" where
  "installations_list d = readable d (sort (map fst d))"

text \<open>
  A write goes to a file of its own and is renamed over the record, so that the file is the old one or
  the new one at every moment; the record it stands under is the id it names.
\<close>

definition installations_write :: "installation_record \<Rightarrow> installations \<Rightarrow> unit result \<times> installations" where
  "installations_write r d =
     (case encodeManagedId (ri_installation_id (ir_installation r)) of
        Inl e \<Rightarrow> (Inl e, d)
      | Inr seg \<Rightarrow> (ok (), AList.update seg (Inst_record r) d))"

definition installations_remove :: "string \<Rightarrow> installations \<Rightarrow> unit result \<times> installations" where
  "installations_remove installationId d =
     (case encodeManagedId installationId of
        Inl e \<Rightarrow> (Inl e, d) | Inr seg \<Rightarrow> (ok (), AList.delete seg d))"

section \<open>The models\<close>

definition otherEngines :: "installations \<Rightarrow> string \<Rightarrow> string list" where
  "otherEngines d target_installation =
     sort (js_unique (map ri_engine_id
       (filter (\<lambda>i. ri_active_descriptor_id i \<noteq> None \<and> ri_status i \<noteq> St_removing)
         (filter (\<lambda>i. ri_installation_id i \<noteq> target_installation)
           (map ir_installation (installations_list d))))))"

definition storeModelsChange :: "bool \<Rightarrow> string list \<Rightarrow> managed_system_change list" where
  "storeModelsChange retainModels usedBy =
     (if retainModels then []
      else if usedBy \<noteq> [] then
        [\<lparr>sc_code = ''keep-models'',
          sc_text = ''The downloaded models stay: '' @ js_join '', '' usedBy @ '' still uses them.'',
          sc_params = Some [(''engines'', js_join '','' usedBy)]\<rparr>]
      else [\<lparr>sc_code = ''remove-models'', sc_text = ''Delete the downloaded models of the managed engines.'',
             sc_params = None\<rparr>])"

section \<open>The removal plan\<close>

definition image_name :: "platform_image \<Rightarrow> string" where
  "image_name i = pi_repository i @ ''@'' @ pi_digest i"

definition js_image :: "platform_image \<Rightarrow> js_value" where
  "js_image i = J_object [(''repository'', J_string (pi_repository i)), (''digest'', J_string (pi_digest i))]"

definition installed_changes :: "installation_record \<Rightarrow> managed_system_change list" where
  "installed_changes existing =
     [\<lparr>sc_code = ''remove-image'',
       sc_text = ''Remove the engine image '' @ image_name (ir_image existing)
                 @ '', unless another container still uses it.'',
       sc_params = Some [(''image'', image_name (ir_image existing))]\<rparr>]
     @ (case ir_probe_image existing of
          None \<Rightarrow> []
        | Some probe \<Rightarrow>
            [\<lparr>sc_code = ''remove-probe-image'',
              sc_text = ''Remove the GPU check image '' @ image_name probe @ '', unless something else still uses it.'',
              sc_params = Some [(''image'', image_name probe)]\<rparr>])
     @ [\<lparr>sc_code = ''remove-engine-caches'', sc_text = ''Remove the engine caches built for this installation.'',
         sc_params = Some [(''descriptor_id'',
           case ri_active_descriptor_id (ir_installation existing) of None \<Rightarrow> [] | Some i \<Rightarrow> i)]\<rparr>]"

definition removal_changes ::
  "string \<Rightarrow> installation_record option \<Rightarrow> bool \<Rightarrow> string list \<Rightarrow> managed_system_change list" where
  "removal_changes engine existing retainModels usedBy =
     [\<lparr>sc_code = ''unload-sessions'',
       sc_text = ''Unload any loaded '' @ engine @ '' model, waiting until its container has stopped.'',
       sc_params = None\<rparr>,
      \<lparr>sc_code = ''remove-containers'', sc_text = ''Remove this app's own '' @ engine @ '' containers.'',
       sc_params = None\<rparr>]
     @ (case existing of None \<Rightarrow> [] | Some e \<Rightarrow> installed_changes e)
     @ storeModelsChange retainModels usedBy
     @ [\<lparr>sc_code = ''remove-installation'', sc_text = ''Forget the installation.'', sc_params = None\<rparr>]"

definition removal_value ::
  "managed_operation_target \<Rightarrow> installation_record option \<Rightarrow> bool \<Rightarrow> managed_system_change list \<Rightarrow> js_value" where
  "removal_value target existing retainModels changes = J_object
     [(''kind'', J_string ''remove''), (''target'', js_target target),
      (''installation'', js_nullable (\<lambda>e. J_object
         [(''descriptor_id'', js_nullable J_string (ri_active_descriptor_id (ir_installation e))),
          (''image'', js_image (ir_image e))]) existing),
      (''retain_models'', J_bool retainModels),
      (''system_changes'', J_array (map js_system_change changes))]"

definition runtimeRemovalPlan ::
  "(string \<Rightarrow> string) \<Rightarrow> persisted_operation \<Rightarrow> string \<Rightarrow> string \<Rightarrow> string \<Rightarrow> installations
     \<Rightarrow> requirement_plan result" where
  "runtimeRemovalPlan sha r installationId engine environmentId d =
     (case installations_read d installationId of
        Inl e \<Rightarrow> Inl e
      | Inr existing \<Rightarrow>
          let target = Target_runtime installationId engine;
              retainModels = (bo_retain_models (po_request r) \<noteq> Some False);
              changes = removal_changes engine existing retainModels (otherEngines d installationId) in
          (case canonicalDigest sha (removal_value target existing retainModels changes) of
             Inl e \<Rightarrow> Inl e
           | Inr digest \<Rightarrow> ok
               \<lparr>pl_plan_digest = digest, pl_environment_id = environmentId, pl_target = target,
                pl_availability = (if existing = None then Setup_required else Supported),
                pl_recipe_id = ''none'', pl_recipe_digest = ''sha256:'' @ replicate 64 CHR ''0'',
                pl_descriptor_id = (case existing of None \<Rightarrow> None
                                    | Some e \<Rightarrow> ri_active_descriptor_id (ir_installation e)),
                pl_environment_manifest_id = None,
                pl_image_digest = (case existing of None \<Rightarrow> None | Some e \<Rightarrow> Some (pi_digest (ir_image e))),
                pl_adopts_existing_engine = True, pl_system_changes = changes,
                pl_download_bytes = None, pl_required_disk_bytes = None, pl_docker_root_dir = None,
                pl_free_disk_bytes = None, pl_requires_elevation = False, pl_may_require_relogin = False,
                pl_may_require_reboot = False, pl_blockers = [], pl_warnings = []\<rparr>))"

section \<open>The interface the planner relies on\<close>

text \<open>
  \<open>Pick<InstallationStore, 'read' | 'list'>\<close> beside the writes that feed it: what is written under an id is
  what is read and listed, and what was removed is gone; nothing else changes.
\<close>

locale installation_store =
  fixes rd :: "'s \<Rightarrow> string \<Rightarrow> installation_record option result"
    and ls :: "'s \<Rightarrow> installation_record list"
    and wr :: "installation_record \<Rightarrow> 's \<Rightarrow> unit result \<times> 's"
    and rmv :: "string \<Rightarrow> 's \<Rightarrow> unit result \<times> 's"
  assumes rd_wr: "ri_installation_id (ir_installation r) \<noteq> [] \<Longrightarrow>
      rd (snd (wr r s)) ident = (if ident = ri_installation_id (ir_installation r) then Inr (Some r) else rd s ident)"
    and rd_rmv: "ident \<noteq> [] \<Longrightarrow> gone \<noteq> [] \<Longrightarrow>
      rd (snd (rmv gone s)) ident = (if ident = gone then Inr None else rd s ident)"
    and ls_rd: "rd s ident = Inr (Some r) \<Longrightarrow> r \<in> set (ls s)"
begin

lemma written_is_listed: "ri_installation_id (ir_installation r) \<noteq> [] \<Longrightarrow> r \<in> set (ls (snd (wr r s)))"
  using rd_wr ls_rd by metis

lemma removed_beside_others:
  "ident \<noteq> [] \<Longrightarrow> gone \<noteq> [] \<Longrightarrow> ident \<noteq> gone \<Longrightarrow> rd s ident = Inr (Some r) \<Longrightarrow> r \<in> set (ls (snd (rmv gone s)))"
  using rd_rmv ls_rd by metis

end

lemma set_readable: "r \<in> set (readable d names) \<longleftrightarrow> (\<exists>name \<in> set names. readPath d name = Some r)"
  by (induction names) (auto split: option.split)

lemma listed: "r \<in> set (installations_list d) \<longleftrightarrow> (\<exists>name. readPath d name = Some r)"
proof -
  have "name \<in> fst ` set d" if "readPath d name = Some r" for name
    using that by (auto simp: readPath_def split: option.splits dest: map_of_SomeD intro: rev_image_eqI)
  then show ?thesis by (auto simp: installations_list_def set_readable)
qed

lemma encode_same: "encodeManagedId a = Inr s \<Longrightarrow> encodeManagedId b = Inr s \<Longrightarrow> a = b"
  using decode_bytes_encoded [of a s] decode_bytes_encoded [of b s] by simp

interpretation inst_files: installation_store installations_read installations_list installations_write installations_remove
proof
  fix r :: installation_record and s ident
  assume "ri_installation_id (ir_installation r) \<noteq> []"
  then obtain seg where "encodeManagedId (ri_installation_id (ir_installation r)) = Inr seg" using encode_ok by blast
  then show "installations_read (snd (installations_write r s)) ident =
      (if ident = ri_installation_id (ir_installation r) then Inr (Some r) else installations_read s ident)"
    using encode_same [of "ri_installation_id (ir_installation r)" seg ident]
    by (cases "encodeManagedId ident")
      (auto simp: installations_read_def installations_write_def readPath_def AList.update_conv' ok_def)
next
  fix ident gone :: string and s
  assume "ident \<noteq> []" "gone \<noteq> []"
  then obtain a b where ab: "encodeManagedId ident = Inr a" "encodeManagedId gone = Inr b" using encode_ok by metis
  then show "installations_read (snd (installations_remove gone s)) ident =
      (if ident = gone then Inr None else installations_read s ident)"
    using encode_same [of ident a gone] ab
    by (auto simp: installations_read_def installations_remove_def readPath_def AList.delete_conv' ok_def)
next
  fix s ident r
  assume "installations_read s ident = Inr (Some r)"
  then show "r \<in> set (installations_list s)" by (auto simp: installations_read_def listed ok_def split: sum.splits)
qed

section \<open>Plans always exist, and say what happens to the models\<close>

text \<open>An installation that keeps the models alive when \<open>gone\<close> is removed.\<close>

definition uses_models :: "string \<Rightarrow> installation_record \<Rightarrow> bool" where
  "uses_models gone r \<longleftrightarrow> ri_installation_id (ir_installation r) \<noteq> gone \<and>
     ri_active_descriptor_id (ir_installation r) \<noteq> None \<and> ri_status (ir_installation r) \<noteq> St_removing"

lemma set_otherEngines:
  "set (otherEngines d gone) = {ri_engine_id (ir_installation r) | r. r \<in> set (installations_list d) \<and> uses_models gone r}"
  by (auto simp: otherEngines_def uses_models_def)

lemma representable_image: "representable (normal (js_image i))"
  unfolding js_image_def by (rule representable_object) simp

lemma representable_removal: "representable (normal (removal_value t e b c))"
  unfolding removal_value_def
  by (rule representable_object)
    (auto simp: js_nullable_def representable_image split: option.split
      intro!: representable_object representable_array representable_change
      simp del: normal.simps(1,2))

lemma removal_plan:
  assumes "installationId \<noteq> []"
  shows "\<exists>plan existing. runtimeRemovalPlan sha r installationId engine environmentId d = Inr plan \<and>
    installations_read d installationId = Inr existing \<and>
    pl_system_changes plan = removal_changes engine existing (bo_retain_models (po_request r) \<noteq> Some False)
      (otherEngines d installationId)"
proof -
  obtain seg where "encodeManagedId installationId = Inr seg" using assms encode_ok by blast
  then have read: "installations_read d installationId = Inr (readPath d seg)" by (simp add: installations_read_def ok_def)
  have "\<exists>dg. canonicalDigest sha (removal_value t e b c) = Inr dg" for t e b c
  proof -
    have "canonicalJson (removal_value t e b c) = Inr (print_value (normal (removal_value t e b c)))"
      by (simp add: canonicalJson_iff representable_removal)
    then show ?thesis by (simp add: canonicalDigest_def ok_def)
  qed
  then obtain dg where "canonicalDigest sha (removal_value (Target_runtime installationId engine) (readPath d seg)
      (bo_retain_models (po_request r) \<noteq> Some False) (removal_changes engine (readPath d seg)
        (bo_retain_models (po_request r) \<noteq> Some False) (otherEngines d installationId))) = Inr dg" by blast
  with read show ?thesis by (simp add: runtimeRemovalPlan_def Let_def ok_def)
qed

definition deletes_models :: "managed_system_change list \<Rightarrow> bool" where
  "deletes_models changes \<longleftrightarrow> ''remove-models'' \<in> set (map sc_code changes)"

lemma removal_deletes_models:
  "deletes_models (removal_changes engine existing retain usedBy) \<longleftrightarrow> \<not> retain \<and> usedBy = []"
  by (auto simp: deletes_models_def removal_changes_def installed_changes_def storeModelsChange_def split: option.split)

lemma no_other_engines:
  "otherEngines d gone = [] \<longleftrightarrow> \<not> list_ex (uses_models gone) (installations_list d)"
  using set_otherEngines [of d gone] by (auto simp: list_ex_iff simp flip: set_empty)

lemma removal_plan_models:
  assumes "installationId \<noteq> []"
  shows "\<exists>plan. runtimeRemovalPlan sha r installationId engine environmentId d = Inr plan \<and>
    (deletes_models (pl_system_changes plan) \<longleftrightarrow> bo_retain_models (po_request r) = Some False \<and>
       \<not> list_ex (uses_models installationId) (installations_list d))"
  using removal_plan [OF assms, of sha r engine environmentId d] by (auto simp: removal_deletes_models no_other_engines)

text \<open>
  C22.  The models outlive an engine that another one needs: a removal always has a plan, and the plan
  deletes the downloaded models exactly when the request says \<open>retain_models: false\<close> and no readable
  record of another installation is active and not itself being removed.  Once another engine's
  activation has written such a record, no removal's plan deletes them.
\<close>

theorem models_deleted_only_when_unused:
  assumes "installationId \<noteq> []"
  shows "(\<exists>plan. runtimeRemovalPlan sha r installationId engine environmentId d = Inr plan \<and>
      (deletes_models (pl_system_changes plan) \<longleftrightarrow> bo_retain_models (po_request r) = Some False \<and>
         \<not> list_ex (uses_models installationId) (installations_list d))) \<and>
    (uses_models installationId other \<and> ri_installation_id (ir_installation other) \<noteq> [] \<longrightarrow>
      (\<exists>plan. runtimeRemovalPlan sha r installationId engine environmentId (snd (installations_write other d)) = Inr plan \<and>
         \<not> deletes_models (pl_system_changes plan)))"
proof -
  have "list_ex (uses_models installationId) (installations_list (snd (installations_write other d)))"
    if "uses_models installationId other" "ri_installation_id (ir_installation other) \<noteq> []"
    using inst_files.written_is_listed [OF that(2)] that(1) by (auto simp: list_ex_iff)
  then show ?thesis
    using removal_plan_models [OF assms, of sha r engine environmentId d]
      removal_plan_models [OF assms, of sha r engine environmentId "snd (installations_write other d)"] by blast
qed

text \<open>
  One fingerprint, two removals: a removal that leaves \<open>retain_models\<close> out and the same one with
  \<open>retain_models: false\<close> have the same fingerprint, so the second is taken for a retry of the first; yet
  on a machine with no other engine, only the second one's plan deletes the downloaded models.
\<close>

theorem one_fingerprint_two_removals:
  assumes "installationId \<noteq> []" "bo_retain_models (po_request r) = None"
    and "\<not> list_ex (uses_models installationId) (installations_list d)"
  shows "\<exists>plan plan'. let asked = (po_request r)\<lparr>bo_retain_models := Some False\<rparr> in
    beginFingerprint sha asked = beginFingerprint sha (po_request r) \<and>
    runtimeRemovalPlan sha r installationId engine environmentId d = Inr plan \<and>
    runtimeRemovalPlan sha (r\<lparr>po_request := asked\<rparr>) installationId engine environmentId d = Inr plan' \<and>
    \<not> deletes_models (pl_system_changes plan) \<and> deletes_models (pl_system_changes plan')"
proof -
  have plan: "\<exists>plan. runtimeRemovalPlan sha q installationId engine environmentId d = Inr plan \<and>
      (deletes_models (pl_system_changes plan) \<longleftrightarrow> bo_retain_models (po_request q) = Some False)" for q
    using removal_plan_models [OF assms(1), of sha q engine environmentId d] assms(3) by blast
  have "beginFingerprint sha ((po_request r)\<lparr>bo_retain_models := Some False\<rparr>) = beginFingerprint sha (po_request r)"
    using assms(2) by (simp add: beginFingerprint_def begin_value_def)
  then show ?thesis
    using plan [of r] plan [of "r\<lparr>po_request := (po_request r)\<lparr>bo_retain_models := Some False\<rparr>\<rparr>"] assms(2)
    by (auto simp: Let_def)
qed

end
