(* ===== verification/Store_Witness.thy ===== *)
theory Store_Witness
  imports Store_Runs Store_Reset Store_Lock Recovery Machine_Witness
begin

text \<open>
  A concrete store: one operation on its way to activation, first begun on an empty disk, and the
  properties of the store, its lock and of recovery applied to it.
\<close>

section \<open>A concrete record and its disk\<close>

definition ex_request :: begin_operation where
  "ex_request = \<lparr>bo_request_id = ''rq'', bo_target = Target_runtime ''i1'' ''vllm'', bo_kind = Setup,
     bo_descriptor_id = Some ''d1'', bo_retain_models = None, bo_approved_plan_digest = Some ''sha256:A''\<rparr>"

definition ex_record_of :: "operation_machine \<Rightarrow> persisted_operation" where
  "ex_record_of m = \<lparr>po_machine = m, po_request_digest = ''sha256:R'', po_request = ex_request,
     po_requirement_plan = Some ex_plan, po_accepted_receipt_digests = [], po_completed_effect_ids = [],
     po_owned_resource_ids = [''net''], po_owner_pid = Some 7, po_owner_process_start_id = None,
     po_follow_up = None, po_reinstall_of = None\<rparr>"

definition ex_record :: persisted_operation where
  "ex_record = ex_record_of (ex_machine Setup 4)"

definition ex_disk :: disk where
  "ex_disk = [(Operation_path ''op.json'', \<lparr>fi_content = Record ex_record, fi_mtime = 0\<rparr>)]"

definition ex_cfg :: store_config where
  "ex_cfg = \<lparr>cf_instanceId = ''core'', cf_newOperationId = ''op'', cf_newEffectId = ''e0'', cf_owner_pid = 7,
     cf_owner_startId = None, cf_now = 5, cf_lockTtlMs = 1000, cf_lockAttempts = 5\<rparr>"

lemma ex_facts [simp]:
  "po_id ex_record = ''op''" "po_revision ex_record = 4" "po_phase ex_record = Activating"
  "operationFileName ''op'' = Inr ''op.json''"
  "bak ''op.json'' = ''op.json.bak''"
  by code_simp+

lemma ex_storable [simp]: "storable ex_record"
  by (simp add: storable_def MAX_SAFE_INTEGER_def)

lemma ex_read [simp]: "store_read ex_disk ''op'' = Inr (Some ex_record)"
  by (simp add: store_read_def read_named_def readRecord_def ex_disk_def ok_def)

definition ex_next_record :: persisted_operation where
  "ex_next_record = ex_record\<lparr>po_machine := (ex_machine Setup 4)\<lparr>m_operation :=
     (m_operation (ex_machine Setup 4))\<lparr>op_revision := 5\<rparr>\<rparr>, po_owned_resource_ids := [''vol'']\<rparr>"

lemma ex_next_facts [simp]: "po_id ex_next_record = ''op''" "po_revision ex_next_record = 5" "storable ex_next_record"
  using ex_facts(1) by (simp_all add: ex_next_record_def storable_def MAX_SAFE_INTEGER_def ex_record_def ex_record_of_def)

section \<open>Writes, commits and begins\<close>

theorem interrupted_write_leaves_a_copy_witness:
  "write_crash ex_cfg ex_record ex_disk (write_tmp ex_cfg ''op.json'' (stamp ex_cfg ex_record) ex_disk) \<and>
   store_read (write_tmp ex_cfg ''op.json'' (stamp ex_cfg ex_record) ex_disk) ''op'' \<in>
     {Inr (Some ex_record), Inr (Some (stamp ex_cfg ex_record))}"
proof -
  have "write_crash ex_cfg ex_record ex_disk (write_tmp ex_cfg ''op.json'' (stamp ex_cfg ex_record) ex_disk)"
    by (rule crash_written) simp
  moreover have "\<not> torn_main ex_disk (po_id ex_record)"
    by (simp add: torn_main_def readRecord_def ex_disk_def)
  ultimately show ?thesis using interrupted_write_leaves_a_copy [of ex_cfg ex_record ex_disk] by fastforce
qed

definition ex_torn_disk :: disk where
  "ex_torn_disk = [(Operation_path ''op.json'', \<lparr>fi_content = Plain_text ''{'', fi_mtime = 0\<rparr>),
                   (Operation_path ''op.json.bak'', \<lparr>fi_content = Record ex_record, fi_mtime = 0\<rparr>)]"

theorem torn_record_then_crash_loses_both_witness:
  "\<exists>d'. write_crash ex_cfg ex_record ex_torn_disk d' \<and> store_read d' ''op'' = corrupt ''op''"
  using torn_record_then_crash_loses_both [of ex_record "''op.json''" ex_torn_disk "''{''" 0 ex_record ex_cfg]
  by (simp add: ex_torn_disk_def readRecord_def)

theorem commit_lands_on_its_revision_witness:
  "(\<exists>d'. compareAndSwap_run ex_cfg ''op'' 4 ex_next_record ex_disk = (Inr True, d')) \<and>
   compareAndSwap_run ex_cfg ''op'' 3 ex_next_record ex_disk = (Inr False, ex_disk)"
  using commit_lands_on_its_revision [of ex_disk "''op''" ex_record ex_next_record 4 ex_cfg]
    commit_lands_on_its_revision [of ex_disk "''op''" ex_record ex_next_record 3 ex_cfg] by auto

lemma ex_commit: "\<exists>d'. compareAndSwap_run ex_cfg ''op'' 4 ex_next_record ex_disk = (Inr True, d')"
  using op_store.cas_commits [of ex_disk "''op''" ex_record 4 ex_next_record ex_cfg] by auto

theorem second_writer_loses_witness:
  "\<exists>d'. compareAndSwap_run ex_cfg ''op'' 4 ex_next_record ex_disk = (Inr True, d') \<and>
     compareAndSwap_run ex_cfg ''op'' 4 ex_record d' = (Inr False, d')"
  using ex_commit second_writer_loses [of ex_cfg "''op''" 4 ex_next_record ex_disk _ ex_cfg ex_record] by auto

lemma ex_begin: "\<exists>c d'. createOrGet_run ex_cfg ''env'' ex_request ''sha256:R'' None None [] = (Inr c, d') \<and> cg_created c"
proof -
  have "po_id (fresh_record ex_cfg ''env'' ex_request ''sha256:R'' None None) = ''op''" by code_simp
  then show ?thesis
    by (simp add: createOrGet_run_def store_all_def base_names_def readdir_operations_def js_unique_def
        store_write_def Let_def stamp_def ok_def)
qed

lemma ex_id_free: "new_id_free ex_cfg []"
  by (simp add: new_id_free_def ex_cfg_def store_read_def read_named_def readRecord_def fs_exists_def ok_def)

theorem retried_begin_is_the_same_operation_witness:
  "\<exists>c d'. createOrGet_run ex_cfg ''env'' ex_request ''sha256:R'' None None [] = (Inr c, d') \<and>
     createOrGet_run ex_cfg ''env'' ex_request ''sha256:R'' None None d' = (Inr \<lparr>cg_record = cg_record c, cg_created = False\<rparr>, d')"
  using ex_begin retried_begin_is_the_same_operation
    [of ex_cfg "''env''" ex_request "''sha256:R''" None None "[]" _ _ ex_request ex_cfg "''env''" None None, OF _ ex_id_free refl]
  by blast

theorem begins_only_on_an_idle_environment_witness:
  "\<exists>c d' rs'. createOrGet_run ex_cfg ''env'' ex_request ''sha256:R'' None None [] = (Inr c, d') \<and>
     store_all d' = Inr rs' \<and>
     {r \<in> set rs'. op_environment_id (po_operation r) = ''env'' \<and> \<not> finished r} = {cg_record c}"
  using ex_begin begins_only_on_an_idle_environment
    [of ex_cfg "''env''" ex_request "''sha256:R''" None None "[]", OF _ _ ex_id_free] by blast

section \<open>Histories\<close>

definition ex_begun :: disk where
  "ex_begun = snd (createOrGet_run ex_cfg ''env'' ex_request ''sha256:R'' None None [])"

lemma ex_begun_call: "store_call [] ex_begun"
  unfolding ex_begun_def by (rule call_begin) (rule ex_id_free)

lemma ex_begun_reached: "store_reached ex_begun"
  by (rule reached_step [where step = store_call, OF reached_start ex_begun_call]) (rule refl)

theorem no_history_tears_a_record_witness:
  "store_read ex_begun ''op'' = Inr None \<or> (\<exists>r. store_read ex_begun ''op'' = Inr (Some r) \<and> po_id r = ''op'')"
  using no_history_tears_a_record [OF ex_begun_reached ex_facts(4)] .


section \<open>Reset and receipts\<close>

theorem reset_moves_only_finished_operations_witness:
  "\<exists>e. archiveFinished_run ''/r'' ''s1'' ex_disk = (Inl e, ex_disk) \<and> err_code e = ''MANAGED_OPERATION_CONFLICT''"
proof -
  have all: "store_all ex_disk = Inr [ex_record]"
    by (simp add: store_all_def base_names_def readdir_operations_def ex_disk_def ends_with_def readRecord_def
        js_unique_def ok_def)
  obtain out d' where run: "archiveFinished_run ''/r'' ''s1'' ex_disk = (out, d')" by (metis surj_pair)
  then show ?thesis using reset_moves_only_finished_operations [OF all _ run] by auto
qed

definition ex_receipt :: managed_host_receipt where
  "ex_receipt = \<lparr>rc_step_id = ''s1'', rc_nonce = ''n1'', rc_expected_operation_revision = 1,
     rc_recipe_digest = ''sha256:P'', rc_parameters_digest = ''sha256:Q'', rc_outcome = Out_completed,
     rc_receipt_id = ''r1'', rc_log_tail = Some ''done''\<rparr>"

theorem receipt_nonce_is_spent_once_witness:
  "\<exists>r. withReceipt id ex_record ex_receipt = Inr r \<and>
     classifyReceipt id r (ex_receipt\<lparr>rc_log_tail := None\<rparr>) = Inr Duplicate \<and>
     (\<exists>e. classifyReceipt id r (ex_receipt\<lparr>rc_outcome := Out_failed\<rparr>) = Inl e)"
proof -
  obtain r where r: "withReceipt id ex_record ex_receipt = Inr r"
    using receiptIdentity_ok [of id ex_receipt] by (auto simp: withReceipt_def ok_def)
  have "classifyReceipt id r (ex_receipt\<lparr>rc_log_tail := None\<rparr>) = Inr Duplicate"
    using receipt_nonce_is_spent_once [OF r, of "ex_receipt\<lparr>rc_log_tail := None\<rparr>"] by (simp add: ex_receipt_def)
  moreover have "\<exists>e. classifyReceipt id r (ex_receipt\<lparr>rc_outcome := Out_failed\<rparr>) = Inl e"
    using receipt_nonce_is_spent_once [OF r, of "ex_receipt\<lparr>rc_outcome := Out_failed\<rparr>"] by (auto simp: ex_receipt_def)
  ultimately show ?thesis using r by blast
qed

section \<open>The lock\<close>

definition ex_lock :: lock_state where
  "ex_lock = \<lparr>lk_disk = [], lk_clock = 0, lk_pc = (\<lambda>_. Outside)\<rparr>"

definition ex_opened :: lock_state where
  "ex_opened = ex_lock\<lparr>lk_disk := fs_writeFile Lock_file (Plain_text []) 0 [],
     lk_pc := (lk_pc ex_lock)(0 := Opened ''t0'' 0)\<rparr>"

definition ex_locked :: lock_state where
  "ex_locked = ex_opened\<lparr>lk_disk := fs_writeFile Lock_file (Plain_text ''t0'') (lk_clock ex_opened) (lk_disk ex_opened),
     lk_pc := (lk_pc ex_opened)(0 := Inside ''t0'' 0)\<rparr>"


definition ex_schedule :: lock_schedule where
  "ex_schedule = \<lparr>ls_token = (\<lambda>a. ''t''), ls_now = (\<lambda>a. 5000), ls_others = (\<lambda>a d. d)\<rparr>"


section \<open>Recovery\<close>

definition ex_inventory :: effect_inventory where
  "ex_inventory = \<lparr>iv_inspect = (\<lambda>_ _. Inr (Finding_foreign ''vol'')), iv_needsRelogin = (\<lambda>_. Inr False),
     iv_needsReboot = (\<lambda>_. Inr False), iv_verifyCompletedSteps = (\<lambda>_. Inr []),
     iv_currentPlanDigest = (\<lambda>_. Inr None)\<rparr>"

definition ex_deps :: recovery_deps where
  "ex_deps = \<lparr>rd_instanceId = ''core2'', rd_newEffectId = (\<lambda>i. ''x''), rd_inventory = ex_inventory\<rparr>"

lemma ex_machine_inv: "machine_inv (po_machine ex_record)"
  using env_machine.reached_inv [OF ex_setup_4] by (simp add: ex_record_def ex_record_of_def)

lemma ex_pending: "m_pending_effect (po_machine ex_record) =
    Some \<lparr>ef_effect_id = ''e4'', ef_operation_id = ''op'', ef_expected_revision = 4, ef_kind = Activate,
          ef_plan_digest = Some ''sha256:A''\<rparr>"
  by code_simp

theorem recovery_adopts_only_what_is_shown_witness:
  "\<exists>r'. recoverOperation ex_record ex_deps = Inr (Blocked r' (foreign_error ''vol'')) \<and> po_phase r' = Failed"
proof -
  have found: "found ex_deps ex_record = Inr (Finding_foreign ''vol'')"
    using ex_pending by (simp add: found_def ex_deps_def ex_inventory_def)
  then obtain out where out: "recoverOperation ex_record ex_deps = Inr out"
    by (simp add: recover_unfinished ok_def)
  show ?thesis using recovery_adopts_only_what_is_shown [OF ex_machine_inv _ out] found out by auto
qed

end
