(* ===== verification/Service_Witness.thy ===== *)
theory Service_Witness
  imports Service_Flow Removal Store_Witness
begin

text \<open>
  A concrete service on the store of \<open>Store_Witness\<close>: a provisioner whose work succeeds, a core that
  meets no other, and the properties of the service and of removals applied to it.
\<close>

section \<open>A concrete service\<close>

definition ex_provisioner :: environment_provisioner where
  "ex_provisioner = \<lparr>pv_probe = (\<lambda>_. Inr \<lparr>pp_plan = ex_plan, pp_host_step = None, pp_image_present = None\<rparr>),
     pv_verifyHostStep = (\<lambda>_. Inr \<lparr>hv_prerequisites_met = True, hv_needs_relogin = False, hv_error = None,
                                   hv_address_pools_configured = None\<rparr>),
     pv_addressPoolsConfigured = None, pv_prepare = (\<lambda>_. ([[''net'']], Inr ())), pv_pull = (\<lambda>_. Inr ()),
     pv_verify = (\<lambda>_. Inr ()), pv_unloadResident = (\<lambda>_. Inr ()), pv_activate = (\<lambda>_. Inr ()),
     pv_remove = (\<lambda>_. Inr ()), pv_cleanup = (\<lambda>_. Inr ()), pv_inventory = ex_inventory\<rparr>"

definition ex_identity :: identity_deps where
  "ex_identity = \<lparr>id_platform = Linux, id_readText = (\<lambda>_. None), id_run = (\<lambda>_ _ _. None),
     id_kill = (\<lambda>pid. if pid = 7 then Delivered else Refused_other)\<rparr>"

definition ex_opts :: service_options where
  "ex_opts = \<lparr>sp_environmentId = ''env'', sp_instanceId = ''core'', sp_provisioner = Some ex_provisioner,
     sp_identityDeps = ex_identity, sp_sha = id, sp_root = ''/r''\<rparr>"

definition ex_call :: service_call where
  "ex_call = \<lparr>cl_cfg = ex_cfg, cl_schedule = (\<lambda>_. ex_schedule), cl_newEffectId = (\<lambda>_. ''n'')\<rparr>"

definition ex_svc :: "disk \<Rightarrow> service_state" where
  "ex_svc d = \<lparr>sv_disk = d, sv_aborts = [], sv_aborted = [], sv_controllers = 0, sv_progress = [], sv_latest = [],
     sv_running = [], sv_finishing = [], sv_stopped = False, sv_log = []\<rparr>"

lemma ex_svc_simps [simp]:
  "sv_disk (ex_svc d) = d" "\<not> sv_stopped (ex_svc d)" "sv_running (ex_svc d) = []" "sv_aborts (ex_svc d) = []"
  "cl_cfg ex_call = ex_cfg" "cl_schedule ex_call k = ex_schedule" "sp_provisioner ex_opts = Some ex_provisioner"
  by (simp_all add: ex_svc_def ex_call_def ex_opts_def)

lemma ex_quiet [simp]: "quiet ex_schedule"
  by (simp add: quiet_def ex_schedule_def)

lemma ex_lock_free: "\<not> fs_exists d Lock_file \<Longrightarrow> lock_free ex_cfg ex_schedule d"
  by (simp add: lock_free_def ex_cfg_def)

lemma ex_disk_lock_free [simp]: "lock_free ex_cfg ex_schedule ex_disk"
  by (rule ex_lock_free) (simp add: ex_disk_def fs_exists_def)

definition ex_effect :: effect_intent where
  "ex_effect = \<lparr>ef_effect_id = ''e4'', ef_operation_id = ''op'', ef_expected_revision = 4, ef_kind = Activate,
     ef_plan_digest = Some ''sha256:A''\<rparr>"

definition ex_task :: effect_task where
  "ex_task = \<lparr>tk_record = ex_record, tk_effect = ex_effect, tk_controller = 0\<rparr>"

lemma ex_task_simps [simp]:
  "tk_record ex_task = ex_record" "tk_effect ex_task = ex_effect" "ef_kind ex_effect = Activate"
  "ef_expected_revision ex_effect = 4" "m_pending_effect (po_machine ex_record) = Some ex_effect"
  "pv_activate ex_provisioner r = Inr ()"
  using ex_pending by (simp_all add: ex_task_def ex_effect_def ex_provisioner_def)

section \<open>The service\<close>


theorem only_abandoned_operations_are_ended_witness:
  "recover_one ex_opts ex_call ''core'' 0 ex_record (ex_svc ex_disk) = ex_svc ex_disk \<and>
   (\<exists>svc'. endAbandonedBlocker ex_opts ex_call 0
      \<lparr>err_code = ''MANAGED_OPERATION_CONFLICT'', err_message = [], err_details = Some ''op''\<rparr> (ex_svc ex_disk) = (False, svc') \<and>
      svc' = ex_svc ex_disk)"
proof -
  have owner: "po_owner_pid ex_record = Some 7" "po_owner_process_start_id ex_record = None"
    by (simp_all add: ex_record_def ex_record_of_def)
  have alive: "\<not> proven_gone (sp_identityDeps ex_opts) ex_record"
    using owner by (simp add: proven_gone_def identityPermitsTakeover_def verifyProcessIdentity_def isProcessAlive_def
        ex_opts_def ex_identity_def)
  then have "ownerAlive ex_opts ex_record" using owner by (simp add: proven_gone_def ownerAlive_def)
  then have "\<exists>svc'. endAbandonedBlocker ex_opts ex_call 0
      \<lparr>err_code = ''MANAGED_OPERATION_CONFLICT'', err_message = [], err_details = Some ''op''\<rparr> (ex_svc ex_disk) = (False, svc')"
    by (simp add: endAbandonedBlocker_def)
  then show ?thesis using only_abandoned_operations_are_ended alive by blast
qed


definition ex_held_disk :: disk where
  "ex_held_disk = (Lock_file, \<lparr>fi_content = Plain_text ''u'', fi_mtime = 4999\<rparr>) # ex_disk"

theorem busy_lock_drops_finished_work_witness:
  "store_read (sv_disk (perform ex_opts ex_call ex_task (ex_svc ex_held_disk))) ''op'' = Inr (Some ex_record)"
proof -
  have read: "store_read ex_held_disk ''op'' = Inr (Some ex_record)"
    by (simp add: store_read_def read_named_def readRecord_def ex_held_disk_def ex_disk_def ok_def)
  have held: "lock_busy ex_cfg ex_schedule ex_held_disk"
    by (simp add: lock_busy_def fs_exists_def older_than_def ageOf_def ex_held_disk_def ex_schedule_def ex_cfg_def quiet_def)
  show ?thesis
    using busy_lock_drops_finished_work
        [of ex_opts ex_provisioner ex_effect ex_record ex_task "ex_svc ex_held_disk" ex_call "''op''"]
      ex_machine_inv read held by simp
qed

theorem cancelled_activation_runs_twice_witness:
  "\<exists>operation svc' task. svc_cancel ex_call ''op'' (ex_svc ex_disk) = (Inr operation, svc') \<and>
     sv_running svc' = [task] \<and> tk_effect task = ex_effect \<and>
     sv_disk (perform ex_opts ex_call ex_task svc') = sv_disk svc'"
proof -
  have "\<not> op_cancellation_requested (po_operation ex_record)" by code_simp
  then show ?thesis
    using cancelled_activation_runs_twice [of "ex_svc ex_disk" ex_record ex_call ex_opts ex_provisioner] ex_machine_inv
    by (fastforce simp: MAX_SAFE_INTEGER_def)
qed

definition ex_failed :: persisted_operation where
  "ex_failed = ex_record_of (the (run_events (ex_start Setup) [(ex_requirements, ex_next ''e1''),
     (Ev_failed (ex_id ''e1'' 1) ABANDONED, ex_next ''x'')]))"

definition ex_other :: persisted_operation where
  "ex_other = ex_record_of (fst (startOperation ((ex_input Setup)\<lparr>so_operation_id := ''op2''\<rparr>) (ex_next ''f0'')))"

definition ex_two_disk :: disk where
  "ex_two_disk = [(Operation_path ''op.json'', \<lparr>fi_content = Record ex_failed, fi_mtime = 0\<rparr>),
                  (Operation_path ''op2.json'', \<lparr>fi_content = Record ex_other, fi_mtime = 0\<rparr>)]"

lemma ex_two_facts [simp]:
  "po_id ex_failed = ''op''" "po_phase ex_failed = Failed" "po_revision ex_failed = 2"
  "op_environment_id (po_operation ex_failed) = ''env''" "op_environment_id (po_operation ex_other) = ''env''"
  "po_id ex_other = ''op2''" "po_phase ex_other = Checking" "po_revision ex_other = 0"
  "operationFileName ''op2'' = Inr ''op2.json''"
  by code_simp+

theorem resume_beside_an_unfinished_operation_witness:
  "\<exists>operation svc' a'.
     svc_resume ex_call ''op'' \<lparr>rs_expected_revision = 2, rs_approved_plan_digest = None\<rparr> (ex_svc ex_two_disk) =
       (Inr operation, svc') \<and>
     store_read (sv_disk svc') ''op'' = Inr (Some a') \<and> po_phase a' \<notin> set TERMINAL \<and>
     store_read (sv_disk svc') ''op2'' = Inr (Some ex_other)"
proof -
  have st: "storable ex_failed" "storable ex_other" by (simp_all add: storable_def MAX_SAFE_INTEGER_def)
  then have "store_read ex_two_disk ''op'' = Inr (Some ex_failed)" "store_read ex_two_disk ''op2'' = Inr (Some ex_other)"
    by (simp_all add: store_read_def read_named_def readRecord_def ex_two_disk_def ok_def)
  moreover have "lock_free ex_cfg ex_schedule ex_two_disk" by (rule ex_lock_free) (simp add: ex_two_disk_def fs_exists_def)
  ultimately show ?thesis
    using resume_beside_an_unfinished_operation [of "ex_svc ex_two_disk" ex_failed ex_other ex_call]
    by (fastforce simp: MAX_SAFE_INTEGER_def)
qed

section \<open>A receipt\<close>

definition ex_step :: managed_host_step where
  "ex_step = \<lparr>hs_step_id = ''s1'', hs_action = Windows_enable_wsl, hs_recipe_id = ''rec'', hs_recipe_digest = ''sha256:P'',
     hs_parameters_digest = ''sha256:Q'', hs_nonce = ''n1'', hs_expected_operation_revision = 1\<rparr>"

definition ex_host_record :: persisted_operation where
  "ex_host_record = ex_record_of (the (run_events (ex_start Setup) [(Ev_requirements_ready (ex_id ''e0'' 0)
     \<lparr>rq_plan = ex_plan, rq_host_step = Some ex_step, rq_image_present = None\<rparr>, ex_next ''h1'')]))"

definition ex_host_disk :: disk where
  "ex_host_disk = [(Operation_path ''op.json'', \<lparr>fi_content = Record ex_host_record, fi_mtime = 0\<rparr>)]"

definition ex_host_next :: persisted_operation where
  "ex_host_next = (case receipt_next ex_opts ex_call 0 ex_host_record ex_receipt of Inr r \<Rightarrow> r | Inl _ \<Rightarrow> ex_host_record)"

lemma ex_host_facts [simp]:
  "po_id ex_host_record = ''op''" "po_revision ex_host_record = 1" "po_phase ex_host_record = Preparing_host"
  "po_id ex_host_next = ''op''" "po_revision ex_host_next = 2" "po_phase ex_host_next = Preparing_environment"
  by code_simp+

lemma ex_host_next: "receipt_next ex_opts ex_call 0 ex_host_record ex_receipt = Inr ex_host_next"
  by (cases "receipt_next ex_opts ex_call 0 ex_host_record ex_receipt")
    (use ex_host_facts(2,5) in \<open>simp_all add: ex_host_next_def\<close>)


section \<open>Removals\<close>

definition ex_installation :: "string \<Rightarrow> string \<Rightarrow> installation_record" where
  "ex_installation i e = \<lparr>ir_installation = \<lparr>ri_installation_id = i, ri_engine_id = e, ri_environment_id = ''env'',
       ri_active_descriptor_id = Some ''d1'', ri_candidate_descriptor_id = None, ri_availability = Supported,
       ri_status = St_ready\<rparr>,
     ir_image = \<lparr>pi_repository = ''repo'', pi_digest = ''sha256:I''\<rparr>, ir_probe_image = None,
     ir_platform = ''linux/amd64'', ir_installed_at = ''t''\<rparr>"

definition ex_installations :: installations where
  "ex_installations = [(''i1'', Inst_record (ex_installation ''i1'' ''vllm''))]"

lemma ex_unused: "\<not> list_ex (uses_models ''i1'') (installations_list ex_installations)"
  by (simp add: installations_list_def ex_installations_def readPath_def uses_models_def ex_installation_def)

definition ex_deleting :: persisted_operation where
  "ex_deleting = ex_record\<lparr>po_request := ex_request\<lparr>bo_kind := Remove, bo_retain_models := Some False\<rparr>\<rparr>"

theorem models_deleted_only_when_unused_witness:
  "(\<exists>plan. runtimeRemovalPlan id ex_deleting ''i1'' ''vllm'' ''env'' ex_installations = Inr plan \<and>
      deletes_models (pl_system_changes plan)) \<and>
   (\<exists>plan. runtimeRemovalPlan id ex_deleting ''i1'' ''vllm'' ''env''
        (snd (installations_write (ex_installation ''i2'' ''trt'') ex_installations)) = Inr plan \<and>
      \<not> deletes_models (pl_system_changes plan))"
proof -
  have "uses_models ''i1'' (ex_installation ''i2'' ''trt'')"
    "ri_installation_id (ir_installation (ex_installation ''i2'' ''trt'')) \<noteq> []"
    by (simp_all add: uses_models_def ex_installation_def)
  moreover have "bo_retain_models (po_request ex_deleting) = Some False" by (simp add: ex_deleting_def)
  ultimately show ?thesis
    using models_deleted_only_when_unused [of "''i1''" id ex_deleting "''vllm''" "''env''" ex_installations
        "ex_installation ''i2'' ''trt''"] ex_unused by auto
qed

theorem one_fingerprint_two_removals_witness:
  "\<exists>plan plan'. runtimeRemovalPlan id ex_record ''i1'' ''vllm'' ''env'' ex_installations = Inr plan \<and>
     runtimeRemovalPlan id (ex_record\<lparr>po_request := ex_request\<lparr>bo_retain_models := Some False\<rparr>\<rparr>) ''i1'' ''vllm'' ''env''
       ex_installations = Inr plan' \<and>
     \<not> deletes_models (pl_system_changes plan) \<and> deletes_models (pl_system_changes plan')"
proof -
  have r: "po_request ex_record = ex_request" "bo_retain_models ex_request = None"
    by (simp_all add: ex_record_def ex_record_of_def ex_request_def)
  show ?thesis
    using one_fingerprint_two_removals [of "''i1''" ex_record ex_installations id "''vllm''" "''env''", OF _ _ ex_unused]
    by (auto simp: Let_def r)
qed

end
