(* ===== verification/Gguf_Cursor.thy ===== *)
theory Gguf_Cursor
  imports Managed_Ids
begin

text \<open>
  The byte cursor both GGUF readers are written over (\<open>Cursor\<close> of \<open>src/src/models/gguf/reader.ts\<close> and of
  \<open>tensors.ts\<close>), the exceptions they raise, and the loop that grows a file prefix until the header is
  complete.  A buffer is the list of its bytes.  A function that throws is a reader: it takes the
  cursor and gives the value and the moved cursor, or the exception.  A length read from the file as
  a 64-bit integer is kept exact: \<open>Number(len)\<close> rounds it only from \<open>2^53\<close> on, where, rounded or not, it
  exceeds every buffer and \<open>need\<close> refuses it.

  The two properties of readers every proof rests on are closed under sequencing: \<open>steady\<close> (the cursor
  only moves forward, inside the buffer) and \<open>continues\<close> (an answer other than \<^emph>\<open>more data\<close> does not
  change when bytes are appended to the buffer).
\<close>

named_theorems steady_intros \<open>introduction rules for \<open>steady\<close>\<close>
named_theorems continues_intros \<open>introduction rules for \<open>continues\<close>\<close>

section \<open>Exceptions and readers\<close>

text \<open>\<open>Nested_too_deep\<close> is the recursion bound of the model running out; that it never does is a theorem.\<close>

datatype gguf_exn = Need_more | Parse_error string | Nested_too_deep

record cursor =
  cur_buf :: string
  cur_pos :: nat

type_synonym 'a reader = "cursor \<Rightarrow> gguf_exn + 'a \<times> cursor"

definition ret :: "'a \<Rightarrow> 'a reader" where
  "ret v c = Inr (v, c)"

definition throw :: "gguf_exn \<Rightarrow> 'a reader" where
  "throw e c = Inl e"

definition andThen :: "'a reader \<Rightarrow> ('a \<Rightarrow> 'b reader) \<Rightarrow> 'b reader" where
  "andThen r k c = (case r c of Inl e \<Rightarrow> Inl e | Inr (v, c') \<Rightarrow> k v c')"

primrec times_read :: "nat \<Rightarrow> 'a reader \<Rightarrow> 'a list reader" where
  "times_read 0 r = ret []"
| "times_read (Suc n) r = andThen r (\<lambda>v. andThen (times_read n r) (\<lambda>vs. ret (v # vs)))"

section \<open>The cursor\<close>

definition need :: "nat \<Rightarrow> cursor \<Rightarrow> bool" where
  "need n c \<longleftrightarrow> cur_pos c + n \<le> length (cur_buf c)"

definition c_bytes :: "nat \<Rightarrow> string reader" where
  "c_bytes n c =
     (if need n c then Inr (take n (drop (cur_pos c) (cur_buf c)), c\<lparr>cur_pos := cur_pos c + n\<rparr>)
      else Inl Need_more)"

definition c_skip :: "nat \<Rightarrow> unit reader" where
  "c_skip n c = (if need n c then Inr ((), c\<lparr>cur_pos := cur_pos c + n\<rparr>) else Inl Need_more)"

text \<open>Little-endian values of a \<open>DataView\<close>.\<close>

fun le_nat :: "string \<Rightarrow> nat" where
  "le_nat [] = 0"
| "le_nat (b # bs) = of_char b + 256 * le_nat bs"

definition signed_of :: "nat \<Rightarrow> nat \<Rightarrow> int" where
  "signed_of width n = (if n < 2 ^ (8 * width - 1) then int n else int n - 2 ^ (8 * width))"

definition c_unsigned :: "nat \<Rightarrow> nat reader" where
  "c_unsigned width = andThen (c_bytes width) (\<lambda>bs. ret (le_nat bs))"

definition c_signed :: "nat \<Rightarrow> int reader" where
  "c_signed width = andThen (c_bytes width) (\<lambda>bs. ret (signed_of width (le_nat bs)))"

definition c_u8 :: "nat reader" where "c_u8 = c_unsigned 1"
definition c_i8 :: "int reader" where "c_i8 = c_signed 1"
definition c_u16 :: "nat reader" where "c_u16 = c_unsigned 2"
definition c_i16 :: "int reader" where "c_i16 = c_signed 2"
definition c_u32 :: "nat reader" where "c_u32 = c_unsigned 4"
definition c_i32 :: "int reader" where "c_i32 = c_signed 4"
definition c_u64 :: "nat reader" where "c_u64 = c_unsigned 8"
definition c_i64 :: "int reader" where "c_i64 = c_signed 8"

text \<open>The bit patterns of floating-point numbers, which the caller formats.\<close>

definition c_f32 :: "nat reader" where "c_f32 = c_unsigned 4"
definition c_f64 :: "nat reader" where "c_f64 = c_unsigned 8"

lemmas field_defs = c_u8_def c_i8_def c_u16_def c_i16_def c_u32_def c_i32_def c_u64_def c_i64_def
  c_f32_def c_f64_def

text \<open>
  \<open>metadata[key] = value\<close> on an object literal: assigning a string to \<open>__proto__\<close> reaches the inherited
  setter, which ignores it.
\<close>

definition set_property :: "(string \<rightharpoonup> string) \<Rightarrow> string \<Rightarrow> string \<Rightarrow> (string \<rightharpoonup> string)" where
  "set_property m key v = (if key = ''__proto__'' then m else m(key \<mapsto> v))"

section \<open>Readers only move forward\<close>

definition rest :: "cursor \<Rightarrow> nat" where
  "rest c = length (cur_buf c) - cur_pos c"

definition inside :: "cursor \<Rightarrow> bool" where
  "inside c \<longleftrightarrow> cur_pos c \<le> length (cur_buf c)"

text \<open>A reader that consumes at least \<open>k\<close> bytes when it succeeds.\<close>

definition steady :: "nat \<Rightarrow> 'a reader \<Rightarrow> bool" where
  "steady k r \<longleftrightarrow> (\<forall>c v c'. inside c \<longrightarrow> r c = Inr (v, c') \<longrightarrow>
     cur_buf c' = cur_buf c \<and> cur_pos c + k \<le> cur_pos c' \<and> inside c')"

lemma steadyD:
  "steady k r \<Longrightarrow> r c = Inr (v, c') \<Longrightarrow> inside c \<Longrightarrow>
   cur_buf c' = cur_buf c \<and> cur_pos c + k \<le> cur_pos c' \<and> inside c'"
  unfolding steady_def by blast

lemma steady_rest: "steady k r \<Longrightarrow> r c = Inr (v, c') \<Longrightarrow> inside c \<Longrightarrow> rest c' + k \<le> rest c"
  using steadyD [of k r c v c'] by (auto simp: rest_def inside_def)

lemma steady_weaken: "steady k r \<Longrightarrow> j \<le> k \<Longrightarrow> steady j r"
  unfolding steady_def by (meson add_left_mono le_trans)

lemma steady_ret [steady_intros]: "steady 0 (ret v)"
  by (simp add: steady_def ret_def)

lemma steady_throw [steady_intros]: "steady k (throw e)"
  by (simp add: steady_def throw_def)

lemma steady_c_bytes [steady_intros]: "steady n (c_bytes n)"
  by (auto simp: steady_def c_bytes_def need_def inside_def split: if_splits)

lemma steady_c_skip [steady_intros]: "steady n (c_skip n)"
  by (auto simp: steady_def c_skip_def need_def inside_def split: if_splits)

lemma andThen_InrE:
  assumes "andThen r k c = Inr (v, c')"
  obtains w d where "r c = Inr (w, d)" and "k w d = Inr (v, c')"
  using assms by (auto simp: andThen_def split: sum.splits prod.splits)

lemma steady_andThen [steady_intros]:
  assumes r: "steady a r" and k: "\<And>v. steady b (k v)"
  shows "steady (a + b) (andThen r k)"
  unfolding steady_def
proof (intro allI impI)
  fix c v c' assume "inside c" and "andThen r k c = Inr (v, c')"
  from this(2) obtain w d where rd: "r c = Inr (w, d)" and kd: "k w d = Inr (v, c')" by (rule andThen_InrE)
  from steadyD [OF r rd \<open>inside c\<close>] have d: "cur_buf d = cur_buf c \<and> cur_pos c + a \<le> cur_pos d \<and> inside d" .
  with steadyD [OF k kd] show "cur_buf c' = cur_buf c \<and> cur_pos c + (a + b) \<le> cur_pos c' \<and> inside c'"
    by fastforce
qed

lemma steady_times [steady_intros]: "steady 0 r \<Longrightarrow> steady 0 (times_read n r)"
proof (induction n)
  case 0
  show ?case unfolding times_read.simps by (rule steady_ret)
next
  case (Suc n)
  have "steady (0 + (0 + 0)) (times_read (Suc n) r)"
    unfolding times_read.simps by (intro steady_andThen Suc steady_ret)
  then show ?case by simp
qed

lemma steady_unsigned [steady_intros]: "steady w (c_unsigned w)"
  using steady_andThen [OF steady_c_bytes [of w] steady_ret] by (simp add: c_unsigned_def)

lemma steady_signed [steady_intros]: "steady w (c_signed w)"
  using steady_andThen [OF steady_c_bytes [of w] steady_ret] by (simp add: c_signed_def)

lemma steady_times_each: "steady k r \<Longrightarrow> steady (n * k) (times_read n r)"
proof (induction n)
  case 0
  show ?case by (simp add: steady_ret)
next
  case (Suc n)
  have "steady (k + (n * k + 0)) (times_read (Suc n) r)"
    unfolding times_read.simps by (intro steady_andThen Suc steady_ret)
  then show ?case by simp
qed

section \<open>More bytes do not change an answer\<close>

definition longer :: "cursor \<Rightarrow> string \<Rightarrow> cursor" where
  "longer c zs = c\<lparr>cur_buf := cur_buf c @ zs\<rparr>"

definition settled :: "gguf_exn + 'a \<Rightarrow> bool" where
  "settled out \<longleftrightarrow> (case out of Inl (Parse_error m) \<Rightarrow> True | Inr v \<Rightarrow> True | _ \<Rightarrow> False)"

definition moved :: "gguf_exn + 'a \<times> cursor \<Rightarrow> string \<Rightarrow> gguf_exn + 'a \<times> cursor" where
  "moved out zs = (case out of Inl e \<Rightarrow> Inl e | Inr (v, c) \<Rightarrow> Inr (v, longer c zs))"

text \<open>On any longer buffer \<open>s\<close> answers what \<open>r\<close> answered.\<close>

definition continues :: "'a reader \<Rightarrow> 'a reader \<Rightarrow> bool" where
  "continues r s \<longleftrightarrow> (\<forall>c zs. inside c \<longrightarrow> settled (r c) \<longrightarrow> s (longer c zs) = moved (r c) zs)"

lemma settled_simps [simp]:
  "settled (Inr v)" "settled (Inl (Parse_error m))" "\<not> settled (Inl Need_more)" "\<not> settled (Inl Nested_too_deep)"
  by (simp_all add: settled_def)

lemma moved_simps [simp]: "moved (Inl e) zs = Inl e" "moved (Inr (v, c)) zs = Inr (v, longer c zs)"
  by (simp_all add: moved_def)

lemma continuesD: "continues r s \<Longrightarrow> inside c \<Longrightarrow> settled (r c) \<Longrightarrow> s (longer c zs) = moved (r c) zs"
  unfolding continues_def by blast

lemma continues_ret [continues_intros]: "continues (ret v) (ret v)"
  by (simp add: continues_def ret_def)

lemma continues_throw [continues_intros]: "continues (throw e) (throw e)"
  by (simp add: continues_def throw_def)

lemma need_longer: "need n c \<Longrightarrow> need n (longer c zs)"
  by (simp add: need_def longer_def)

lemma continues_c_bytes [continues_intros]: "continues (c_bytes n) (c_bytes n)"
proof -
  have "c_bytes n (longer c zs) = moved (c_bytes n c) zs" if "settled (c_bytes n c)" for c zs
  proof -
    from that have n: "need n c" by (simp add: c_bytes_def split: if_splits)
    then have "take n (drop (cur_pos c) (cur_buf c @ zs)) = take n (drop (cur_pos c) (cur_buf c))"
      by (simp add: need_def)
    with n need_longer [OF n, of zs] show ?thesis by (simp add: c_bytes_def longer_def)
  qed
  then show ?thesis by (simp add: continues_def)
qed

lemma continues_c_skip [continues_intros]: "continues (c_skip n) (c_skip n)"
  by (auto simp: continues_def c_skip_def need_def longer_def)

lemma continues_andThen [continues_intros]:
  assumes r: "continues r r'" and s: "steady j r" and k: "\<And>v. continues (k v) (k' v)"
  shows "continues (andThen r k) (andThen r' k')"
  unfolding continues_def
proof (intro allI impI)
  fix c zs assume i: "inside c" and st: "settled (andThen r k c)"
  show "andThen r' k' (longer c zs) = moved (andThen r k c) zs"
  proof (cases "r c")
    case (Inl e)
    with st have "settled (r c)" by (simp add: andThen_def settled_def)
    from continuesD [OF r i this] Inl show ?thesis by (simp add: andThen_def)
  next
    case (Inr p)
    then obtain v d where p: "r c = Inr (v, d)" by (cases p) auto
    have "r' (longer c zs) = Inr (v, longer d zs)" using continuesD [OF r i] p by simp
    moreover have "inside d" using steadyD [OF s p i] by simp
    moreover have "settled (k v d)" using st p by (simp add: andThen_def)
    ultimately show ?thesis using continuesD [OF k [of v], of d zs] p by (simp add: andThen_def)
  qed
qed

lemma continues_times [continues_intros]:
  "continues r r' \<Longrightarrow> steady 0 r \<Longrightarrow> continues (times_read n r) (times_read n r')"
proof (induction n)
  case (Suc n)
  then show ?case unfolding times_read.simps
    by (intro continues_andThen [where j = 0] continues_ret steady_times) auto
qed (simp add: continues_ret)

lemma continues_unsigned [continues_intros]: "continues (c_unsigned w) (c_unsigned w)"
  unfolding c_unsigned_def by (intro continues_andThen [OF _ steady_c_bytes] continues_c_bytes continues_ret)

lemma continues_signed [continues_intros]: "continues (c_signed w) (c_signed w)"
  unfolding c_signed_def by (intro continues_andThen [OF _ steady_c_bytes] continues_c_bytes continues_ret)

text \<open>A branch on a condition of the code, and a condition that does not look at the buffer.\<close>

lemma continues_if [continues_intros]:
  "(b \<Longrightarrow> continues r r') \<Longrightarrow> (\<not> b \<Longrightarrow> continues s s') \<Longrightarrow>
   continues (if b then r else s) (if b then r' else s')"
  by simp

lemma steady_if [steady_intros]:
  "(b \<Longrightarrow> steady k r) \<Longrightarrow> (\<not> b \<Longrightarrow> steady k s) \<Longrightarrow> steady k (if b then r else s)"
  by simp

section \<open>Growing a prefix\<close>

text \<open>
  \<open>readGgufMetadataChunked\<close> and \<open>readGgufTensorSummaryChunked\<close> run a parser on longer and longer prefixes.
  \<open>readPrefix n\<close> is what reading \<open>n\<close> bytes from the start gives, \<open>next\<close> the next length to ask for, \<open>refusal\<close>
  the message when the budget is spent.  A loop that never ends is \<^const>\<open>None\<close>.
\<close>

partial_function (option) grow_prefix ::
    "(string \<Rightarrow> gguf_exn + 'a) \<Rightarrow> (nat \<Rightarrow> string) \<Rightarrow> (nat \<Rightarrow> nat) \<Rightarrow> string \<Rightarrow> nat \<Rightarrow> nat \<Rightarrow> (gguf_exn + 'a) option" where
  "grow_prefix parse readPrefix next refusal limit want =
     (let bytes = readPrefix (min want limit) in
      if parse bytes \<noteq> Inl Need_more then Some (parse bytes)
      else if length bytes < min want limit \<or> limit \<le> want then Some (Inl (Parse_error refusal))
      else grow_prefix parse readPrefix next refusal limit (next want))"

text \<open>What a whole-prefix reader makes of a parse that ran out of bytes.\<close>

definition out_of_budget :: "string \<Rightarrow> gguf_exn + 'a \<Rightarrow> gguf_exn + 'a" where
  "out_of_budget refusal out = (if out = Inl Need_more then Inl (Parse_error refusal) else out)"

locale prefix_parser =
  fixes parse :: "string \<Rightarrow> gguf_exn + 'a"
  assumes parse_extends: "parse bs \<noteq> Inl Need_more \<Longrightarrow> parse (bs @ zs) = parse bs"
begin

lemma parse_prefix: "parse (take m file) \<noteq> Inl Need_more \<Longrightarrow> m \<le> n \<Longrightarrow> parse (take n file) = parse (take m file)"
proof -
  assume m: "parse (take m file) \<noteq> Inl Need_more" and "m \<le> n"
  then have "take n file = take m file @ take (n - m) (drop m file)" by (metis le_add_diff_inverse take_add)
  with parse_extends [OF m] show ?thesis by simp
qed

text \<open>Reading a file in growing prefixes ends, and gives what one read of the whole budget would give.\<close>

lemma grow_prefix_whole:
  assumes grows: "\<And>w. w0 \<le> w \<Longrightarrow> w < next w" and "w0 \<le> want"
  shows "grow_prefix parse (\<lambda>n. take n file) next refusal limit want = Some (out_of_budget refusal (parse (take limit file)))"
  using assms(2)
proof (induction "limit - want" arbitrary: want rule: less_induct)
  case less
  let ?b = "take (min want limit) file"
  show ?case
  proof (cases "parse ?b = Inl Need_more")
    case False
    then have "parse (take limit file) = parse ?b" by (intro parse_prefix) simp_all
    with False show ?thesis by (subst grow_prefix.simps) (simp add: out_of_budget_def Let_def)
  next
    case more: True
    show ?thesis
    proof (cases "length ?b < min want limit \<or> limit \<le> want")
      case True
      then have "take limit file = ?b" by (auto simp: min_def split: if_splits)
      with more True show ?thesis by (subst grow_prefix.simps) (simp add: out_of_budget_def Let_def)
    next
      case False
      have "limit - next want < limit - want" using grows [OF less.prems] False by linarith
      moreover have "w0 \<le> next want" using grows [OF less.prems] less.prems by linarith
      ultimately have "grow_prefix parse (\<lambda>n. take n file) next refusal limit (next want)
          = Some (out_of_budget refusal (parse (take limit file)))" by (rule less.hyps)
      then show ?thesis
        by (subst grow_prefix.simps) (simp only: Let_def more False simp_thms if_False)
    qed
  qed
qed

end

end
