(* ===== verification/Gguf_Reader.thy ===== *)
theory Gguf_Reader
  imports Gguf_Cursor
begin

text \<open>
  The GGUF header reader, \<open>src/src/models/gguf/reader.ts\<close>, and its file reader \<open>read-file.ts\<close>: strings,
  values, arrays read or skipped, the metadata block, and the loop over growing prefixes.  Spelling a
  float's bit pattern (\<open>formatRustF32\<close>, \<open>formatRustF64\<close>) rests on the engine's shortest-digits printing and
  is a parameter, \<open>fmt\<close>.  \<open>readValue\<close> recurses only into arrays, and an array costs twelve bytes before its
  elements, so its recursion bound \<open>fuel\<close> never runs out when it exceeds the bytes left
  (\<open>readValue_bounded\<close>); the call-stack limit of the engine is not modelled.
\<close>

record float_formats =
  fmt_f32 :: "nat \<Rightarrow> string"
  fmt_f64 :: "nat \<Rightarrow> string"

record gguf_metadata =
  gm_version :: nat
  gm_tensor_count :: nat
  gm_metadata :: "string \<rightharpoonup> string"

definition GGUF_VALUE_TYPE_NAMES :: "string list" where
  "GGUF_VALUE_TYPE_NAMES = [''Uint8'', ''Int8'', ''Uint16'', ''Int16'', ''Uint32'', ''Int32'', ''Float32'',
     ''Bool'', ''String'', ''Array'', ''Uint64'', ''Int64'', ''Float64'']"

definition MAX_GGUF_STRING_BYTES :: nat where "MAX_GGUF_STRING_BYTES = 1024 * 1024"
definition MAX_GGUF_ARRAY_LEN :: nat where "MAX_GGUF_ARRAY_LEN = 1000000"
definition INLINE_ARRAY_MAX_LEN :: nat where "INLINE_ARRAY_MAX_LEN = 24"
definition MAX_PER_LAYER_ARRAY_LEN :: nat where "MAX_PER_LAYER_ARRAY_LEN = 4096"

definition INTEGER_TYPES :: "nat list" where "INTEGER_TYPES = [0, 1, 2, 3, 4, 5, 10, 11]"
definition PER_LAYER_TYPES :: "nat list" where "PER_LAYER_TYPES = INTEGER_TYPES @ [7]"

text \<open>The regular expression: one non-empty segment without a dot, then one of two fixed endings.\<close>

definition isPerLayerKey :: "string \<Rightarrow> bool" where
  "isPerLayerKey key =
     (let arch = takeWhile (\<lambda>ch. ch \<noteq> CHR ''.'') key; ending = dropWhile (\<lambda>ch. ch \<noteq> CHR ''.'') key
      in arch \<noteq> [] \<and> ending \<in> {''.attention.head_count_kv'', ''.attention.sliding_window_pattern''})"

section \<open>Values\<close>

definition readString :: "string reader" where
  "readString = andThen c_u64 (\<lambda>len.
     if len > MAX_GGUF_STRING_BYTES
     then throw (Parse_error (''String length '' @ show_nat len @ '' is unreasonably large''))
     else andThen (c_bytes len) (\<lambda>raw. case text_decode raw of
            Some s \<Rightarrow> ret s
          | None \<Rightarrow> throw (Parse_error ''invalid utf-8 sequence'')))"

definition valueType :: "nat \<Rightarrow> nat reader" where
  "valueType n = (if n \<ge> length GGUF_VALUE_TYPE_NAMES
     then throw (Parse_error (''Unknown GGUF value type: '' @ show_nat n)) else ret n)"

definition array_placeholder :: "nat \<Rightarrow> nat \<Rightarrow> string" where
  "array_placeholder elemType n =
     ''<Array of type '' @ GGUF_VALUE_TYPE_NAMES ! elemType @ '' with '' @ show_nat n @ '' elements, data skipped>''"

definition inlineAll :: "bool \<Rightarrow> nat \<Rightarrow> nat \<Rightarrow> bool" where
  "inlineAll perLayer elemType n \<longleftrightarrow> perLayer \<and> elemType \<in> set PER_LAYER_TYPES \<and> n \<le> MAX_PER_LAYER_ARRAY_LEN"

definition skip_string :: "unit reader" where
  "skip_string = andThen c_u64 c_skip"

function (sequential)
  readValue :: "float_formats \<Rightarrow> nat \<Rightarrow> nat \<Rightarrow> bool \<Rightarrow> string reader" and
  skipArray :: "float_formats \<Rightarrow> nat \<Rightarrow> nat \<Rightarrow> nat \<Rightarrow> unit reader" where
  "readValue fmt fuel type perLayer =
     (if type = 0 then andThen c_u8 (\<lambda>v. ret (show_nat v))
      else if type = 1 then andThen c_i8 (\<lambda>v. ret (show_int v))
      else if type = 2 then andThen c_u16 (\<lambda>v. ret (show_nat v))
      else if type = 3 then andThen c_i16 (\<lambda>v. ret (show_int v))
      else if type = 4 then andThen c_u32 (\<lambda>v. ret (show_nat v))
      else if type = 5 then andThen c_i32 (\<lambda>v. ret (show_int v))
      else if type = 6 then andThen c_f32 (\<lambda>v. ret (fmt_f32 fmt v))
      else if type = 7 then andThen c_u8 (\<lambda>v. ret (if v \<noteq> 0 then ''true'' else ''false''))
      else if type = 8 then readString
      else if type = 10 then andThen c_u64 (\<lambda>v. ret (show_nat v))
      else if type = 11 then andThen c_i64 (\<lambda>v. ret (show_int v))
      else if type = 12 then andThen c_f64 (\<lambda>v. ret (fmt_f64 fmt v))
      else if type = 9 then (case fuel of 0 \<Rightarrow> throw Nested_too_deep | Suc fuel' \<Rightarrow>
        andThen (andThen c_u32 valueType) (\<lambda>elemType. andThen c_u64 (\<lambda>len.
          if len > MAX_GGUF_ARRAY_LEN
          then throw (Parse_error (''Array length '' @ show_nat len @ '' is unreasonably large''))
          else if len > INLINE_ARRAY_MAX_LEN \<and> \<not> inlineAll perLayer elemType len
          then andThen (skipArray fmt fuel' elemType len) (\<lambda>_. ret (array_placeholder elemType len))
          else andThen (times_read len (readValue fmt fuel' elemType False))
                 (\<lambda>elems. ret (''['' @ js_join '', '' elems @ '']'')))))
      else throw (Parse_error (''Unknown GGUF value type: '' @ show_nat type)))"
| "skipArray fmt fuel elemType len =
     (if elemType \<in> {0, 1, 7} then c_skip len
      else if elemType \<in> {2, 3} then c_skip (len * 2)
      else if elemType \<in> {4, 5, 6} then c_skip (len * 4)
      else if elemType \<in> {10, 11, 12} then c_skip (len * 8)
      else if elemType = 8 then andThen (times_read len skip_string) (\<lambda>_. ret ())
      else if elemType = 9 then andThen (times_read len (readValue fmt fuel elemType False)) (\<lambda>_. ret ())
      else throw (Parse_error (''Unknown GGUF value type: '' @ show_nat elemType)))"
  by pat_completeness auto

termination
  by (relation "measure (\<lambda>call. case call of Inl (_, fuel, _, _) \<Rightarrow> 2 * fuel | Inr (_, fuel, _, _) \<Rightarrow> 2 * fuel + 1)")
     auto

declare readValue.simps [simp del] skipArray.simps [simp del]

section \<open>The header\<close>

text \<open>One round of the loop: what it throws other than \<open>GgufNeedMoreData\<close> is rethrown with the entry's index.\<close>

definition read_entry :: "float_formats \<Rightarrow> nat \<Rightarrow> (string \<times> string) reader" where
  "read_entry fmt fuel = andThen readString (\<lambda>key. andThen (andThen c_u32 valueType) (\<lambda>type.
     andThen (readValue fmt fuel type (isPerLayerKey key)) (\<lambda>v. ret (key, v))))"

definition entry_error :: "nat \<Rightarrow> gguf_exn \<Rightarrow> gguf_exn" where
  "entry_error i e = (case e of
     Parse_error m \<Rightarrow> Parse_error (''Error reading metadata entry '' @ show_nat i @ '': '' @ m)
   | Need_more \<Rightarrow> Need_more | Nested_too_deep \<Rightarrow> Nested_too_deep)"

definition rethrow :: "nat \<Rightarrow> 'a reader \<Rightarrow> 'a reader" where
  "rethrow i r c = (case r c of Inl e \<Rightarrow> Inl (entry_error i e) | Inr x \<Rightarrow> Inr x)"

fun read_entries :: "float_formats \<Rightarrow> nat \<Rightarrow> nat \<Rightarrow> nat \<Rightarrow> (string \<rightharpoonup> string) \<Rightarrow> (string \<rightharpoonup> string) reader" where
  "read_entries fmt fuel i 0 metadata = ret metadata"
| "read_entries fmt fuel i (Suc n) metadata =
     andThen (rethrow i (read_entry fmt fuel))
       (\<lambda>kv. read_entries fmt fuel (Suc i) n (set_property metadata (fst kv) (snd kv)))"

definition GGUF_MAGIC :: string where
  "GGUF_MAGIC = ''GGUF''"

definition read_header :: "float_formats \<Rightarrow> nat \<Rightarrow> gguf_metadata reader" where
  "read_header fmt fuel = andThen (c_bytes 4) (\<lambda>magic.
     if magic \<noteq> GGUF_MAGIC then throw (Parse_error ''Not a GGUF file'')
     else andThen c_u32 (\<lambda>version. andThen c_u64 (\<lambda>tensorCount. andThen c_u64 (\<lambda>metadataCount.
       andThen (read_entries fmt fuel 0 metadataCount Map.empty) (\<lambda>metadata.
         ret \<lparr>gm_version = version, gm_tensor_count = to_number tensorCount, gm_metadata = metadata\<rparr>)))))"

definition start_cursor :: "string \<Rightarrow> cursor" where
  "start_cursor bytes = \<lparr>cur_buf = bytes, cur_pos = 0\<rparr>"

definition readGgufMetadata :: "float_formats \<Rightarrow> string \<Rightarrow> gguf_exn + gguf_metadata" where
  "readGgufMetadata fmt bytes =
     map_sum id fst (read_header fmt (Suc (length bytes)) (start_cursor bytes))"

definition readGgufMetadataChunked ::
    "float_formats \<Rightarrow> (nat \<Rightarrow> string) \<Rightarrow> nat option \<Rightarrow> nat option \<Rightarrow> (gguf_exn + gguf_metadata) option" where
  "readGgufMetadataChunked fmt readPrefix chunkSize maxBytes =
     (let chunk = (case chunkSize of Some n \<Rightarrow> n | None \<Rightarrow> 2 * 1024 * 1024);
          limit = (case maxBytes of Some n \<Rightarrow> n | None \<Rightarrow> 120 * 1024 * 1024)
      in grow_prefix (readGgufMetadata fmt) readPrefix (\<lambda>want. want + chunk)
           ''Could not parse GGUF metadata from downloaded data'' limit chunk)"

text \<open>\<open>read\<close> at position 0 of an open file gives its first bytes, fewer at the end of the file.\<close>

definition readGgufMetadataFromFile ::
    "float_formats \<Rightarrow> string \<Rightarrow> nat option \<Rightarrow> nat option \<Rightarrow> (gguf_exn + gguf_metadata) option" where
  "readGgufMetadataFromFile fmt file chunkSize maxBytes =
     readGgufMetadataChunked fmt (\<lambda>byteLength. take byteLength file) chunkSize maxBytes"

end
