(* ===== verification/Gguf_Reader_Props.thy ===== *)
theory Gguf_Reader_Props
  imports Gguf_Reader
begin

text \<open>
  The header reader's behaviour: it stays inside its buffer and never exhausts its recursion bound, an
  answer does not change when the prefix grows, and reading a file in growing prefixes ends with what
  one read of the whole budget gives.
\<close>

section \<open>Readers of the header move forward\<close>

lemma steady_then: "steady a r \<Longrightarrow> (\<And>v. steady 0 (k v)) \<Longrightarrow> j \<le> a \<Longrightarrow> steady j (andThen r k)"
  using steady_andThen [of a r 0 k] by (simp add: steady_weaken)

lemma steady_field [steady_intros]:
  "steady 1 c_u8" "steady 1 c_i8" "steady 2 c_u16" "steady 2 c_i16" "steady 4 c_u32" "steady 4 c_i32"
  "steady 8 c_u64" "steady 8 c_i64" "steady 4 c_f32" "steady 8 c_f64"
  unfolding field_defs by (rule steady_unsigned steady_signed)+

lemmas steady_after_field = steady_field [THEN steady_then]

lemma steady_c_bytes_any: "steady 0 (c_bytes n)"
  by (rule steady_weaken [OF steady_c_bytes]) simp

lemma steady_c_skip_any: "steady 0 (c_skip n)"
  by (rule steady_weaken [OF steady_c_skip]) simp

lemma steady_option [steady_intros]:
  "(x = None \<Longrightarrow> steady k r) \<Longrightarrow> (\<And>v. x = Some v \<Longrightarrow> steady k (s v)) \<Longrightarrow>
   steady k (case x of None \<Rightarrow> r | Some v \<Rightarrow> s v)"
  by (cases x) simp_all

lemma steady_readString [steady_intros]: "steady 8 readString"
  unfolding readString_def
  by (intro steady_then [OF steady_field(7)] steady_if steady_throw steady_option steady_ret
       steady_then [OF steady_c_bytes_any]) simp_all

lemma steady_valueType [steady_intros]: "steady 0 (valueType n)"
  unfolding valueType_def by (intro steady_intros)

lemma steady_type_tag [steady_intros]: "steady 4 (andThen c_u32 valueType)"
  by (rule steady_then [OF steady_field(5) steady_valueType]) simp

lemma steady_skip_string [steady_intros]: "steady 8 skip_string"
  unfolding skip_string_def by (rule steady_then [OF steady_field(7) steady_c_skip_any]) simp

lemma steady_skipArray:
  "(\<And>t p. steady 0 (readValue fmt fuel t p)) \<Longrightarrow> steady 0 (skipArray fmt fuel elemType len)"
  unfolding skipArray.simps
  by (intro steady_if steady_c_skip_any steady_throw steady_then [where a = 0] steady_times steady_ret
       steady_weaken [OF steady_skip_string]) simp_all

lemma steady_readValue [steady_intros]: "steady 1 (readValue fmt fuel t p)"
proof (induction fuel arbitrary: t p)
  case 0
  show ?case
    by (subst readValue.simps, unfold nat.case)
       (intro steady_if steady_throw steady_after_field steady_ret steady_weaken [OF steady_readString], simp_all)
next
  case (Suc fuel)
  have v: "steady 0 (readValue fmt fuel t p)" for t p by (rule steady_weaken [OF Suc.IH]) simp
  show ?case
    by (subst readValue.simps, unfold nat.case)
       (intro steady_if steady_throw steady_then [OF steady_type_tag] steady_after_field steady_ret
         steady_then [OF steady_skipArray [OF v]] steady_then [OF steady_times [OF v]]
         steady_weaken [OF steady_readString], simp_all)
qed

lemma steady_readValue_any: "steady 0 (readValue fmt fuel t p)"
  by (rule steady_weaken [OF steady_readValue]) simp

lemma rethrow_Inr [simp]: "rethrow i r c = Inr x \<longleftrightarrow> r c = Inr x"
  by (simp add: rethrow_def split: sum.split)

lemma steady_rethrow: "steady k r \<Longrightarrow> steady k (rethrow i r)"
  unfolding steady_def rethrow_Inr .

text \<open>A metadata entry takes a key length, a type tag and at least one byte of value.\<close>

lemma steady_read_entry [steady_intros]: "steady 13 (read_entry fmt fuel)"
proof -
  have "steady (8 + (4 + (1 + 0))) (read_entry fmt fuel)"
    unfolding read_entry_def
    by (intro steady_andThen steady_readString steady_type_tag steady_readValue steady_ret)
  then show ?thesis by simp
qed

lemma steady_read_entries: "steady (13 * n) (read_entries fmt fuel i n metadata)"
proof (induction n arbitrary: i metadata)
  case 0
  show ?case by (simp add: steady_ret)
next
  case (Suc n)
  have "steady (13 + 13 * n) (read_entries fmt fuel i (Suc n) metadata)"
    unfolding read_entries.simps by (intro steady_andThen steady_rethrow steady_read_entry Suc)
  then show ?case by simp
qed

lemma steady_read_header: "steady 24 (read_header fmt fuel)"
proof -
  have rest: "steady 20 (andThen c_u32 (\<lambda>version. andThen c_u64 (\<lambda>tensorCount. andThen c_u64 (k version tensorCount))))"
    if "\<And>v t m. steady 0 (k v t m)" for k :: "nat \<Rightarrow> nat \<Rightarrow> nat \<Rightarrow> gguf_metadata reader"
  proof -
    have "steady (4 + (8 + (8 + 0))) (andThen c_u32 (\<lambda>version. andThen c_u64 (\<lambda>tensorCount. andThen c_u64 (k version tensorCount))))"
      by (intro steady_andThen steady_field that)
    then show ?thesis by simp
  qed
  have "steady (4 + 20) (read_header fmt fuel)"
    unfolding read_header_def
    by (intro steady_andThen steady_c_bytes steady_if steady_throw rest
         steady_then [OF steady_read_entries] steady_ret) simp
  then show ?thesis by simp
qed

section \<open>The recursion bound is enough\<close>

definition bounded_by :: "nat \<Rightarrow> 'a reader \<Rightarrow> bool" where
  "bounded_by f r \<longleftrightarrow> (\<forall>c. inside c \<longrightarrow> rest c < f \<longrightarrow> r c \<noteq> Inl Nested_too_deep)"

lemma bounded_weaken: "bounded_by f r \<Longrightarrow> g \<le> f \<Longrightarrow> bounded_by g r"
  unfolding bounded_by_def by (meson less_le_trans)

lemma bounded_andThen:
  assumes r: "bounded_by f r" and s: "steady j r" and k: "\<And>v. bounded_by (f - j) (k v)"
  shows "bounded_by f (andThen r k)"
  unfolding bounded_by_def
proof (intro allI impI)
  fix c assume i: "inside c" and l: "rest c < f"
  show "andThen r k c \<noteq> Inl Nested_too_deep"
  proof (cases "r c")
    case (Inl e)
    with r i l show ?thesis by (auto simp: bounded_by_def andThen_def)
  next
    case (Inr x)
    then obtain v d where x: "r c = Inr (v, d)" by (cases x) auto
    have "rest d < f - j" using steady_rest [OF s x i] l by linarith
    then have "k v d \<noteq> Inl Nested_too_deep"
      using k [of v] steadyD [OF s x i] by (simp add: bounded_by_def)
    with x show ?thesis by (simp add: andThen_def)
  qed
qed

lemma bounded_then: "bounded_by f r \<Longrightarrow> steady j r \<Longrightarrow> (\<And>v. bounded_by f (k v)) \<Longrightarrow> bounded_by f (andThen r k)"
  by (rule bounded_andThen, assumption, assumption, rule bounded_weaken [of f], blast) simp

lemma bounded_ret: "bounded_by f (ret v)"
  by (simp add: bounded_by_def ret_def)

lemma bounded_parse_error: "bounded_by f (throw (Parse_error m))"
  by (simp add: bounded_by_def throw_def)

lemma bounded_c_bytes: "bounded_by f (c_bytes n)"
  by (simp add: bounded_by_def c_bytes_def)

lemma bounded_c_skip: "bounded_by f (c_skip n)"
  by (simp add: bounded_by_def c_skip_def)

lemma bounded_field:
  "bounded_by f c_u8" "bounded_by f c_i8" "bounded_by f c_u16" "bounded_by f c_i16" "bounded_by f c_u32"
  "bounded_by f c_i32" "bounded_by f c_u64" "bounded_by f c_i64" "bounded_by f c_f32" "bounded_by f c_f64"
  unfolding field_defs c_unsigned_def c_signed_def
  by (rule bounded_then [OF bounded_c_bytes steady_c_bytes bounded_ret])+

lemma bounded_if:
  "(b \<Longrightarrow> bounded_by f r) \<Longrightarrow> (\<not> b \<Longrightarrow> bounded_by f s) \<Longrightarrow> bounded_by f (if b then r else s)"
  by simp

lemma bounded_option:
  "bounded_by f r \<Longrightarrow> (\<And>v. bounded_by f (s v)) \<Longrightarrow> bounded_by f (case x of None \<Rightarrow> r | Some v \<Rightarrow> s v)"
  by (cases x) simp_all

lemma bounded_times: "bounded_by f r \<Longrightarrow> steady 0 r \<Longrightarrow> bounded_by f (times_read n r)"
proof (induction n)
  case (Suc n)
  then show ?case unfolding times_read.simps
    by (intro bounded_then [OF Suc.prems] bounded_then [OF Suc.IH steady_times] bounded_ret)
qed (simp add: bounded_ret)

lemmas bounded_after_field = bounded_then [OF bounded_field(1) steady_field(1)]
  bounded_then [OF bounded_field(2) steady_field(2)] bounded_then [OF bounded_field(3) steady_field(3)]
  bounded_then [OF bounded_field(4) steady_field(4)] bounded_then [OF bounded_field(5) steady_field(5)]
  bounded_then [OF bounded_field(6) steady_field(6)] bounded_then [OF bounded_field(7) steady_field(7)]
  bounded_then [OF bounded_field(8) steady_field(8)] bounded_then [OF bounded_field(9) steady_field(9)]
  bounded_then [OF bounded_field(10) steady_field(10)]

lemma bounded_readString: "bounded_by f readString"
  unfolding readString_def
  by (intro bounded_after_field bounded_if bounded_parse_error bounded_option bounded_ret
       bounded_then [OF bounded_c_bytes steady_c_bytes])

lemma bounded_valueType: "bounded_by f (valueType n)"
  unfolding valueType_def by (intro bounded_if bounded_parse_error bounded_ret)

lemma bounded_type_tag: "bounded_by f (andThen c_u32 valueType)"
  by (intro bounded_after_field bounded_valueType)

lemma bounded_skip_string: "bounded_by f skip_string"
  unfolding skip_string_def by (intro bounded_after_field bounded_c_skip)

lemma bounded_skipArray:
  "(\<And>t p. bounded_by f (readValue fmt fuel t p)) \<Longrightarrow> bounded_by f (skipArray fmt fuel elemType len)"
  unfolding skipArray.simps
  by (intro bounded_if bounded_c_skip bounded_parse_error bounded_then [OF bounded_times steady_times]
       bounded_skip_string steady_weaken [OF steady_skip_string] steady_readValue_any bounded_ret) simp_all

lemma readValue_bounded: "bounded_by fuel (readValue fmt fuel t p)"
proof (induction fuel arbitrary: t p)
  case 0
  show ?case by (simp add: bounded_by_def)
next
  case (Suc fuel)
  have tag: "bounded_by (Suc fuel) (andThen (andThen c_u32 valueType) k)"
    if "\<And>v. bounded_by fuel (k v)" for k :: "nat \<Rightarrow> string reader"
    by (rule bounded_andThen [OF bounded_type_tag steady_type_tag]) (rule bounded_weaken [OF that], simp)
  show ?case
    by (subst readValue.simps, unfold nat.case)
       (intro bounded_if bounded_parse_error tag bounded_after_field bounded_ret bounded_readString
         bounded_then [OF bounded_skipArray steady_skipArray] bounded_then [OF bounded_times steady_times]
         Suc.IH steady_readValue_any)
qed

lemma bounded_rethrow: "bounded_by f r \<Longrightarrow> bounded_by f (rethrow i r)"
  unfolding bounded_by_def rethrow_def entry_error_def by (auto split: sum.split gguf_exn.split)

lemma bounded_read_entry: "bounded_by fuel (read_entry fmt fuel)"
  unfolding read_entry_def
  by (intro bounded_then [OF bounded_readString steady_readString] bounded_then [OF bounded_type_tag steady_type_tag]
       bounded_then [OF readValue_bounded steady_readValue] bounded_ret)

lemma bounded_read_entries: "bounded_by fuel (read_entries fmt fuel i n metadata)"
  by (induction n arbitrary: i metadata)
     (simp_all add: bounded_ret bounded_then [OF bounded_rethrow [OF bounded_read_entry] steady_rethrow [OF steady_read_entry]])

lemma bounded_read_header: "bounded_by fuel (read_header fmt fuel)"
  unfolding read_header_def
  by (intro bounded_then [OF bounded_c_bytes steady_c_bytes] bounded_if bounded_parse_error bounded_after_field
       bounded_then [OF bounded_read_entries steady_read_entries] bounded_ret)

section \<open>A longer prefix does not change an answer\<close>

lemma continues_field [continues_intros]:
  "continues c_u8 c_u8" "continues c_i8 c_i8" "continues c_u16 c_u16" "continues c_i16 c_i16"
  "continues c_u32 c_u32" "continues c_i32 c_i32" "continues c_u64 c_u64" "continues c_i64 c_i64"
  "continues c_f32 c_f32" "continues c_f64 c_f64"
  unfolding field_defs by (rule continues_unsigned continues_signed)+

lemmas continues_after_field = continues_andThen [OF continues_field(1) steady_field(1)]
  continues_andThen [OF continues_field(2) steady_field(2)] continues_andThen [OF continues_field(3) steady_field(3)]
  continues_andThen [OF continues_field(4) steady_field(4)] continues_andThen [OF continues_field(5) steady_field(5)]
  continues_andThen [OF continues_field(6) steady_field(6)] continues_andThen [OF continues_field(7) steady_field(7)]
  continues_andThen [OF continues_field(8) steady_field(8)] continues_andThen [OF continues_field(9) steady_field(9)]
  continues_andThen [OF continues_field(10) steady_field(10)]

lemma continues_option [continues_intros]:
  "continues r r \<Longrightarrow> (\<And>v. continues (s v) (s v)) \<Longrightarrow>
   continues (case x of None \<Rightarrow> r | Some v \<Rightarrow> s v) (case x of None \<Rightarrow> r | Some v \<Rightarrow> s v)"
  by (cases x) simp_all

lemma continues_readString: "continues readString readString"
  unfolding readString_def
  by (intro continues_after_field continues_if continues_throw continues_option continues_ret
       continues_andThen [OF continues_c_bytes steady_c_bytes])

lemma continues_valueType: "continues (valueType n) (valueType n)"
  unfolding valueType_def by (intro continues_if continues_throw continues_ret)

lemma continues_type_tag: "continues (andThen c_u32 valueType) (andThen c_u32 valueType)"
  by (intro continues_after_field continues_valueType)

lemma continues_skip_string: "continues skip_string skip_string"
  unfolding skip_string_def by (intro continues_after_field continues_c_skip)

lemma continues_skipArray:
  "(\<And>t p. continues (readValue fmt f t p) (readValue fmt g t p)) \<Longrightarrow>
   continues (skipArray fmt f elemType len) (skipArray fmt g elemType len)"
  unfolding skipArray.simps
  by (intro continues_if continues_c_skip continues_throw continues_andThen [OF continues_times steady_times]
       continues_skip_string steady_weaken [OF steady_skip_string] steady_readValue_any continues_ret) simp_all

lemma continues_too_deep: "continues (throw Nested_too_deep) r"
  by (simp add: continues_def throw_def)

lemma continues_readValue: "f \<le> g \<Longrightarrow> continues (readValue fmt f t p) (readValue fmt g t p)"
proof (induction f arbitrary: g t p)
  case 0
  show ?case
    by (subst (1 2) readValue.simps, unfold nat.case)
       (intro continues_if continues_throw continues_after_field continues_ret continues_readString continues_too_deep)
next
  case (Suc f)
  then obtain g' where g: "g = Suc g'" "f \<le> g'" by (cases g) auto
  have v: "continues (readValue fmt f t p) (readValue fmt g' t p)" for t p by (rule Suc.IH [OF g(2)])
  show ?case unfolding g(1)
    by (subst (1 2) readValue.simps, unfold nat.case)
       (intro continues_if continues_throw continues_andThen [OF continues_type_tag steady_type_tag]
         continues_after_field continues_ret continues_readString
         continues_andThen [OF continues_skipArray [OF v] steady_skipArray]
         continues_andThen [OF continues_times [OF v] steady_times] steady_readValue_any)
qed

lemma continues_rethrow: "continues r s \<Longrightarrow> continues (rethrow i r) (rethrow i s)"
  unfolding continues_def
proof (intro allI impI)
  fix c zs
  assume h: "\<forall>c zs. inside c \<longrightarrow> settled (r c) \<longrightarrow> s (longer c zs) = moved (r c) zs"
    and i: "inside c" and st: "settled (rethrow i r c)"
  have "settled (r c)"
    using st by (auto simp: rethrow_def entry_error_def settled_def split: sum.splits gguf_exn.splits)
  with h i have "s (longer c zs) = moved (r c) zs" by blast
  then show "rethrow i s (longer c zs) = moved (rethrow i r c) zs"
    by (auto simp: rethrow_def moved_def split: sum.splits prod.splits)
qed

lemma continues_read_entries:
  assumes "f \<le> g"
  shows "continues (read_entries fmt f i n metadata) (read_entries fmt g i n metadata)"
proof (induction n arbitrary: i metadata)
  case (Suc n)
  have "continues (read_entry fmt f) (read_entry fmt g)"
    unfolding read_entry_def
    by (intro continues_andThen [OF continues_readString steady_readString]
         continues_andThen [OF continues_type_tag steady_type_tag]
         continues_andThen [OF continues_readValue [OF assms] steady_readValue] continues_ret)
  then show ?case unfolding read_entries.simps
    by (intro continues_andThen [OF continues_rethrow steady_rethrow [OF steady_read_entry]] Suc)
qed (simp add: continues_ret)

lemma continues_read_header: "f \<le> g \<Longrightarrow> continues (read_header fmt f) (read_header fmt g)"
  unfolding read_header_def
  by (intro continues_andThen [OF continues_c_bytes steady_c_bytes] continues_if continues_throw
       continues_after_field continues_andThen [OF continues_read_entries steady_read_entries] continues_ret)

section \<open>The header reader\<close>

lemma inside_start [simp]: "inside (start_cursor bytes)"
  by (simp add: inside_def start_cursor_def)

lemma longer_start: "longer (start_cursor bytes) zs = start_cursor (bytes @ zs)"
  by (simp add: longer_def start_cursor_def)

lemma read_header_not_too_deep:
  "read_header fmt (Suc (length bytes)) (start_cursor bytes) \<noteq> Inl Nested_too_deep"
  using bounded_read_header [of "Suc (length bytes)" fmt]
  by (simp add: bounded_by_def rest_def start_cursor_def inside_def)

lemma readGgufMetadata_not_too_deep: "readGgufMetadata fmt bytes \<noteq> Inl Nested_too_deep"
  using read_header_not_too_deep [of fmt bytes]
  by (cases "read_header fmt (Suc (length bytes)) (start_cursor bytes)") (simp_all add: readGgufMetadata_def)

lemma readGgufMetadata_longer:
  assumes "readGgufMetadata fmt bytes \<noteq> Inl Need_more"
  shows "readGgufMetadata fmt (bytes @ zs) = readGgufMetadata fmt bytes"
proof -
  let ?r = "read_header fmt (Suc (length bytes)) (start_cursor bytes)"
  have "settled ?r"
  proof (cases ?r)
    case (Inl e)
    with assms read_header_not_too_deep [of fmt bytes] show ?thesis
      by (cases e) (simp_all add: readGgufMetadata_def)
  qed simp
  then have "read_header fmt (Suc (length (bytes @ zs))) (start_cursor (bytes @ zs)) = moved ?r zs"
    using continuesD [OF continues_read_header inside_start, of "Suc (length bytes)" "Suc (length (bytes @ zs))" fmt bytes zs]
    by (simp add: longer_start)
  then show ?thesis
    by (cases ?r) (auto simp: readGgufMetadata_def)
qed

interpretation header_reader: prefix_parser "readGgufMetadata fmt" for fmt
  by unfold_locales (rule readGgufMetadata_longer)

text \<open>
  Once the header reader answers on a prefix, with metadata or with a parse error, it gives the same
  answer on every longer prefix; its only other outcome is to ask for more data.
\<close>

theorem gguf_answer_is_final:
  "if readGgufMetadata fmt bytes = Inl Need_more then True
   else readGgufMetadata fmt (bytes @ zs) = readGgufMetadata fmt bytes
        \<and> ((\<exists>m. readGgufMetadata fmt bytes = Inl (Parse_error m)) \<or> (\<exists>md. readGgufMetadata fmt bytes = Inr md))"
proof (cases "readGgufMetadata fmt bytes")
  case (Inl e)
  then show ?thesis using readGgufMetadata_longer [of fmt bytes zs] readGgufMetadata_not_too_deep [of fmt bytes]
    by (cases e) simp_all
next
  case (Inr md)
  then show ?thesis using readGgufMetadata_longer [of fmt bytes zs] by simp
qed

text \<open>
  C28. Reading a model file in chunks ends for every positive chunk size, and gives exactly what one parse of
  the file's first \<open>maxBytes\<close> bytes gives, with a header longer than that reported as unparsable: the
  chunking is invisible.
\<close>

theorem gguf_chunks_are_invisible:
  assumes "chunkSize \<noteq> Some 0"
  shows "readGgufMetadataFromFile fmt file chunkSize maxBytes =
    Some (out_of_budget ''Could not parse GGUF metadata from downloaded data''
      (readGgufMetadata fmt (take (case maxBytes of Some n \<Rightarrow> n | None \<Rightarrow> 120 * 1024 * 1024) file)))"
proof -
  let ?chunk = "case chunkSize of Some n \<Rightarrow> n | None \<Rightarrow> 2 * 1024 * 1024"
  have "0 < ?chunk" using assms by (auto split: option.split)
  then have "\<And>w. 0 \<le> w \<Longrightarrow> w < w + ?chunk" by simp
  from header_reader.grow_prefix_whole [OF this, of 0 ?chunk] show ?thesis
    by (simp add: readGgufMetadataFromFile_def readGgufMetadataChunked_def Let_def)
qed

lemma set_property_dom:
  "finite (dom m) \<Longrightarrow> finite (dom (set_property m k v)) \<and> card (dom (set_property m k v)) \<le> Suc (card (dom m))"
  by (auto simp: set_property_def card_insert_if)

lemma read_entries_dom:
  "read_entries fmt fuel i n metadata c = Inr (md, c') \<Longrightarrow> finite (dom metadata) \<Longrightarrow>
   finite (dom md) \<and> card (dom md) \<le> card (dom metadata) + n"
proof (induction n arbitrary: i metadata c)
  case 0
  then show ?case by (simp add: ret_def)
next
  case (Suc n)
  from Suc.prems(1) obtain kv d where
    "read_entries fmt fuel (Suc i) n (set_property metadata (fst kv) (snd kv)) d = Inr (md, c')"
    unfolding read_entries.simps by (rule andThen_InrE)
  from Suc.IH [OF this] set_property_dom [OF Suc.prems(2), of "fst kv" "snd kv"] show ?case by simp
qed

text \<open>
  Whatever counts a header claims, a successful read used at least twenty-four bytes and thirteen for
  each metadata key it reports, all of them inside the buffer: no header makes the reader report more
  keys than its bytes can hold.
\<close>

theorem gguf_keys_cost_bytes:
  assumes "readGgufMetadata fmt bytes = Inr md"
  shows "24 + 13 * card (dom (gm_metadata md)) \<le> length bytes"
proof -
  let ?f = "Suc (length bytes)"
  obtain e where "read_header fmt ?f (start_cursor bytes) = Inr (md, e)"
    using assms by (cases "read_header fmt ?f (start_cursor bytes)") (auto simp: readGgufMetadata_def)
  then obtain magic v tc mc c1 c2 c3 c4 c5 mm where
    1: "c_bytes 4 (start_cursor bytes) = Inr (magic, c1)" and 2: "c_u32 c1 = Inr (v, c2)"
    and 3: "c_u64 c2 = Inr (tc, c3)" and 4: "c_u64 c3 = Inr (mc, c4)"
    and 5: "read_entries fmt ?f 0 mc Map.empty c4 = Inr (mm, c5)" and md: "gm_metadata md = mm"
    unfolding read_header_def
    by (elim andThen_InrE) (auto simp: throw_def ret_def split: if_splits elim!: andThen_InrE)
  note s1 = steadyD [OF steady_c_bytes 1 inside_start]
  from s1 have s2: "cur_buf c2 = cur_buf c1 \<and> cur_pos c1 + 4 \<le> cur_pos c2 \<and> inside c2"
    by (intro steadyD [OF steady_field(5) 2]) simp
  then have s3: "cur_buf c3 = cur_buf c2 \<and> cur_pos c2 + 8 \<le> cur_pos c3 \<and> inside c3"
    by (intro steadyD [OF steady_field(7) 3]) simp
  then have s4: "cur_buf c4 = cur_buf c3 \<and> cur_pos c3 + 8 \<le> cur_pos c4 \<and> inside c4"
    by (intro steadyD [OF steady_field(7) 4]) simp
  then have s5: "cur_buf c5 = cur_buf c4 \<and> cur_pos c4 + 13 * mc \<le> cur_pos c5 \<and> inside c5"
    by (intro steadyD [OF steady_read_entries 5]) simp
  have "card (dom mm) \<le> mc" using read_entries_dom [OF 5] by simp
  moreover have "24 + 13 * mc \<le> length bytes"
    using s1 s2 s3 s4 s5 by (auto simp: start_cursor_def inside_def)
  ultimately show ?thesis by (simp add: md)
qed

end
