(* ===== verification/Gguf_Format.thy ===== *)
theory Gguf_Format
  imports Gguf_Reader_Props
begin

text \<open>
  A specification of the GGUF header format (values, arrays, entries and their bytes) and the proof that
  the header reader implements it: on the bytes of any well-formed header, followed by anything, it gives
  the header's version, tensor count and metadata, each value spelled as the reader's contract says.
\<close>

section \<open>The format\<close>

datatype gguf_val =
    GUint8 nat | GInt8 int | GUint16 nat | GInt16 int | GUint32 nat | GInt32 int | GFloat32 nat
  | GBool nat | GString string | GArray nat "gguf_val list" | GUint64 nat | GInt64 int | GFloat64 nat

fun tag_of :: "gguf_val \<Rightarrow> nat" where
  "tag_of (GUint8 n) = 0"
| "tag_of (GInt8 i) = 1"
| "tag_of (GUint16 n) = 2"
| "tag_of (GInt16 i) = 3"
| "tag_of (GUint32 n) = 4"
| "tag_of (GInt32 i) = 5"
| "tag_of (GFloat32 n) = 6"
| "tag_of (GBool n) = 7"
| "tag_of (GString s) = 8"
| "tag_of (GArray t vs) = 9"
| "tag_of (GUint64 n) = 10"
| "tag_of (GInt64 i) = 11"
| "tag_of (GFloat64 n) = 12"

fun le_bytes :: "nat \<Rightarrow> nat \<Rightarrow> string" where
  "le_bytes 0 n = []"
| "le_bytes (Suc w) n = char_of n # le_bytes w (n div 256)"

definition twos_complement :: "nat \<Rightarrow> int \<Rightarrow> nat" where
  "twos_complement width i = nat (i mod 2 ^ (8 * width))"

definition enc_string :: "string \<Rightarrow> string" where
  "enc_string s = le_bytes 8 (length s) @ s"

fun enc_val :: "gguf_val \<Rightarrow> string" where
  "enc_val (GUint8 n) = le_bytes 1 n"
| "enc_val (GInt8 i) = le_bytes 1 (twos_complement 1 i)"
| "enc_val (GUint16 n) = le_bytes 2 n"
| "enc_val (GInt16 i) = le_bytes 2 (twos_complement 2 i)"
| "enc_val (GUint32 n) = le_bytes 4 n"
| "enc_val (GInt32 i) = le_bytes 4 (twos_complement 4 i)"
| "enc_val (GFloat32 n) = le_bytes 4 n"
| "enc_val (GBool n) = le_bytes 1 n"
| "enc_val (GString s) = enc_string s"
| "enc_val (GArray t vs) = le_bytes 4 t @ le_bytes 8 (length vs) @ concat (map enc_val vs)"
| "enc_val (GUint64 n) = le_bytes 8 n"
| "enc_val (GInt64 i) = le_bytes 8 (twos_complement 8 i)"
| "enc_val (GFloat64 n) = le_bytes 8 n"

definition fits_signed :: "nat \<Rightarrow> int \<Rightarrow> bool" where
  "fits_signed width i \<longleftrightarrow> - (2 ^ (8 * width - 1)) \<le> i \<and> i < 2 ^ (8 * width - 1)"

definition wf_string :: "string \<Rightarrow> bool" where
  "wf_string s \<longleftrightarrow> length s \<le> MAX_GGUF_STRING_BYTES \<and> text_decode s \<noteq> None"

fun wf_val :: "gguf_val \<Rightarrow> bool" where
  "wf_val (GUint8 n) = (n < 2 ^ 8)"
| "wf_val (GInt8 i) = fits_signed 1 i"
| "wf_val (GUint16 n) = (n < 2 ^ 16)"
| "wf_val (GInt16 i) = fits_signed 2 i"
| "wf_val (GUint32 n) = (n < 2 ^ 32)"
| "wf_val (GInt32 i) = fits_signed 4 i"
| "wf_val (GFloat32 n) = (n < 2 ^ 32)"
| "wf_val (GBool n) = (n < 2 ^ 8)"
| "wf_val (GString s) = wf_string s"
| "wf_val (GArray t vs) =
     (t < 13 \<and> length vs \<le> MAX_GGUF_ARRAY_LEN \<and> (\<forall>v \<in> set vs. tag_of v = t \<and> wf_val v))"
| "wf_val (GUint64 n) = (n < 2 ^ 64)"
| "wf_val (GInt64 i) = fits_signed 8 i"
| "wf_val (GFloat64 n) = (n < 2 ^ 64)"

text \<open>How a value is spelled: the contract the callers of the reader rely on.\<close>

fun spell :: "float_formats \<Rightarrow> bool \<Rightarrow> gguf_val \<Rightarrow> string" where
  "spell fmt p (GUint8 n) = show_nat n"
| "spell fmt p (GInt8 i) = show_int i"
| "spell fmt p (GUint16 n) = show_nat n"
| "spell fmt p (GInt16 i) = show_int i"
| "spell fmt p (GUint32 n) = show_nat n"
| "spell fmt p (GInt32 i) = show_int i"
| "spell fmt p (GFloat32 n) = fmt_f32 fmt n"
| "spell fmt p (GBool n) = (if n = 0 then ''false'' else ''true'')"
| "spell fmt p (GString s) = the (text_decode s)"
| "spell fmt p (GArray t vs) =
     (if length vs \<le> INLINE_ARRAY_MAX_LEN \<or> inlineAll p t (length vs)
      then ''['' @ js_join '', '' (map (spell fmt False) vs) @ '']''
      else array_placeholder t (length vs))"
| "spell fmt p (GUint64 n) = show_nat n"
| "spell fmt p (GInt64 i) = show_int i"
| "spell fmt p (GFloat64 n) = fmt_f64 fmt n"

fun nesting :: "gguf_val \<Rightarrow> nat" where
  "nesting (GArray t vs) = Suc (sum_list (map nesting vs))"
| "nesting v = 0"

record gguf_header =
  gh_version :: nat
  gh_tensors :: nat
  gh_entries :: "(string \<times> gguf_val) list"

definition enc_entry :: "string \<times> gguf_val \<Rightarrow> string" where
  "enc_entry kv = enc_string (fst kv) @ le_bytes 4 (tag_of (snd kv)) @ enc_val (snd kv)"

definition enc_header :: "gguf_header \<Rightarrow> string" where
  "enc_header h = ''GGUF'' @ le_bytes 4 (gh_version h) @ le_bytes 8 (gh_tensors h) @
     le_bytes 8 (length (gh_entries h)) @ concat (map enc_entry (gh_entries h))"

definition wf_header :: "gguf_header \<Rightarrow> bool" where
  "wf_header h \<longleftrightarrow> gh_version h < 2 ^ 32 \<and> gh_tensors h < 2 ^ 64 \<and> length (gh_entries h) < 2 ^ 64 \<and>
     (\<forall>kv \<in> set (gh_entries h). wf_string (fst kv) \<and> wf_val (snd kv))"

definition spelled_entry :: "float_formats \<Rightarrow> (string \<rightharpoonup> string) \<Rightarrow> string \<times> gguf_val \<Rightarrow> (string \<rightharpoonup> string)" where
  "spelled_entry fmt m kv =
     (let key = the (text_decode (fst kv)) in set_property m key (spell fmt (isPerLayerKey key) (snd kv)))"

definition reading_of :: "float_formats \<Rightarrow> gguf_header \<Rightarrow> gguf_metadata" where
  "reading_of fmt h = \<lparr>gm_version = gh_version h, gm_tensor_count = to_number (gh_tensors h),
     gm_metadata = foldl (spelled_entry fmt) Map.empty (gh_entries h)\<rparr>"

section \<open>Reading what was written\<close>

text \<open>Wherever the bytes \<open>bs\<close> stand, \<open>r\<close> reads exactly them and gives \<open>v\<close>.\<close>

definition reads :: "'a reader \<Rightarrow> string \<Rightarrow> 'a \<Rightarrow> bool" where
  "reads r bs v \<longleftrightarrow> (\<forall>pre post. r \<lparr>cur_buf = pre @ bs @ post, cur_pos = length pre\<rparr> =
     Inr (v, \<lparr>cur_buf = pre @ bs @ post, cur_pos = length pre + length bs\<rparr>))"

lemma reads_at_start:
  "reads r bs v \<Longrightarrow> r \<lparr>cur_buf = bs @ post, cur_pos = 0\<rparr> = Inr (v, \<lparr>cur_buf = bs @ post, cur_pos = length bs\<rparr>)"
  unfolding reads_def by (drule spec [of _ "[]"]) simp

lemma reads_ret: "reads (ret v) [] v"
  by (simp add: reads_def ret_def)

lemma reads_andThen:
  assumes "reads r as v" and "reads (k v) bs w"
  shows "reads (andThen r k) (as @ bs) w"
  unfolding reads_def
proof (intro allI)
  fix pre post
  have "r \<lparr>cur_buf = pre @ as @ bs @ post, cur_pos = length pre\<rparr> =
      Inr (v, \<lparr>cur_buf = pre @ as @ bs @ post, cur_pos = length pre + length as\<rparr>)"
    using assms(1) unfolding reads_def by metis
  moreover have "k v \<lparr>cur_buf = (pre @ as) @ bs @ post, cur_pos = length (pre @ as)\<rparr> =
      Inr (w, \<lparr>cur_buf = (pre @ as) @ bs @ post, cur_pos = length (pre @ as) + length bs\<rparr>)"
    using assms(2) unfolding reads_def by metis
  ultimately show "andThen r k \<lparr>cur_buf = pre @ (as @ bs) @ post, cur_pos = length pre\<rparr> =
      Inr (w, \<lparr>cur_buf = pre @ (as @ bs) @ post, cur_pos = length pre + length (as @ bs)\<rparr>)"
    by (simp add: andThen_def)
qed

lemma reads_then_ret: "reads r bs v \<Longrightarrow> reads (andThen r (\<lambda>v. ret (g v))) bs (g v)"
  using reads_andThen [of r bs v "\<lambda>v. ret (g v)" "[]" "g v"] by (simp add: reads_ret)

lemma reads_c_bytes: "reads (c_bytes (length bs)) bs bs"
  by (simp add: reads_def c_bytes_def need_def)

lemma reads_c_skip: "n = length bs \<Longrightarrow> reads (c_skip n) bs ()"
  by (simp add: reads_def c_skip_def need_def)

lemma reads_times:
  "(\<And>x. x \<in> set xs \<Longrightarrow> reads r (enc x) (f x)) \<Longrightarrow>
   reads (times_read (length xs) r) (concat (map enc xs)) (map f xs)"
proof (induction xs)
  case (Cons x xs)
  have "reads r (enc x) (f x)" by (rule Cons.prems) simp
  moreover have "reads (times_read (length xs) r) (concat (map enc xs)) (map f xs)"
    by (rule Cons.IH) (simp add: Cons.prems)
  ultimately show ?case by (simp add: reads_andThen reads_then_ret)
qed (simp add: reads_ret)

lemma length_le_bytes [simp]: "length (le_bytes w n) = w"
  by (induction w arbitrary: n) simp_all

lemma le_nat_bytes: "n < 256 ^ w \<Longrightarrow> le_nat (le_bytes w n) = n"
proof (induction w arbitrary: n)
  case (Suc w)
  then have "n div 256 < 256 ^ w" by (simp add: less_mult_imp_div_less mult.commute)
  with Suc.IH show ?case by simp
qed simp

lemma power_256: "(256 :: nat) ^ w = 2 ^ (8 * w)"
  by (simp add: power_mult)

lemma reads_unsigned: "n < 2 ^ (8 * w) \<Longrightarrow> reads (c_unsigned w) (le_bytes w n) n"
  using reads_then_ret [OF reads_c_bytes [of "le_bytes w n"], of le_nat]
  by (simp add: c_unsigned_def le_nat_bytes power_256)

lemma signed_of_twos_complement:
  assumes "fits_signed w i" and "0 < w"
  shows "twos_complement w i < 2 ^ (8 * w) \<and> signed_of w (twos_complement w i) = i"
proof -
  define h where "h = (2 :: int) ^ (8 * w - 1)"
  have m: "(2 :: int) ^ (8 * w) = 2 * h" using assms(2) by (simp add: h_def flip: power_Suc)
  have h: "0 < h" by (simp add: h_def)
  have range: "- h \<le> i" "i < h" using assms(1) by (simp_all add: fits_signed_def h_def)
  have nh: "int (2 ^ (8 * w - 1)) = h" and nm: "int (2 ^ (8 * w)) = 2 * h"
    using m by (simp_all add: h_def)
  let ?n = "twos_complement w i"
  have n: "int ?n = i mod (2 * h)" using h m by (simp add: twos_complement_def)
  have lt: "int ?n < int (2 ^ (8 * w))" using n h nm by simp
  have "signed_of w ?n = i"
  proof (cases "i < 0")
    case True
    have "i mod (2 * h) = (i + 2 * h) mod (2 * h)" by simp
    also have "\<dots> = i + 2 * h" using True range h by (intro mod_pos_pos_trivial) simp_all
    finally have "int ?n = i + 2 * h" using n by simp
    then have "\<not> int ?n < int (2 ^ (8 * w - 1))" using nh range by simp
    then have "\<not> ?n < 2 ^ (8 * w - 1)" by (simp only: of_nat_less_iff simp_thms)
    then show ?thesis using \<open>int ?n = i + 2 * h\<close> m by (simp add: signed_of_def)
  next
    case False
    then have "int ?n = i" using n range by (simp add: mod_pos_pos_trivial)
    moreover from this have "?n < 2 ^ (8 * w - 1)" using nh range by (simp only: of_nat_less_iff [symmetric])
    ultimately show ?thesis by (simp add: signed_of_def)
  qed
  with lt show ?thesis by (simp only: of_nat_less_iff)
qed

lemma reads_signed: "fits_signed w i \<Longrightarrow> 0 < w \<Longrightarrow> reads (c_signed w) (le_bytes w (twos_complement w i)) i"
  using reads_then_ret [OF reads_c_bytes [of "le_bytes w (twos_complement w i)"], of "\<lambda>bs. signed_of w (le_nat bs)"]
    signed_of_twos_complement [of w i]
  by (simp add: c_signed_def le_nat_bytes power_256)

lemma reads_fields:
  "n < 2 ^ 8 \<Longrightarrow> reads c_u8 (le_bytes 1 n) n" "fits_signed 1 i \<Longrightarrow> reads c_i8 (le_bytes 1 (twos_complement 1 i)) i"
  "n < 2 ^ 16 \<Longrightarrow> reads c_u16 (le_bytes 2 n) n" "fits_signed 2 i \<Longrightarrow> reads c_i16 (le_bytes 2 (twos_complement 2 i)) i"
  "n < 2 ^ 32 \<Longrightarrow> reads c_u32 (le_bytes 4 n) n" "fits_signed 4 i \<Longrightarrow> reads c_i32 (le_bytes 4 (twos_complement 4 i)) i"
  "n < 2 ^ 64 \<Longrightarrow> reads c_u64 (le_bytes 8 n) n" "fits_signed 8 i \<Longrightarrow> reads c_i64 (le_bytes 8 (twos_complement 8 i)) i"
  "n < 2 ^ 32 \<Longrightarrow> reads c_f32 (le_bytes 4 n) n" "n < 2 ^ 64 \<Longrightarrow> reads c_f64 (le_bytes 8 n) n"
  unfolding field_defs
  using reads_unsigned [of n 1] reads_unsigned [of n 2] reads_unsigned [of n 4] reads_unsigned [of n 8]
    reads_signed [of 1 i] reads_signed [of 2 i] reads_signed [of 4 i] reads_signed [of 8 i]
  by simp_all

lemma wf_string_length: "wf_string s \<Longrightarrow> length s < 2 ^ 64"
  by (simp add: wf_string_def MAX_GGUF_STRING_BYTES_def)

lemma reads_readString: "wf_string s \<Longrightarrow> reads readString (enc_string s) (the (text_decode s))"
  unfolding readString_def enc_string_def
  by (rule reads_andThen [OF reads_fields(7)], erule wf_string_length)
     (auto simp: wf_string_def intro!: reads_andThen [OF reads_c_bytes, where bs = "[]", simplified] reads_ret)

lemma reads_skip_string: "wf_string s \<Longrightarrow> reads skip_string (enc_string s) ()"
  unfolding skip_string_def enc_string_def
  by (rule reads_andThen [OF reads_fields(7) [OF wf_string_length] reads_c_skip]) simp_all

lemma reads_tag: "t < 13 \<Longrightarrow> reads (andThen c_u32 valueType) (le_bytes 4 t) t"
proof -
  assume t: "t < 13"
  then have "reads (valueType t) [] t" by (simp add: valueType_def GGUF_VALUE_TYPE_NAMES_def reads_ret)
  moreover have "reads c_u32 (le_bytes 4 t) t" using t by (intro reads_fields) simp
  ultimately have "reads (andThen c_u32 valueType) (le_bytes 4 t @ []) t" by (intro reads_andThen)
  then show ?thesis by simp
qed

lemma tag_of_less: "tag_of v < 13"
  by (cases v) simp_all

lemma sum_list_member: "v \<in> set vs \<Longrightarrow> nesting v \<le> sum_list (map nesting vs)"
  by (induction vs) auto

lemma length_concat_constant: "(\<And>x. x \<in> set xs \<Longrightarrow> length (f x) = k) \<Longrightarrow> length (concat (map f xs)) = length xs * k"
  by (induction xs) simp_all

text \<open>The width of the fixed-size types, as \<open>skipArray\<close> multiplies it.\<close>

lemma enc_val_width:
  "tag_of v \<in> {0, 1, 7} \<Longrightarrow> length (enc_val v) = 1"
  "tag_of v \<in> {2, 3} \<Longrightarrow> length (enc_val v) = 2"
  "tag_of v \<in> {4, 5, 6} \<Longrightarrow> length (enc_val v) = 4"
  "tag_of v \<in> {10, 11, 12} \<Longrightarrow> length (enc_val v) = 8"
  by (cases v; simp)+

lemma skip_fixed:
  assumes "\<And>v. v \<in> set vs \<Longrightarrow> length (enc_val v) = k"
  shows "reads (c_skip (length vs * k)) (concat (map enc_val vs)) ()"
  by (rule reads_c_skip) (simp add: length_concat_constant [OF assms])

lemma reads_skipArray:
  assumes t: "t < 13" and vs: "\<And>v. v \<in> set vs \<Longrightarrow> tag_of v = t \<and> wf_val v"
    and read: "\<And>v. v \<in> set vs \<Longrightarrow> reads (readValue fmt fuel (tag_of v) False) (enc_val v) (spell fmt False v)"
  shows "reads (skipArray fmt fuel t (length vs)) (concat (map enc_val vs)) ()"
proof -
  have width: "reads (c_skip (length vs * k)) (concat (map enc_val vs)) ()"
    if "\<And>v. tag_of v = t \<Longrightarrow> length (enc_val v) = k" for k
    by (rule skip_fixed) (simp add: vs that)
  consider "t \<in> {0, 1, 7}" | "t \<in> {2, 3}" | "t \<in> {4, 5, 6}" | "t \<in> {10, 11, 12}" | "t = 8" | "t = 9"
  proof -
    have "t \<in> {0, 1, 7} \<or> t \<in> {2, 3} \<or> t \<in> {4, 5, 6} \<or> t \<in> {10, 11, 12} \<or> t = 8 \<or> t = 9"
      using t by (auto simp: less_Suc_eq numeral_eq_Suc)
    then show thesis using that by blast
  qed
  then show ?thesis
  proof cases
    case 1 then show ?thesis using width [of 1] enc_val_width(1) by (simp add: skipArray.simps)
  next
    case 2 then show ?thesis using width [of 2] enc_val_width(2) by (auto simp: skipArray.simps)
  next
    case 3 then show ?thesis using width [of 4] enc_val_width(3) by (auto simp: skipArray.simps)
  next
    case 4 then show ?thesis using width [of 8] enc_val_width(4) by (auto simp: skipArray.simps)
  next
    case 5
    have "reads skip_string (enc_val v) ((\<lambda>_. ()) v)" if "v \<in> set vs" for v
      using vs [OF that] 5 by (cases v) (simp_all add: reads_skip_string)
    then have "reads (andThen (times_read (length vs) skip_string) (\<lambda>_. ret ())) (concat (map enc_val vs)) ()"
      by (rule reads_then_ret [OF reads_times [of vs skip_string enc_val "\<lambda>_. ()"]])
    with 5 show ?thesis by (simp add: skipArray.simps)
  next
    case 6
    have "reads (readValue fmt fuel 9 False) (enc_val v) (spell fmt False v)" if "v \<in> set vs" for v
      using vs [OF that] 6 read [OF that] by simp
    then have "reads (andThen (times_read (length vs) (readValue fmt fuel 9 False)) (\<lambda>_. ret ())) (concat (map enc_val vs)) ()"
      by (rule reads_then_ret [OF reads_times])
    with 6 show ?thesis by (simp add: skipArray.simps)
  qed
qed

lemma reads_scalar:
  assumes "wf_val v" and "tag_of v \<noteq> 9"
  shows "reads (readValue fmt fuel (tag_of v) p) (enc_val v) (spell fmt p v)"
proof (cases v)
  case (GBool n)
  have "reads (andThen c_u8 (\<lambda>v. ret (if v \<noteq> 0 then ''true'' else ''false''))) (le_bytes 1 n)
      (if n \<noteq> 0 then ''true'' else ''false'')"
    using assms GBool by (intro reads_then_ret reads_fields) simp
  then show ?thesis using GBool by (cases "n = 0") (simp_all add: readValue.simps)
qed (use assms reads_fields [THEN reads_then_ret] in \<open>simp_all add: readValue.simps reads_readString\<close>)

lemma reads_array:
  assumes wf: "wf_val (GArray t vs)"
    and read: "\<And>v. v \<in> set vs \<Longrightarrow> reads (readValue fmt fuel (tag_of v) False) (enc_val v) (spell fmt False v)"
  shows "reads (readValue fmt (Suc fuel) 9 p) (enc_val (GArray t vs)) (spell fmt p (GArray t vs))"
proof -
  from wf have t: "t < 13" and len: "length vs \<le> MAX_GGUF_ARRAY_LEN"
    and vs: "\<And>v. v \<in> set vs \<Longrightarrow> tag_of v = t \<and> wf_val v" by auto
  have len64: "length vs < 2 ^ 64" using len by (simp add: MAX_GGUF_ARRAY_LEN_def)
  have skip: "reads (andThen (skipArray fmt fuel t (length vs)) (\<lambda>_. ret (array_placeholder t (length vs))))
      (concat (map enc_val vs)) (array_placeholder t (length vs))"
    using reads_then_ret [OF reads_skipArray [OF t vs read], where g = "\<lambda>_. array_placeholder t (length vs)"] by simp
  have elem: "reads (readValue fmt fuel t False) (enc_val v) (spell fmt False v)" if "v \<in> set vs" for v
    using read [OF that] vs [OF that] by simp
  have inl: "reads (andThen (times_read (length vs) (readValue fmt fuel t False))
        (\<lambda>elems. ret (''['' @ js_join '', '' elems @ '']'')))
      (concat (map enc_val vs)) (''['' @ js_join '', '' (map (spell fmt False) vs) @ '']'')"
    by (rule reads_then_ret [OF reads_times [OF elem]])
  have body: "readValue fmt (Suc fuel) 9 p =
      andThen (andThen c_u32 valueType) (\<lambda>elemType. andThen c_u64 (\<lambda>len.
          if len > MAX_GGUF_ARRAY_LEN
          then throw (Parse_error (''Array length '' @ show_nat len @ '' is unreasonably large''))
          else if len > INLINE_ARRAY_MAX_LEN \<and> \<not> inlineAll p elemType len
          then andThen (skipArray fmt fuel elemType len) (\<lambda>_. ret (array_placeholder elemType len))
          else andThen (times_read len (readValue fmt fuel elemType False))
                 (\<lambda>elems. ret (''['' @ js_join '', '' elems @ '']''))))"
    by (subst readValue.simps) simp
  show ?thesis
    unfolding body enc_val.simps
    by (intro reads_andThen [OF reads_tag [OF t]] reads_andThen [OF reads_fields(7) [OF len64]])
       (use len inl skip in \<open>auto simp: not_le\<close>)
qed

lemma reads_value:
  "wf_val v \<Longrightarrow> nesting v \<le> fuel \<Longrightarrow> reads (readValue fmt fuel (tag_of v) p) (enc_val v) (spell fmt p v)"
proof (induction fuel arbitrary: v p)
  case 0
  then have "tag_of v \<noteq> 9" by (cases v) simp_all
  with 0 show ?case by (intro reads_scalar)
next
  case (Suc fuel)
  show ?case
  proof (cases "tag_of v = 9")
    case True
    then obtain t vs where v: "v = GArray t vs" by (cases v) simp_all
    have "reads (readValue fmt fuel (tag_of w) False) (enc_val w) (spell fmt False w)" if "w \<in> set vs" for w
      using Suc.prems v that sum_list_member [OF that] by (intro Suc.IH) auto
    from reads_array [OF _ this] Suc.prems v show ?thesis by simp
  qed (intro reads_scalar Suc.prems)
qed

lemma nesting_le_bytes: "nesting v \<le> length (enc_val v)"
proof (induction v)
  case (GArray t vs)
  then have "sum_list (map nesting vs) \<le> sum_list (map (length \<circ> enc_val) vs)"
    by (intro sum_list_mono) simp
  then show ?case by (simp add: length_concat)
qed simp_all

section \<open>The header\<close>

lemma reads_entry:
  assumes "wf_string (fst kv)" and "wf_val (snd kv)" and "nesting (snd kv) \<le> fuel"
  shows "reads (read_entry fmt fuel) (enc_entry kv)
    (the (text_decode (fst kv)), spell fmt (isPerLayerKey (the (text_decode (fst kv)))) (snd kv))"
  unfolding read_entry_def enc_entry_def
  by (intro reads_andThen [OF reads_readString] reads_andThen [OF reads_tag [OF tag_of_less]]
       reads_then_ret [OF reads_value] assms)

lemma reads_rethrow: "reads r bs v \<Longrightarrow> reads (rethrow i r) bs v"
  by (simp add: reads_def)

lemma reads_entries:
  "(\<And>kv. kv \<in> set kvs \<Longrightarrow> wf_string (fst kv) \<and> wf_val (snd kv) \<and> nesting (snd kv) \<le> fuel) \<Longrightarrow>
   reads (read_entries fmt fuel i (length kvs) m) (concat (map enc_entry kvs)) (foldl (spelled_entry fmt) m kvs)"
proof (induction kvs arbitrary: i m)
  case (Cons kv kvs)
  have "reads (rethrow i (read_entry fmt fuel)) (enc_entry kv)
    (the (text_decode (fst kv)), spell fmt (isPerLayerKey (the (text_decode (fst kv)))) (snd kv))"
    by (intro reads_rethrow reads_entry) (simp_all add: Cons.prems)
  then show ?case using Cons.IH Cons.prems by (simp add: reads_andThen spelled_entry_def Let_def)
qed (simp add: reads_ret)

lemma reads_header:
  assumes wf: "wf_header h" and fuel: "\<And>kv. kv \<in> set (gh_entries h) \<Longrightarrow> nesting (snd kv) \<le> fuel"
  shows "reads (read_header fmt fuel) (enc_header h) (reading_of fmt h)"
proof -
  have magic: "reads (c_bytes 4) ''GGUF'' ''GGUF''"
    using reads_c_bytes [of "''GGUF''"] by (simp add: eval_nat_numeral)
  have es: "reads (read_entries fmt fuel 0 (length (gh_entries h)) Map.empty) (concat (map enc_entry (gh_entries h)))
      (foldl (spelled_entry fmt) Map.empty (gh_entries h))"
    using wf fuel by (intro reads_entries) (auto simp: wf_header_def)
  show ?thesis
    unfolding read_header_def enc_header_def reading_of_def
    by (rule reads_andThen [OF magic], simp only: GGUF_MAGIC_def simp_thms if_False,
        intro reads_andThen [OF reads_fields(5)] reads_andThen [OF reads_fields(7)] reads_then_ret [OF es])
       (use wf in \<open>simp_all add: wf_header_def\<close>)
qed

lemma entry_in_header: "kv \<in> set (gh_entries h) \<Longrightarrow> length (enc_entry kv) \<le> length (enc_header h)"
  by (simp add: enc_header_def length_concat member_le_sum_list trans_le_add2)

text \<open>
  C27. The header reader implements the GGUF format: on the bytes of every well-formed header, whatever
  follows them, it gives that header's version, tensor count and metadata, every value spelled by the
  contract (long arrays summarised, per-layer arrays in full) and a repeated key holding its last value.
\<close>

theorem gguf_reader_implements_format:
  assumes "wf_header h"
  shows "readGgufMetadata fmt (enc_header h @ tail) = Inr (reading_of fmt h)"
proof -
  let ?fuel = "Suc (length (enc_header h @ tail))"
  have "nesting (snd kv) \<le> ?fuel" if "kv \<in> set (gh_entries h)" for kv
    using nesting_le_bytes [of "snd kv"] entry_in_header [OF that] by (simp add: enc_entry_def)
  then have "reads (read_header fmt ?fuel) (enc_header h) (reading_of fmt h)" by (rule reads_header [OF assms])
  from reads_at_start [OF this, of tail] show ?thesis by (simp add: readGgufMetadata_def start_cursor_def)
qed

end
