(* ===== verification/Gguf_Tensors.thy ===== *)
theory Gguf_Tensors
  imports Gguf_Reader_Props "HOL-Library.Multiset"
begin

text \<open>
  The tensor-table reader, \<open>src/src/models/gguf/tensors.ts\<close>: the bounded cursor operations, values skipped or
  read as scalars, the tensor infos, the summary per tensor type, and the loop over growing prefixes.
  The engine's number conversions the code calls are parameters: spelling a float (\<open>String(v)\<close>) and
  reading \<open>general.alignment\<close> (\<open>Number(s)\<close>, \<^const>\<open>Some\<close> when the result is an integer).  Sums of elements
  and bytes are exact here; the code adds doubles, which are exact up to \<open>2^53\<close>.  \<open>bitsPerWeight\<close> is kept as the
  pair of the numbers the code divides.
\<close>

record number_conversions = float_formats +
  integer_of :: "string \<Rightarrow> int option"

definition MAX_GGUF_TENSORS :: nat where "MAX_GGUF_TENSORS = 200000"
definition MAX_GGUF_TENSOR_DIMS :: nat where "MAX_GGUF_TENSOR_DIMS = 8"
definition MAX_GGUF_METADATA_ENTRIES :: nat where "MAX_GGUF_METADATA_ENTRIES = 1000000"
definition MAX_STRING_BYTES :: nat where "MAX_STRING_BYTES = 1024 * 1024"
definition MAX_ARRAY_LEN :: nat where "MAX_ARRAY_LEN = 50000000"
definition DEFAULT_ALIGNMENT :: nat where "DEFAULT_ALIGNMENT = 32"
definition SAFE_INTEGER :: nat where "SAFE_INTEGER = 2 ^ 53 - 1"

record tensor_info =
  ti_type :: nat
  ti_elements :: nat
  ti_offset :: nat

record tensor_type_summary =
  ts_type :: nat
  ts_tensors :: nat
  ts_elements :: nat
  ts_bytes :: nat
  ts_sizedElements :: nat
  ts_bitsPerWeight :: "(nat \<times> nat) option"

record tensor_summary =
  sum_version :: nat
  sum_tensorCount :: nat
  sum_metadata :: "string \<rightharpoonup> string"
  sum_alignment :: nat
  sum_dataOffset :: nat
  sum_types :: "tensor_type_summary list"

section \<open>Bounded reads\<close>

definition t_u64 :: "nat \<Rightarrow> string \<Rightarrow> nat reader" where
  "t_u64 most what = andThen c_u64 (\<lambda>v.
     if v > most then throw (Parse_error (what @ '' '' @ show_nat v @ '' is unreasonably large'')) else ret v)"

text \<open>
  \<open>new TextDecoder('utf-8').decode\<close>: the WHATWG decoder with replacement.  \<open>got\<close> holds the bytes of the
  character under way; a byte that cannot continue it is looked at again as a first byte.
\<close>

definition replacement :: string where
  "replacement = [CHR 0xEF, CHR 0xBF, CHR 0xBD]"

function (sequential) utf8_lossy :: "string \<Rightarrow> nat \<Rightarrow> nat \<Rightarrow> nat \<Rightarrow> string \<Rightarrow> string" where
  "utf8_lossy got n lo hi [] = (if n = 0 then [] else replacement)"
| "utf8_lossy got 0 lo hi (ch # cs) =
     (let b = of_char ch :: nat in
      if b \<le> 0x7F then ch # utf8_lossy [] 0 0x80 0xBF cs
      else if 0xC2 \<le> b \<and> b \<le> 0xDF then utf8_lossy [ch] 1 0x80 0xBF cs
      else if 0xE0 \<le> b \<and> b \<le> 0xEF then
        utf8_lossy [ch] 2 (if b = 0xE0 then 0xA0 else 0x80) (if b = 0xED then 0x9F else 0xBF) cs
      else if 0xF0 \<le> b \<and> b \<le> 0xF4 then
        utf8_lossy [ch] 3 (if b = 0xF0 then 0x90 else 0x80) (if b = 0xF4 then 0x8F else 0xBF) cs
      else replacement @ utf8_lossy [] 0 0x80 0xBF cs)"
| "utf8_lossy got (Suc n) lo hi (ch # cs) =
     (if lo \<le> of_char ch \<and> of_char ch \<le> hi
      then if n = 0 then got @ [ch] @ utf8_lossy [] 0 0x80 0xBF cs else utf8_lossy (got @ [ch]) n 0x80 0xBF cs
      else replacement @ utf8_lossy [] 0 0x80 0xBF (ch # cs))"
  by pat_completeness auto

termination
  by (relation "measure (\<lambda>(got, n, lo, hi, cs). 2 * length cs + (if n = 0 then 0 else 1))") (auto simp: Let_def)

definition text_decode_lossy :: "string \<Rightarrow> string" where
  "text_decode_lossy bytes =
     (let s = utf8_lossy [] 0 0x80 0xBF bytes in if js_prefix byte_order_mark bytes then drop 3 s else s)"

definition t_string :: "string reader" where
  "t_string = andThen (t_u64 MAX_STRING_BYTES ''String length'') (\<lambda>len.
     andThen (c_bytes len) (\<lambda>raw. ret (text_decode_lossy raw)))"

definition t_scalar :: "number_conversions \<Rightarrow> nat \<Rightarrow> string reader" where
  "t_scalar nums type =
     (if type = 0 then andThen c_u8 (\<lambda>v. ret (show_nat v))
      else if type = 1 then andThen c_i8 (\<lambda>v. ret (show_int v))
      else if type = 2 then andThen c_u16 (\<lambda>v. ret (show_nat v))
      else if type = 3 then andThen c_i16 (\<lambda>v. ret (show_int v))
      else if type = 4 then andThen c_u32 (\<lambda>v. ret (show_nat v))
      else if type = 5 then andThen c_i32 (\<lambda>v. ret (show_int v))
      else if type = 6 then andThen c_f32 (\<lambda>v. ret (fmt_f32 nums v))
      else if type = 7 then andThen c_u8 (\<lambda>v. ret (if v \<noteq> 0 then ''true'' else ''false''))
      else if type = 8 then t_string
      else if type = 10 then andThen c_u64 (\<lambda>v. ret (show_nat v))
      else if type = 11 then andThen c_i64 (\<lambda>v. ret (show_int v))
      else if type = 12 then andThen c_f64 (\<lambda>v. ret (fmt_f64 nums v))
      else throw (Parse_error (''Unknown GGUF value type: '' @ show_nat type)))"

definition TYPE_WIDTHS :: "int list" where
  "TYPE_WIDTHS = [1, 1, 2, 2, 4, 4, 4, 1, -1, -1, 8, 8, 8]"

definition width_of :: "nat \<Rightarrow> int option" where
  "width_of type = (if type < length TYPE_WIDTHS then Some (TYPE_WIDTHS ! type) else None)"

function skipValue :: "nat \<Rightarrow> nat \<Rightarrow> unit reader" where
  "skipValue type depth =
     (if type \<noteq> 9 then
        (case width_of type of
           None \<Rightarrow> throw (Parse_error (''Unknown GGUF value type: '' @ show_nat type))
         | Some width \<Rightarrow> if width > 0 then c_skip (nat width)
             else andThen (t_u64 MAX_STRING_BYTES ''String length'') c_skip)
      else if depth > 4 then throw (Parse_error ''GGUF arrays nested too deeply'')
      else andThen c_u32 (\<lambda>elem. andThen (t_u64 MAX_ARRAY_LEN ''Array length'') (\<lambda>len.
        case width_of elem of
          None \<Rightarrow> throw (Parse_error (''Unknown GGUF value type: '' @ show_nat elem))
        | Some width \<Rightarrow> if width > 0 then c_skip (len * nat width)
            else andThen (times_read len (skipValue elem (Suc depth))) (\<lambda>_. ret ()))))"
  by pat_completeness auto

termination
  by (relation "measure (\<lambda>(type, depth). 5 - depth)") auto

declare skipValue.simps [simp del]

section \<open>The table\<close>

definition t_entry :: "number_conversions \<Rightarrow> (string \<times> string) reader" where
  "t_entry nums = andThen t_string (\<lambda>key. andThen c_u32 (\<lambda>type.
     if type = 9 then andThen (skipValue 9 0) (\<lambda>_. ret (key, ''[array]''))
     else andThen (t_scalar nums type) (\<lambda>v. ret (key, v))))"

definition alignment_of :: "number_conversions \<Rightarrow> (string \<rightharpoonup> string) \<Rightarrow> nat" where
  "alignment_of nums metadata =
     (case (case metadata ''general.alignment'' of Some s \<Rightarrow> integer_of nums s | None \<Rightarrow> Some (int DEFAULT_ALIGNMENT)) of
        Some a \<Rightarrow> if a > 0 \<and> a mod 8 = 0 then nat a else DEFAULT_ALIGNMENT
      | None \<Rightarrow> DEFAULT_ALIGNMENT)"

fun t_dims :: "nat \<Rightarrow> nat \<Rightarrow> nat \<Rightarrow> nat reader" where
  "t_dims i 0 elements = ret elements"
| "t_dims i (Suc d) elements = andThen (t_u64 SAFE_INTEGER ''Tensor dimension'') (\<lambda>n.
     if elements * n > SAFE_INTEGER
     then throw (Parse_error (''Tensor '' @ show_nat i @ '' has too many elements''))
     else t_dims i d (elements * n))"

definition t_info :: "nat \<Rightarrow> tensor_info reader" where
  "t_info i = andThen t_string (\<lambda>_. andThen c_u32 (\<lambda>dims.
     if dims < 1 \<or> dims > MAX_GGUF_TENSOR_DIMS
     then throw (Parse_error (''Tensor '' @ show_nat i @ '' has '' @ show_nat dims @ '' dimensions''))
     else andThen (t_dims i dims 1) (\<lambda>elements. andThen c_u32 (\<lambda>type.
       andThen (t_u64 SAFE_INTEGER ''Tensor offset'') (\<lambda>offset.
         ret \<lparr>ti_type = type, ti_elements = elements, ti_offset = offset\<rparr>)))))"

fun t_infos :: "nat \<Rightarrow> nat \<Rightarrow> tensor_info list reader" where
  "t_infos i 0 = ret []"
| "t_infos i (Suc n) = andThen (t_info i) (\<lambda>t. andThen (t_infos (Suc i) n) (\<lambda>ts. ret (t # ts)))"

section \<open>The summary\<close>

text \<open>The bytes up to the next tensor, or to the end of the data for the last one.\<close>

definition tensor_size :: "tensor_info \<Rightarrow> int option \<Rightarrow> nat option" where
  "tensor_size t next = (case next of
     Some n \<Rightarrow> if n \<ge> int (ti_offset t) then Some (nat (n - int (ti_offset t))) else None
   | None \<Rightarrow> None)"

definition empty_entry :: "nat \<Rightarrow> tensor_type_summary" where
  "empty_entry type = \<lparr>ts_type = type, ts_tensors = 0, ts_elements = 0, ts_bytes = 0, ts_sizedElements = 0,
     ts_bitsPerWeight = None\<rparr>"

definition count_tensor :: "tensor_info \<Rightarrow> nat option \<Rightarrow> tensor_type_summary \<Rightarrow> tensor_type_summary" where
  "count_tensor t sz entry =
     (let entry = entry\<lparr>ts_tensors := ts_tensors entry + 1, ts_elements := ts_elements entry + ti_elements t\<rparr>
      in case sz of
           Some s \<Rightarrow> if ti_elements t > 0
             then entry\<lparr>ts_bytes := ts_bytes entry + s, ts_sizedElements := ts_sizedElements entry + ti_elements t\<rparr>
             else entry
         | None \<Rightarrow> entry)"

text \<open>A \<open>Map\<close> keeps its keys in insertion order; setting a present key keeps its place.\<close>

fun by_type_set :: "tensor_info \<Rightarrow> nat option \<Rightarrow> tensor_type_summary list \<Rightarrow> tensor_type_summary list" where
  "by_type_set t sz [] = [count_tensor t sz (empty_entry (ti_type t))]"
| "by_type_set t sz (e # es) =
     (if ts_type e = ti_type t then count_tensor t sz e # es else e # by_type_set t sz es)"

fun summarise :: "int option \<Rightarrow> tensor_info list \<Rightarrow> tensor_type_summary list \<Rightarrow> tensor_type_summary list" where
  "summarise dataSize [] byType = byType"
| "summarise dataSize (t # ts) byType =
     (let next = (case ts of [] \<Rightarrow> dataSize | u # _ \<Rightarrow> Some (int (ti_offset u)))
      in summarise dataSize ts (by_type_set t (tensor_size t next) byType))"

definition bits_per_weight :: "tensor_type_summary \<Rightarrow> tensor_type_summary" where
  "bits_per_weight e = e\<lparr>ts_bitsPerWeight :=
     (if ts_sizedElements e > 0 then Some (ts_bytes e * 8, ts_sizedElements e) else None)\<rparr>"

definition type_summaries :: "int option \<Rightarrow> tensor_info list \<Rightarrow> tensor_type_summary list" where
  "type_summaries dataSize infos =
     sort_key ts_type (map bits_per_weight (summarise dataSize (sort_key ti_offset infos) []))"

definition c_pos :: "nat reader" where
  "c_pos c = Inr (cur_pos c, c)"

text \<open>The magic number, compared byte by byte: a wrong byte is refused before the next is needed.\<close>

fun t_expect :: "nat list \<Rightarrow> bool reader" where
  "t_expect [] = ret True"
| "t_expect (b # bs) = andThen c_u8 (\<lambda>v. if v \<noteq> b then ret False else t_expect bs)"

definition read_table :: "number_conversions \<Rightarrow> nat option \<Rightarrow> tensor_summary reader" where
  "read_table nums fileSize = andThen (t_expect [0x47, 0x47, 0x55, 0x46]) (\<lambda>magic.
     if \<not> magic then throw (Parse_error ''Not a GGUF file'')
     else andThen c_u32 (\<lambda>version.
       if version < 2 then throw (Parse_error (''Unsupported GGUF version '' @ show_nat version))
       else andThen (t_u64 MAX_GGUF_TENSORS ''Tensor count'') (\<lambda>tensorCount.
         andThen (t_u64 MAX_GGUF_METADATA_ENTRIES ''Metadata count'') (\<lambda>metadataCount.
         andThen (times_read metadataCount (t_entry nums)) (\<lambda>entries.
         let metadata = foldl (\<lambda>m kv. set_property m (fst kv) (snd kv)) Map.empty entries;
             alignment = alignment_of nums metadata in
         andThen (t_infos 0 tensorCount) (\<lambda>infos. andThen c_pos (\<lambda>pos.
           let dataOffset = (pos + alignment - 1) div alignment * alignment;
               dataSize = map_option (\<lambda>s. int s - int dataOffset) fileSize in
           ret \<lparr>sum_version = version, sum_tensorCount = tensorCount, sum_metadata = metadata,
             sum_alignment = alignment, sum_dataOffset = dataOffset,
             sum_types = type_summaries dataSize infos\<rparr>)))))))"

definition readGgufTensorSummary :: "number_conversions \<Rightarrow> nat option \<Rightarrow> string \<Rightarrow> gguf_exn + tensor_summary" where
  "readGgufTensorSummary nums fileSize bytes = map_sum id fst (read_table nums fileSize (start_cursor bytes))"

datatype growth = Linear | Doubling

definition readGgufTensorSummaryChunked :: "number_conversions \<Rightarrow> (nat \<Rightarrow> string) \<Rightarrow> nat option \<Rightarrow> nat option
    \<Rightarrow> nat option \<Rightarrow> growth option \<Rightarrow> (gguf_exn + tensor_summary) option" where
  "readGgufTensorSummaryChunked nums readPrefix fileSize chunkSize maxBytes growth =
     (let chunk = (case chunkSize of Some n \<Rightarrow> n | None \<Rightarrow> 4 * 1024 * 1024);
          limit = (case maxBytes of Some n \<Rightarrow> n | None \<Rightarrow> 64 * 1024 * 1024);
          next = (\<lambda>want. if growth = Some Doubling then want * 2 else want + chunk)
      in grow_prefix (readGgufTensorSummary nums fileSize) readPrefix next
           ''Could not read the GGUF tensor table within the read budget'' limit chunk)"

section \<open>Forward, and the same on a longer prefix\<close>

lemma steady_first: "steady 0 r \<Longrightarrow> (\<And>v. steady 0 (k v)) \<Longrightarrow> steady 0 (andThen r k)"
  by (rule steady_then) simp_all

text \<open>A reader of this file: it moves forward, continues itself, and has no recursion bound to exhaust.\<close>

definition regular :: "'a reader \<Rightarrow> bool" where
  "regular r \<longleftrightarrow> steady 0 r \<and> continues r r \<and> (\<forall>c. r c \<noteq> Inl Nested_too_deep)"

lemma andThen_not_deep:
  "(\<And>c. r c \<noteq> Inl Nested_too_deep) \<Longrightarrow> (\<And>v c. k v c \<noteq> Inl Nested_too_deep) \<Longrightarrow>
   andThen r k c \<noteq> Inl Nested_too_deep"
  by (auto simp: andThen_def split: sum.split prod.split)

lemma regular_andThen: "regular r \<Longrightarrow> (\<And>v. regular (k v)) \<Longrightarrow> regular (andThen r k)"
  unfolding regular_def by (auto intro: steady_first continues_andThen simp: andThen_not_deep)

lemma regular_if: "(b \<Longrightarrow> regular r) \<Longrightarrow> (\<not> b \<Longrightarrow> regular s) \<Longrightarrow> regular (if b then r else s)"
  by simp

lemma regular_option:
  "regular r \<Longrightarrow> (\<And>v. regular (s v)) \<Longrightarrow> regular (case x of None \<Rightarrow> r | Some v \<Rightarrow> s v)"
  by (cases x) simp_all

lemma regular_ret: "regular (ret v)"
  using steady_ret [of v] continues_ret [of v] by (simp add: regular_def ret_def)

lemma regular_throw: "regular (throw (Parse_error m))"
  using steady_throw [of 0 "Parse_error m"] continues_throw [of "Parse_error m"] by (simp add: regular_def throw_def)

lemma regular_times: "regular r \<Longrightarrow> regular (times_read n r)"
  by (induction n) (auto intro!: regular_andThen regular_ret)

lemma regular_cursor: "regular (c_bytes n)" "regular (c_skip n)" "regular c_pos"
proof -
  show "regular (c_bytes n)"
    by (simp add: regular_def steady_c_bytes_any continues_c_bytes) (simp add: c_bytes_def)
  show "regular (c_skip n)"
    by (simp add: regular_def steady_c_skip_any continues_c_skip) (simp add: c_skip_def)
  show "regular c_pos" by (simp add: regular_def steady_def continues_def c_pos_def longer_def)
qed

lemma regular_field:
  "regular c_u8" "regular c_i8" "regular c_u16" "regular c_i16" "regular c_u32" "regular c_i32"
  "regular c_u64" "regular c_i64" "regular c_f32" "regular c_f64"
  unfolding field_defs c_unsigned_def c_signed_def by (intro regular_andThen regular_cursor regular_ret)+

lemmas regular_intros = regular_andThen regular_if regular_option regular_times regular_ret regular_throw
  regular_cursor regular_field

lemma regular_t_u64: "regular (t_u64 most what)"
  unfolding t_u64_def by (intro regular_intros)

lemma regular_t_string: "regular t_string"
  unfolding t_string_def by (intro regular_intros regular_t_u64)

lemma regular_t_scalar: "regular (t_scalar nums type)"
  unfolding t_scalar_def by (intro regular_intros regular_t_string)

lemma regular_skipValue: "regular (skipValue type depth)"
proof (induction "5 - depth" arbitrary: type depth rule: less_induct)
  case less
  show ?case
  proof (cases "type = 9 \<and> \<not> 4 < depth")
    case True
    then have "regular (skipValue elem (Suc depth))" for elem by (intro less) linarith
    with True show ?thesis by (subst skipValue.simps) (auto intro!: regular_intros regular_t_u64)
  next
    case False
    then show ?thesis by (subst skipValue.simps) (auto intro!: regular_intros regular_t_u64)
  qed
qed

lemma regular_t_entry: "regular (t_entry nums)"
  unfolding t_entry_def by (intro regular_intros regular_t_string regular_skipValue regular_t_scalar)

lemma regular_t_dims: "regular (t_dims i d elements)"
  by (induction d arbitrary: elements) (auto intro!: regular_intros regular_t_u64)

lemma regular_t_info: "regular (t_info i)"
  unfolding t_info_def by (intro regular_intros regular_t_string regular_t_dims regular_t_u64)

lemma regular_t_infos: "regular (t_infos i n)"
  by (induction n arbitrary: i) (auto intro!: regular_andThen regular_ret regular_t_info)

lemma regular_t_expect: "regular (t_expect bs)"
  by (induction bs) (auto intro!: regular_intros)

lemma regular_read_table: "regular (read_table nums fileSize)"
  unfolding read_table_def Let_def
  by (intro regular_intros regular_t_expect regular_t_u64 regular_t_entry regular_t_infos)

lemma readGgufTensorSummary_longer:
  assumes "readGgufTensorSummary nums fileSize bytes \<noteq> Inl Need_more"
  shows "readGgufTensorSummary nums fileSize (bytes @ zs) = readGgufTensorSummary nums fileSize bytes"
proof -
  let ?r = "read_table nums fileSize (start_cursor bytes)"
  have reg: "continues (read_table nums fileSize) (read_table nums fileSize)" "?r \<noteq> Inl Nested_too_deep"
    using regular_read_table [of nums fileSize] by (simp_all add: regular_def)
  have "settled ?r"
  proof (cases ?r)
    case (Inl e)
    with assms reg(2) show ?thesis by (cases e) (simp_all add: readGgufTensorSummary_def)
  qed simp
  then have "read_table nums fileSize (start_cursor (bytes @ zs)) = moved ?r zs"
    using continuesD [OF reg(1) inside_start, of bytes zs] by (simp add: longer_start)
  then show ?thesis by (cases ?r) (auto simp: readGgufTensorSummary_def)
qed

interpretation table_reader: prefix_parser "readGgufTensorSummary nums fileSize" for nums fileSize
  by unfold_locales (rule readGgufTensorSummary_longer)

text \<open>
  Reading the tensor table in growing prefixes, one chunk more each time or twice as many bytes each
  time, ends for every positive chunk size and gives exactly what one parse of the file's first
  \<open>maxBytes\<close> bytes gives.
\<close>

theorem tensor_chunks_are_invisible:
  assumes "chunkSize \<noteq> Some 0"
  shows "readGgufTensorSummaryChunked nums (\<lambda>n. take n file) fileSize chunkSize maxBytes growth =
    Some (out_of_budget ''Could not read the GGUF tensor table within the read budget''
      (readGgufTensorSummary nums fileSize (take (case maxBytes of Some n \<Rightarrow> n | None \<Rightarrow> 64 * 1024 * 1024) file)))"
proof -
  let ?chunk = "case chunkSize of Some n \<Rightarrow> n | None \<Rightarrow> 4 * 1024 * 1024"
  have "1 \<le> ?chunk" using assms by (auto split: option.split)
  then have "w < (if growth = Some Doubling then w * 2 else w + ?chunk)" if "1 \<le> w" for w
    using that by simp
  from table_reader.grow_prefix_whole [OF this \<open>1 \<le> ?chunk\<close>] show ?thesis
    by (simp add: readGgufTensorSummaryChunked_def Let_def)
qed

section \<open>Every tensor is counted once\<close>

lemma count_tensor_fields:
  "ts_type (count_tensor t sz e) = ts_type e"
  "ts_tensors (count_tensor t sz e) = Suc (ts_tensors e)"
  "ts_elements (count_tensor t sz e) = ts_elements e + ti_elements t"
  "ts_bytes (count_tensor t sz e) =
     ts_bytes e + (case sz of Some s \<Rightarrow> if ti_elements t > 0 then s else 0 | None \<Rightarrow> 0)"
  by (auto simp: count_tensor_def Let_def split: option.split)

lemma by_type_set_types: "set (map ts_type (by_type_set t sz es)) = insert (ti_type t) (set (map ts_type es))"
  by (induction es) (auto simp: count_tensor_fields empty_entry_def)

lemma by_type_set_distinct: "distinct (map ts_type es) \<Longrightarrow> distinct (map ts_type (by_type_set t sz es))"
proof (induction es)
  case (Cons e es)
  then show ?case using by_type_set_types [of t sz es] by (auto simp: count_tensor_fields)
qed (simp add: count_tensor_fields empty_entry_def)

definition total :: "(tensor_type_summary \<Rightarrow> nat) \<Rightarrow> tensor_type_summary list \<Rightarrow> nat" where
  "total f es = sum_list (map f es)"

lemma by_type_set_total:
  assumes "\<And>e. f (count_tensor t sz e) = f e + d" and "\<And>n. f (empty_entry n) = 0"
  shows "total f (by_type_set t sz es) = total f es + d"
  by (induction es) (simp_all add: total_def assms)

text \<open>The tensors, elements or bytes of one type in the summary are those of the tensors of that type.\<close>

definition of_type :: "nat \<Rightarrow> tensor_type_summary list \<Rightarrow> tensor_type_summary" where
  "of_type n es = (case find (\<lambda>e. ts_type e = n) es of Some e \<Rightarrow> e | None \<Rightarrow> empty_entry n)"

lemma of_type_set:
  "of_type n (by_type_set t sz es) = (if ti_type t = n then count_tensor t sz (of_type n es) else of_type n es)"
  by (induction es) (auto simp: of_type_def count_tensor_fields empty_entry_def)

lemma summarise_types: "set (map ts_type (summarise ds ts es)) = ti_type ` set ts \<union> set (map ts_type es)"
proof (induction ds ts es rule: summarise.induct)
  case (2 ds t ts es)
  show ?case unfolding summarise.simps(2) Let_def using 2 by_type_set_types by (auto simp: Let_def)
qed simp

lemma summarise_distinct: "distinct (map ts_type es) \<Longrightarrow> distinct (map ts_type (summarise ds ts es))"
  by (induction ds ts es rule: summarise.induct) (simp_all add: Let_def by_type_set_distinct)

lemma summarise_of_type:
  "ts_tensors (of_type n (summarise ds ts es)) = ts_tensors (of_type n es) + length (filter (\<lambda>t. ti_type t = n) ts)
   \<and> ts_elements (of_type n (summarise ds ts es)) =
      ts_elements (of_type n es) + sum_list (map ti_elements (filter (\<lambda>t. ti_type t = n) ts))"
  by (induction ds ts es rule: summarise.induct) (simp_all add: Let_def of_type_set count_tensor_fields)

text \<open>The sized bytes never exceed the distance from the first tensor to the end of the data.\<close>

lemma summarise_bytes:
  "sorted (map ti_offset ts) \<Longrightarrow> (\<And>t. t \<in> set ts \<Longrightarrow> int (ti_offset t) \<le> d) \<Longrightarrow> ts \<noteq> [] \<Longrightarrow>
   int (total ts_bytes (summarise (Some d) ts es)) \<le> int (total ts_bytes es) + (d - int (ti_offset (hd ts)))"
proof (induction ts arbitrary: es)
  case (Cons t ts)
  let ?next = "case ts of [] \<Rightarrow> Some d | u # _ \<Rightarrow> Some (int (ti_offset u))"
  let ?es = "by_type_set t (tensor_size t ?next) es"
  have tot: "total ts_bytes ?es =
      total ts_bytes es + (case tensor_size t ?next of Some s \<Rightarrow> if ti_elements t > 0 then s else 0 | None \<Rightarrow> 0)"
    by (rule by_type_set_total) (simp_all add: count_tensor_fields empty_entry_def)
  have unfold: "summarise (Some d) (t # ts) es = summarise (Some d) ts ?es" by (simp add: Let_def split: list.split)
  show ?case
  proof (cases ts)
    case Nil
    with tot unfold Cons.prems show ?thesis by (auto simp: tensor_size_def)
  next
    case (Cons u us)
    have le: "ti_offset t \<le> ti_offset u" using Cons.prems(1) Cons by simp
    have "int (total ts_bytes (summarise (Some d) ts ?es)) \<le> int (total ts_bytes ?es) + (d - int (ti_offset u))"
      using Cons.IH [of ?es] Cons.prems Cons by simp
    moreover have "int (total ts_bytes ?es) \<le> int (total ts_bytes es) + (int (ti_offset u) - int (ti_offset t))"
      using tot le Cons by (auto simp: tensor_size_def)
    ultimately show ?thesis using unfold by simp
  qed
qed simp

lemma bits_per_weight_fields [simp]:
  "ts_type (bits_per_weight e) = ts_type e" "ts_tensors (bits_per_weight e) = ts_tensors e"
  "ts_elements (bits_per_weight e) = ts_elements e" "ts_bytes (bits_per_weight e) = ts_bytes e"
  by (simp_all add: bits_per_weight_def)

lemma of_type_member: "distinct (map ts_type es) \<Longrightarrow> e \<in> set es \<Longrightarrow> of_type (ts_type e) es = e"
  by (induction es) (auto simp: of_type_def split: option.splits)

lemma map_sort_key_types: "map ts_type (sort_key ts_type es) = sort (map ts_type es)"
  by (rule sym, rule properties_for_sort) (simp_all add: sorted_sort_key)

lemma type_summaries_types: "map ts_type (type_summaries ds infos) = sorted_list_of_set (ti_type ` set infos)"
proof -
  let ?es = "summarise ds (sort_key ti_offset infos) []"
  have "map ts_type (type_summaries ds infos) = sort (map ts_type ?es)"
    by (simp add: type_summaries_def map_sort_key_types comp_def)
  moreover have "sort (map ts_type ?es) = sorted_list_of_set (set (map ts_type ?es))"
    by (simp add: sorted_list_of_set_sort_remdups summarise_distinct distinct_remdups_id del: set_map)
  ultimately show ?thesis by (simp only: summarise_types) simp
qed

lemma length_filter_sort_key: "length (filter P (sort_key k xs)) = length (filter P xs)"
  by (metis mset_filter mset_sort size_mset)

lemma sum_filter_sort_key:
  "sum_list (map (g :: 'a \<Rightarrow> nat) (filter P (sort_key k xs))) = sum_list (map g (filter P xs))"
  by (metis mset_filter mset_map mset_sort sum_mset_sum_list)

lemma type_summaries_entry:
  assumes "e \<in> set (type_summaries ds infos)"
  shows "ts_tensors e = length (filter (\<lambda>t. ti_type t = ts_type e) infos)
    \<and> ts_elements e = sum_list (map ti_elements (filter (\<lambda>t. ti_type t = ts_type e) infos))"
proof -
  let ?es = "summarise ds (sort_key ti_offset infos) []"
  from assms obtain x where x: "x \<in> set ?es" "e = bits_per_weight x" by (auto simp: type_summaries_def)
  have "of_type (ts_type x) ?es = x" by (rule of_type_member [OF summarise_distinct x(1)]) simp
  with summarise_of_type [of "ts_type x" ds "sort_key ti_offset infos" "[]"] x(2) show ?thesis
    by (simp add: of_type_def empty_entry_def length_filter_sort_key sum_filter_sort_key)
qed

lemma total_type_summaries: "total ts_bytes (type_summaries ds infos) = total ts_bytes (summarise ds (sort_key ti_offset infos) [])"
proof -
  have "sum_list (map f (sort_key k xs)) = sum_list (map f xs)" for f :: "tensor_type_summary \<Rightarrow> nat" and k :: "tensor_type_summary \<Rightarrow> nat" and xs
    by (metis mset_map mset_sort sum_mset_sum_list)
  then show ?thesis by (simp add: total_def type_summaries_def comp_def)
qed

text \<open>
  The summary accounts for every tensor exactly once: its types are those of the table in ascending
  order, each with the number and the elements of the table's tensors of that type, and where no
  tensor starts beyond the data the bytes it reports do not exceed the data.
\<close>

theorem tensor_summary_accounts:
  "map ts_type (type_summaries ds infos) = sorted_list_of_set (ti_type ` set infos)
   \<and> (\<forall>e \<in> set (type_summaries ds infos).
        ts_tensors e = length (filter (\<lambda>t. ti_type t = ts_type e) infos)
        \<and> ts_elements e = sum_list (map ti_elements (filter (\<lambda>t. ti_type t = ts_type e) infos)))
   \<and> (\<forall>d. ds = Some (int d) \<longrightarrow> (\<forall>t \<in> set infos. ti_offset t \<le> d) \<longrightarrow> total ts_bytes (type_summaries ds infos) \<le> d)"
proof (intro conjI ballI allI impI)
  show "map ts_type (type_summaries ds infos) = sorted_list_of_set (ti_type ` set infos)"
    by (rule type_summaries_types)
next
  fix e assume "e \<in> set (type_summaries ds infos)"
  from type_summaries_entry [OF this]
  show "ts_tensors e = length (filter (\<lambda>t. ti_type t = ts_type e) infos)"
    and "ts_elements e = sum_list (map ti_elements (filter (\<lambda>t. ti_type t = ts_type e) infos))" by simp_all
next
  fix d assume ds: "ds = Some (int d)" and le: "\<forall>t \<in> set infos. ti_offset t \<le> d"
  let ?ts = "sort_key ti_offset infos"
  show "total ts_bytes (type_summaries ds infos) \<le> d"
  proof (cases "?ts = []")
    case True
    show ?thesis by (simp only: total_type_summaries True) (simp add: total_def)
  next
    case False
    have "int (total ts_bytes (summarise (Some (int d)) ?ts [])) \<le>
        int (total ts_bytes []) + (int d - int (ti_offset (hd ?ts)))"
      using le False by (intro summarise_bytes) simp_all
    then show ?thesis by (simp add: total_type_summaries ds) (simp add: total_def)
  qed
qed

end
