(* ===== verification/Descriptor_Order.thy ===== *)
theory Descriptor_Order
  imports Errors "HOL-Library.List_Lexorder"
begin

text \<open>
  The order of one managed engine's runtime descriptors, \<open>src/src/engines/descriptor-order.ts\<close>: parsing
  \<open><engine_id>-<version>-r<n>\<close> and comparing two ids.  The regular expression \<open>TAIL\<close> is deterministic (the
  character after a run of digits decides), so it is read left to right.
\<close>

datatype pre_kind = Pre_a | Pre_b | Pre_rc

record descriptor_version =
  dv_parts :: "nat list"
  dv_pre :: "(pre_kind \<times> nat) option"
  dv_revision :: nat

fun PRE_RANK :: "pre_kind \<Rightarrow> nat" where
  "PRE_RANK Pre_a = 0"
| "PRE_RANK Pre_b = 1"
| "PRE_RANK Pre_rc = 2"

section \<open>Parsing\<close>

text \<open>\<open>\d+\<close> and \<open>Number\<close> of it, with what follows.\<close>

definition read_number :: "string \<Rightarrow> (nat \<times> string) option" where
  "read_number s = (let ds = takeWhile is_digit s in
     if ds = [] then None else Some (to_number (digits_value ds), dropWhile is_digit s))"

lemma read_number_shorter: "read_number s = Some (n, r) \<Longrightarrow> length r < length s"
proof -
  assume h: "read_number s = Some (n, r)"
  then have "takeWhile is_digit s \<noteq> []" and r: "r = dropWhile is_digit s"
    by (auto simp: read_number_def Let_def split: if_splits)
  then have "0 < length (takeWhile is_digit s)" by simp
  moreover have "length (takeWhile is_digit s) + length r = length s"
    unfolding r by (simp flip: length_append)
  ultimately show ?thesis by linarith
qed

text \<open>\<open>\d+(?:\.\d+)*\<close>, split at the dots.\<close>

function read_parts :: "string \<Rightarrow> (nat list \<times> string) option" where
  "read_parts s = (case read_number s of
     None \<Rightarrow> None
   | Some (n, r) \<Rightarrow> (case r of
       [] \<Rightarrow> Some ([n], [])
     | c # r' \<Rightarrow> if c = CHR ''.'' then map_option (\<lambda>(ns, r). (n # ns, r)) (read_parts r') else Some ([n], r)))"
  by pat_completeness auto

termination
  by (relation "measure length") (auto dest!: read_number_shorter)

declare read_parts.simps [simp del]

text \<open>\<open>(?:(a|b|rc)(\d+))?\<close>: without digits the group is absent, and the \<open>-r\<close> that must follow is missing.\<close>

definition read_pre :: "string \<Rightarrow> ((pre_kind \<times> nat) option \<times> string) option" where
  "read_pre s =
     (let numbered = (\<lambda>kind r. map_option (\<lambda>(n, r). (Some (kind, n), r)) (read_number r)) in
      if js_prefix ''a'' s then numbered Pre_a (drop 1 s)
      else if js_prefix ''b'' s then numbered Pre_b (drop 1 s)
      else if js_prefix ''rc'' s then numbered Pre_rc (drop 2 s)
      else Some (None, s))"

definition read_revision :: "string \<Rightarrow> nat option" where
  "read_revision s = (if js_prefix ''-r'' s then (case read_number (drop 2 s) of
       Some (n, []) \<Rightarrow> Some n | _ \<Rightarrow> None) else None)"

definition parse_tail :: "string \<Rightarrow> descriptor_version option" where
  "parse_tail s = Option.bind (read_parts s) (\<lambda>(parts, r).
     Option.bind (read_pre r) (\<lambda>(pre, r').
       map_option (\<lambda>n. \<lparr>dv_parts = parts, dv_pre = pre, dv_revision = n\<rparr>) (read_revision r')))"

definition parseDescriptorId :: "string \<Rightarrow> string \<Rightarrow> descriptor_version option" where
  "parseDescriptorId engineId descriptorId =
     (let prefix = engineId @ ''-'' in
      if \<not> js_prefix prefix descriptorId then None else parse_tail (drop (length prefix) descriptorId))"

section \<open>Comparing\<close>

definition part_at :: "nat list \<Rightarrow> nat \<Rightarrow> nat" where
  "part_at parts i = (if i < length parts then parts ! i else 0)"

fun compare_parts :: "nat list \<Rightarrow> nat list \<Rightarrow> nat \<Rightarrow> nat \<Rightarrow> int" where
  "compare_parts l r i 0 = 0"
| "compare_parts l r i (Suc n) =
     (let diff = int (part_at l i) - int (part_at r i) in if diff \<noteq> 0 then diff else compare_parts l r (Suc i) n)"

definition compare_pre :: "(pre_kind \<times> nat) option \<Rightarrow> (pre_kind \<times> nat) option \<Rightarrow> int" where
  "compare_pre l r = (case (l, r) of
     (Some (lk, ln), Some (rk, rn)) \<Rightarrow>
       (let diff = int (PRE_RANK lk) - int (PRE_RANK rk) in if diff \<noteq> 0 then diff else int ln - int rn)
   | _ \<Rightarrow> (if l = None then 1 else 0) - (if r = None then 1 else 0))"

definition compare_versions :: "descriptor_version \<Rightarrow> descriptor_version \<Rightarrow> int" where
  "compare_versions left right =
     (let parts = compare_parts (dv_parts left) (dv_parts right) 0 (max (length (dv_parts left)) (length (dv_parts right)))
      in if parts \<noteq> 0 then parts
         else let pre = compare_pre (dv_pre left) (dv_pre right)
              in if pre \<noteq> 0 then pre else int (dv_revision left) - int (dv_revision right))"

definition compareDescriptorIds :: "string \<Rightarrow> string \<Rightarrow> string \<Rightarrow> int" where
  "compareDescriptorIds engineId a b =
     (case (parseDescriptorId engineId a, parseDescriptorId engineId b) of
        (Some left, Some right) \<Rightarrow> compare_versions left right
      | (left, right) \<Rightarrow> (if left = None then 0 else 1) - (if right = None then 0 else 1))"

definition isNewerDescriptor :: "string \<Rightarrow> string \<Rightarrow> string \<Rightarrow> bool" where
  "isNewerDescriptor engineId candidate current \<longleftrightarrow>
     parseDescriptorId engineId candidate \<noteq> None \<and> compareDescriptorIds engineId candidate current > 0"

section \<open>The order, as the comment states it\<close>

text \<open>
  The three rules as one list compared lexicographically: the version's parts padded with zeros, the rank of
  the pre-release (none ranks last) with its number, and the revision.
\<close>

definition pre_key :: "(pre_kind \<times> nat) option \<Rightarrow> nat list" where
  "pre_key pre = (case pre of None \<Rightarrow> [3, 0] | Some (k, n) \<Rightarrow> [PRE_RANK k, n])"

definition order_key :: "nat \<Rightarrow> descriptor_version \<Rightarrow> nat list" where
  "order_key n v = map (part_at (dv_parts v)) [0..<n] @ pre_key (dv_pre v) @ [dv_revision v]"

lemma compare_parts_key:
  "(compare_parts l r i n > 0 \<longleftrightarrow> map (part_at r) [i..<i + n] < map (part_at l) [i..<i + n]) \<and>
   (compare_parts l r i n = 0 \<longleftrightarrow> map (part_at l) [i..<i + n] = map (part_at r) [i..<i + n])"
proof (induction n arbitrary: i)
  case (Suc n)
  have "[i..<i + Suc n] = i # [Suc i..<Suc i + n]" by (simp add: upt_conv_Cons)
  with Suc.IH [of "Suc i"] show ?case by (auto simp: Let_def)
qed simp

lemma PRE_RANK_less: "PRE_RANK k < 3"
  by (cases k) simp_all

lemma PRE_RANK_inj: "PRE_RANK k = PRE_RANK l \<longleftrightarrow> k = l"
  by (cases k; cases l) simp_all

lemma compare_pre_key:
  "(compare_pre l r > 0 \<longleftrightarrow> pre_key r < pre_key l) \<and> (compare_pre l r = 0 \<longleftrightarrow> pre_key l = pre_key r)"
proof (cases l)
  case None
  show ?thesis
  proof (cases r)
    case (Some q)
    obtain k n where "q = (k, n)" by fastforce
    with None Some show ?thesis using PRE_RANK_less [of k] by (simp add: compare_pre_def pre_key_def)
  qed (simp add: None compare_pre_def pre_key_def)
next
  case (Some p)
  obtain k n where p: "p = (k, n)" by fastforce
  show ?thesis
  proof (cases r)
    case None
    then show ?thesis using Some p PRE_RANK_less [of k] by (simp add: compare_pre_def pre_key_def)
  next
    case (Some q)
    obtain k' n' where "q = (k', n')" by fastforce
    with Some \<open>l = Some p\<close> p show ?thesis by (auto simp: compare_pre_def pre_key_def Let_def)
  qed
qed

lemma append_less_append:
  fixes xs ys :: "nat list"
  assumes "length xs = length ys"
  shows "xs @ us < ys @ vs \<longleftrightarrow> xs < ys \<or> xs = ys \<and> us < vs"
  using assms by (induction xs ys rule: list_induct2) auto

lemma pre_key_length [simp]: "length (pre_key p) = 2"
  by (auto simp: pre_key_def split: option.split)

lemma part_at_beyond: "length parts \<le> i \<Longrightarrow> part_at parts i = 0"
  by (simp add: part_at_def)

lemma padded_parts:
  assumes "max (length l) (length r) = m" and "m \<le> n"
  shows "map (part_at r) [0..<n] < map (part_at l) [0..<n] \<longleftrightarrow> map (part_at r) [0..<m] < map (part_at l) [0..<m]"
    and "map (part_at l) [0..<n] = map (part_at r) [0..<n] \<longleftrightarrow> map (part_at l) [0..<m] = map (part_at r) [0..<m]"
proof -
  have upt: "[0..<n] = [0..<m] @ [m..<n]" using assms(2) by (metis le_add_diff_inverse upt_add_eq_append zero_le)
  have same: "map (part_at l) [m..<n] = map (part_at r) [m..<n]" using assms(1) by (auto simp: part_at_beyond)
  show "map (part_at r) [0..<n] < map (part_at l) [0..<n] \<longleftrightarrow> map (part_at r) [0..<m] < map (part_at l) [0..<m]"
    and "map (part_at l) [0..<n] = map (part_at r) [0..<n] \<longleftrightarrow> map (part_at l) [0..<m] = map (part_at r) [0..<m]"
    unfolding upt map_append same by (simp_all only: append_less_append append_eq_append_conv length_map) auto
qed

lemma compare_versions_key:
  assumes "length (dv_parts l) \<le> n" and "length (dv_parts r) \<le> n"
  shows "(compare_versions l r > 0 \<longleftrightarrow> order_key n r < order_key n l) \<and>
    (compare_versions l r = 0 \<longleftrightarrow> order_key n l = order_key n r)"
proof -
  let ?m = "max (length (dv_parts l)) (length (dv_parts r))"
  have m: "?m \<le> n" using assms by simp
  note parts = compare_parts_key [of "dv_parts l" "dv_parts r" 0 ?m, simplified]
    and pad = padded_parts [OF refl m]
    and pre = compare_pre_key [of "dv_pre l" "dv_pre r"]
  show ?thesis
    unfolding compare_versions_def order_key_def Let_def
    using parts pre pad by (auto simp: append_less_append)
qed

text \<open>
  C38. For descriptors of this engine, newer means later in the order the comment states: the parts padded with
  zeros to any common length, then the pre-release, then the revision, compared lexicographically.
\<close>

theorem descriptor_order_is_lexicographic:
  assumes "parseDescriptorId engineId a = Some l" and "parseDescriptorId engineId b = Some r"
    and "length (dv_parts l) \<le> n" and "length (dv_parts r) \<le> n"
  shows "isNewerDescriptor engineId a b \<longleftrightarrow> order_key n r < order_key n l"
  using compare_versions_key [OF assms(3,4)] assms(1,2)
  by (simp add: isNewerDescriptor_def compareDescriptorIds_def)

lemma isNewerDescriptor_cases:
  "isNewerDescriptor e a b \<longleftrightarrow> (case parseDescriptorId e a of
     None \<Rightarrow> False
   | Some l \<Rightarrow> (case parseDescriptorId e b of None \<Rightarrow> True | Some r \<Rightarrow> compare_versions l r > 0))"
  by (auto simp: isNewerDescriptor_def compareDescriptorIds_def split: option.split)

text \<open>
  Being newer is a strict order on all ids: an id that does not parse, or names another engine, is newer
  than nothing; nothing is newer than itself; no two are newer than each other; and a chain of newer
  descriptors has no shortcut backwards.
\<close>

theorem newer_is_strict_order:
  "(parseDescriptorId e a = None \<longrightarrow> \<not> isNewerDescriptor e a b)
   \<and> \<not> isNewerDescriptor e a a
   \<and> (isNewerDescriptor e a b \<longrightarrow> \<not> isNewerDescriptor e b a)
   \<and> (isNewerDescriptor e a b \<longrightarrow> isNewerDescriptor e b c \<longrightarrow> isNewerDescriptor e a c)"
proof (intro conjI impI)
  show "\<not> isNewerDescriptor e a b" if "parseDescriptorId e a = None"
    using that by (simp add: isNewerDescriptor_def)
  have key: "compare_versions l r > 0 \<longleftrightarrow> order_key n r < order_key n l"
    if "length (dv_parts l) \<le> n" "length (dv_parts r) \<le> n" for l r n
    using compare_versions_key [OF that] by simp
  show "\<not> isNewerDescriptor e a a"
    using key [OF order_refl order_refl] by (auto simp: isNewerDescriptor_cases split: option.split)
  show "\<not> isNewerDescriptor e b a" if ab: "isNewerDescriptor e a b"
  proof (cases "parseDescriptorId e b")
    case (Some r)
    then obtain l where l: "parseDescriptorId e a = Some l"
      using ab by (auto simp: isNewerDescriptor_cases split: option.splits)
    show ?thesis
      using ab Some l key [of l "max (length (dv_parts l)) (length (dv_parts r))" r]
        key [of r "max (length (dv_parts l)) (length (dv_parts r))" l]
      by (simp add: isNewerDescriptor_cases)
  qed (simp add: isNewerDescriptor_def)
  show "isNewerDescriptor e a c" if ab: "isNewerDescriptor e a b" and bc: "isNewerDescriptor e b c"
  proof -
    obtain l r where l: "parseDescriptorId e a = Some l" and r: "parseDescriptorId e b = Some r"
      using ab bc by (auto simp: isNewerDescriptor_cases split: option.splits)
    show ?thesis
    proof (cases "parseDescriptorId e c")
      case (Some q)
      define n where "n = max (length (dv_parts l)) (max (length (dv_parts r)) (length (dv_parts q)))"
      show ?thesis
        using ab bc l r Some key [of l n r] key [of r n q] key [of l n q]
        by (simp add: isNewerDescriptor_cases n_def)
    qed (simp add: isNewerDescriptor_cases l)
  qed
qed

section \<open>Reading a well-formed id\<close>

fun show_pre :: "(pre_kind \<times> nat) option \<Rightarrow> string" where
  "show_pre None = []"
| "show_pre (Some (Pre_a, n)) = ''a'' @ show_nat n"
| "show_pre (Some (Pre_b, n)) = ''b'' @ show_nat n"
| "show_pre (Some (Pre_rc, n)) = ''rc'' @ show_nat n"

definition show_descriptor :: "string \<Rightarrow> descriptor_version \<Rightarrow> string" where
  "show_descriptor engineId v = engineId @ ''-'' @ js_join ''.'' (map show_nat (dv_parts v)) @
     show_pre (dv_pre v) @ ''-r'' @ show_nat (dv_revision v)"

definition wf_version :: "descriptor_version \<Rightarrow> bool" where
  "wf_version v \<longleftrightarrow> dv_parts v \<noteq> [] \<and> (\<forall>p \<in> set (dv_parts v). p \<le> 2 ^ 53) \<and>
     (case dv_pre v of Some (k, n) \<Rightarrow> n \<le> 2 ^ 53 | None \<Rightarrow> True) \<and> dv_revision v \<le> 2 ^ 53"

lemma read_number_show:
  assumes "n \<le> 2 ^ 53" and "r = [] \<or> \<not> is_digit (hd r)"
  shows "read_number (show_nat n @ r) = Some (n, r)"
proof -
  have all: "\<forall>c \<in> set (show_nat n). is_digit c" by (simp add: show_nat_digits)
  have "takeWhile is_digit r = []" using assms(2) by (cases r) auto
  moreover have "dropWhile is_digit r = r" using assms(2) by (cases r) auto
  ultimately have "takeWhile is_digit (show_nat n @ r) = show_nat n" "dropWhile is_digit (show_nat n @ r) = r"
    using all by (simp_all add: takeWhile_append2 dropWhile_append2)
  then show ?thesis
    by (simp add: read_number_def show_nat_nonempty digits_value_show to_number_exact [OF assms(1)])
qed

lemma read_parts_show:
  assumes "r = [] \<or> \<not> is_digit (hd r) \<and> hd r \<noteq> CHR ''.''"
  shows "ns \<noteq> [] \<Longrightarrow> \<forall>n \<in> set ns. n \<le> 2 ^ 53 \<Longrightarrow> read_parts (js_join ''.'' (map show_nat ns) @ r) = Some (ns, r)"
proof (induction ns)
  case (Cons n ns)
  show ?case
  proof (cases ns)
    case Nil
    have "read_number (show_nat n @ r) = Some (n, r)" using Cons.prems assms by (intro read_number_show) auto
    with Nil assms show ?thesis by (subst read_parts.simps) (auto split: list.split)
  next
    case (Cons m ms)
    have "read_parts (js_join ''.'' (map show_nat ns) @ r) = Some (ns, r)"
      using Cons.prems Cons.IH Cons by simp
    moreover have "read_number (show_nat n @ ''.'' @ js_join ''.'' (map show_nat ns) @ r) =
        Some (n, ''.'' @ js_join ''.'' (map show_nat ns) @ r)"
      using Cons.prems by (intro read_number_show) (simp_all add: is_digit_def)
    ultimately show ?thesis using Cons by (subst read_parts.simps) simp
  qed
qed simp

lemma js_prefix_append [simp]: "js_prefix p (p @ s)"
  by (induction p) simp_all

text \<open>
  Parsing a descriptor id written from a version of this engine gives that version back, for all numbers a
  double holds exactly.
\<close>

theorem parse_written_descriptor:
  assumes "wf_version v"
  shows "parseDescriptorId engineId (show_descriptor engineId v) = Some v"
proof -
  have rev: "read_revision (''-r'' @ show_nat (dv_revision v)) = Some (dv_revision v)"
    using assms read_number_show [of "dv_revision v" "[]"] by (simp add: read_revision_def wf_version_def)
  have pre: "read_pre (show_pre (dv_pre v) @ ''-r'' @ show_nat (dv_revision v)) =
      Some (dv_pre v, ''-r'' @ show_nat (dv_revision v))"
    using assms read_number_show [of _ "''-r'' @ show_nat (dv_revision v)"]
    by (cases "dv_pre v" rule: show_pre.cases)
       (simp_all add: read_pre_def wf_version_def is_digit_def Let_def)
  have parts: "read_parts (js_join ''.'' (map show_nat (dv_parts v)) @ show_pre (dv_pre v) @ ''-r'' @ show_nat (dv_revision v)) =
      Some (dv_parts v, show_pre (dv_pre v) @ ''-r'' @ show_nat (dv_revision v))"
    using assms
    by (intro read_parts_show; cases "dv_pre v" rule: show_pre.cases) (simp_all add: wf_version_def is_digit_def)
  let ?tail = "js_join ''.'' (map show_nat (dv_parts v)) @ show_pre (dv_pre v) @ ''-r'' @ show_nat (dv_revision v)"
  have "parse_tail ?tail = Some v" using rev pre parts by (simp add: parse_tail_def)
  moreover have "show_descriptor engineId v = (engineId @ ''-'') @ ?tail" by (simp add: show_descriptor_def)
  ultimately show ?thesis unfolding parseDescriptorId_def Let_def
    by (simp only: js_prefix_append append_eq_conv_conj [THEN iffD1, OF refl] simp_thms if_False) simp
qed

end
