(* ===== verification/Engine_Versions.thy ===== *)
theory Engine_Versions
  imports Descriptor_Order
begin

text \<open>
  What every engine's entry in \<open>POST /engines/versions\<close> says (\<open>src/src/engines/versions.ts\<close>): the installed
  builds and whether each can be removed, the newest build, and the update offered, for llama.cpp, the
  engine builds (sd.cpp, MLX) and the managed engines, with the version helpers it calls
  (\<open>src/src/backend/version.ts\<close>, \<open>backendTypeEquivalents\<close> of \<open>installed.ts\<close>).  What the documents and the disk
  answered are records; a call that throws is the reader's error.
\<close>

section \<open>The answer\<close>

datatype engine_kind = Kind_llamacpp | Kind_engine_build | Kind_managed
datatype active_choice = Choice_client | Choice_core
datatype apply_kind = Apply_swap | Apply_reinstall
datatype build_origin = Origin_bundled | Origin_downloaded | Origin_managed
datatype not_removable = Reason_active | Reason_bundled | Reason_in_use
datatype blocked_reason = Source_unavailable | Family_change | Unstable | Requires_newer_app
datatype versions_source = From_remote | From_cache

record build_key =
  bk_version :: string
  bk_variant :: string

record engine_build = build_key +
  eb_origin :: build_origin
  eb_active :: bool
  eb_in_use :: bool
  eb_removable :: bool
  eb_not_removable_reason :: "not_removable option"

record available_build = build_key +
  ab_published_at :: "string option"
  ab_download_bytes :: "nat option"

record update_offer =
  uo_needed :: bool
  uo_target :: "available_build option"
  uo_apply :: apply_kind
  uo_blocked_reason :: "blocked_reason option"

record engine_versions =
  ev_engine :: string
  ev_kind :: engine_kind
  ev_active_choice :: active_choice
  ev_builds :: "engine_build list"
  ev_active :: "build_key option"
  ev_latest :: "available_build option"
  ev_update :: update_offer
  ev_source :: "versions_source option"
  ev_source_error :: "string option"
  ev_error :: "error_body option"

fun ACTIVE_CHOICE :: "engine_kind \<Rightarrow> active_choice" where
  "ACTIVE_CHOICE Kind_llamacpp = Choice_client"
| "ACTIVE_CHOICE Kind_engine_build = Choice_core"
| "ACTIVE_CHOICE Kind_managed = Choice_core"

fun APPLY :: "engine_kind \<Rightarrow> apply_kind" where
  "APPLY Kind_llamacpp = Apply_swap"
| "APPLY Kind_engine_build = Apply_swap"
| "APPLY Kind_managed = Apply_reinstall"

definition keyOf :: "string \<Rightarrow> build_key option" where
  "keyOf versionBackend =
     (case js_split (CHR ''/'') (js_trim versionBackend) of
        [version, variant] \<Rightarrow>
          if version = [] \<or> variant = [] \<or> version = ''latest'' \<or> version = ''none'' then None
          else Some \<lparr>bk_version = version, bk_variant = variant\<rparr>
      | _ \<Rightarrow> None)"

definition sameKey :: "build_key option \<Rightarrow> build_key \<Rightarrow> bool" where
  "sameKey a b = (case a of None \<Rightarrow> False | Some k \<Rightarrow> bk_version k = bk_version b \<and> bk_variant k = bk_variant b)"

definition build_of :: "build_key \<Rightarrow> build_origin \<Rightarrow> bool \<Rightarrow> bool \<Rightarrow> not_removable option \<Rightarrow> engine_build" where
  "build_of key origin active inUse reason =
     \<lparr>bk_version = bk_version key, bk_variant = bk_variant key, eb_origin = origin, eb_active = active,
      eb_in_use = inUse, eb_removable = (reason = None), eb_not_removable_reason = reason\<rparr>"

definition described :: "build_key \<Rightarrow> build_origin \<Rightarrow> bool \<Rightarrow> bool \<Rightarrow> engine_build" where
  "described key origin active inUse =
     build_of key origin active inUse
       (if active then Some Reason_active
        else if origin = Origin_bundled then Some Reason_bundled
        else if inUse then Some Reason_in_use else None)"

definition noSource :: "string \<Rightarrow> error_body" where
  "noSource message = \<lparr>err_code = ''UPSTREAM_ERROR'', err_message = message, err_details = None\<rparr>"

definition offer :: "engine_kind \<Rightarrow> build_key option \<Rightarrow> available_build option \<Rightarrow> blocked_reason option \<Rightarrow> update_offer" where
  "offer kind active target blocked =
     (if active = None \<or> blocked \<noteq> None \<or> target = None
      then \<lparr>uo_needed = False, uo_target = None, uo_apply = APPLY kind,
            uo_blocked_reason = (if active \<noteq> None then blocked else None)\<rparr>
      else \<lparr>uo_needed = True, uo_target = target, uo_apply = APPLY kind, uo_blocked_reason = None\<rparr>)"

section \<open>Version helpers\<close>

definition parseRustU32 :: "string \<Rightarrow> nat option" where
  "parseRustU32 s =
     (let ds = (if js_prefix ''+'' s then drop 1 s else s) in
      if ds \<noteq> [] \<and> list_all is_digit ds \<and> digits_value ds \<le> 4294967295 then Some (digits_value ds) else None)"

definition version_part :: "string list \<Rightarrow> nat \<Rightarrow> nat" where
  "version_part parts i =
     (case parseRustU32 (if i < length parts then parts ! i else []) of Some n \<Rightarrow> n | None \<Rightarrow> 0)"

fun compare_from :: "string list \<Rightarrow> string list \<Rightarrow> nat \<Rightarrow> nat \<Rightarrow> int" where
  "compare_from p q i 0 = 0"
| "compare_from p q i (Suc n) =
     (if version_part p i < version_part q i then - 1
      else if version_part p i > version_part q i then 1 else compare_from p q (Suc i) n)"

definition compareVersions :: "string \<Rightarrow> string \<Rightarrow> int" where
  "compareVersions v1 v2 =
     (let p = js_split (CHR ''.'') v1; q = js_split (CHR ''.'') v2
      in compare_from p q 0 (max (length p) (length q)))"

fun strip_marks :: "string \<Rightarrow> string" where
  "strip_marks (a # b # c # cs) =
     (if a = CHR 0xEF \<and> b = CHR 0xBB \<and> c = CHR 0xBF then strip_marks cs else a # strip_marks (b # c # cs))"
| "strip_marks cs = cs"

definition stripBom :: "string \<Rightarrow> string" where
  "stripBom s = js_trim (strip_marks s)"

definition EQUIVALENT_PAIRS :: "(string \<times> string) list" where
  "EQUIVALENT_PAIRS = [(''linux-vulkan-x64'', ''ubuntu-vulkan-x64''), (''linux-vulkan-arm64'', ''ubuntu-vulkan-arm64''),
     (''linux-cpu-x64'', ''ubuntu-x64''), (''linux-cpu-arm64'', ''ubuntu-arm64'')]"

text \<open>\<open>13\.\d+-arm64\<close>.\<close>

definition cuda13_arm64 :: "string \<Rightarrow> bool" where
  "cuda13_arm64 s \<longleftrightarrow> js_prefix ''13.'' s \<and>
     (let r = drop 3 s in takeWhile is_digit r \<noteq> [] \<and> dropWhile is_digit r = ''-arm64'')"

definition backendTypeEquivalents :: "string \<Rightarrow> string set" where
  "backendTypeEquivalents backendType =
     (let bt = stripBom backendType in
      {bt} \<union> set (concat (map (\<lambda>(linux, ubuntu). (if bt = linux then [ubuntu] else []) @ (if bt = ubuntu then [linux] else []))
        EQUIVALENT_PAIRS)) \<union>
      (if js_prefix ''linux-cuda-'' bt \<and> cuda13_arm64 (drop 11 bt) then {''ubuntu-cuda-'' @ drop 11 bt}
       else if js_prefix ''ubuntu-cuda-'' bt \<and> cuda13_arm64 (drop 12 bt) then {''linux-cuda-'' @ drop 12 bt} else {}))"

section \<open>llama.cpp\<close>

datatype catalog_source = Src_live | Src_index | Src_redirect | Src_legacy_manifest | Src_session_cache
  | Src_disk_cache | Src_bundled_baseline | Src_none

fun llamacppSource :: "catalog_source \<Rightarrow> versions_source option \<times> bool" where
  "llamacppSource Src_session_cache = (Some From_cache, False)"
| "llamacppSource Src_disk_cache = (Some From_cache, True)"
| "llamacppSource Src_bundled_baseline = (Some From_cache, True)"
| "llamacppSource Src_none = (None, True)"
| "llamacppSource s = (Some From_remote, False)"

record backend_release =
  br_tag :: string
  br_variants :: "(string \<times> nat option) list"

record backend_catalog =
  bc_available :: "(string \<times> string) list"
  bc_recommended :: "string option"
  bc_source :: catalog_source
  bc_releases :: "backend_release list option"

record backend_update_check =
  bu_concrete :: bool
  bu_update_needed :: bool
  bu_target_backend :: "string option"
  bu_same_family :: bool
  bu_offer :: "string option"
  bu_download_size :: "nat option"

record llamacpp_answers =
  la_engine :: string
  la_current :: string
  la_catalog :: backend_catalog
  la_updates :: backend_update_check
  la_packs :: "(string \<times> string) list"
  la_bundled :: "(string \<times> string) option"
  la_inUse :: "string \<Rightarrow> string \<Rightarrow> bool"

definition llamacppSize :: "backend_catalog \<Rightarrow> backend_update_check \<Rightarrow> build_key \<Rightarrow> nat option" where
  "llamacppSize catalog updates key =
     (if bu_offer updates = Some (bk_version key @ ''/'' @ bk_variant key) \<and> bu_download_size updates \<noteq> None
      then bu_download_size updates
      else Option.bind (bc_releases catalog) (\<lambda>releases.
        Option.bind (find (\<lambda>r. br_tag r = bk_version key) releases) (\<lambda>release.
          Option.bind (find (\<lambda>v. fst v = bk_variant key) (br_variants release)) snd)))"

definition sized :: "backend_catalog \<Rightarrow> backend_update_check \<Rightarrow> build_key option \<Rightarrow> available_build option" where
  "sized catalog updates key = map_option (\<lambda>k. \<lparr>bk_version = bk_version k, bk_variant = bk_variant k,
     ab_published_at = None, ab_download_bytes = llamacppSize catalog updates k\<rparr>) key"

text \<open>\<open>updates.offer ? ... : null\<close>: an empty offer is none.\<close>

definition offered :: "backend_update_check \<Rightarrow> string option" where
  "offered updates = (case bu_offer updates of Some [] \<Rightarrow> None | x \<Rightarrow> x)"

definition llamacppVersions :: "llamacpp_answers \<Rightarrow> engine_versions" where
  "llamacppVersions a =
     (let catalog = la_catalog a; updates = la_updates a; current = js_trim (la_current a);
          active = (if bu_concrete updates then keyOf current else None);
          builds = map (\<lambda>(version, backend).
            let key = \<lparr>bk_version = version, bk_variant = backend\<rparr>;
                origin = (if la_bundled a = Some (version, backend) then Origin_bundled else Origin_downloaded)
            in described key origin (sameKey active key) (la_inUse a version backend)) (la_packs a);
          source = fst (llamacppSource (bc_source catalog)); failed = snd (llamacppSource (bc_source catalog));
          target = Option.bind (offered updates) (\<lambda>vb. sized catalog updates (keyOf vb));
          sameType = Option.bind active (\<lambda>k.
            find (\<lambda>(version, backend). backend \<in> backendTypeEquivalents (bk_variant k)) (bc_available catalog));
          latest = (case target of
              Some t \<Rightarrow> Some t
            | None \<Rightarrow> sized catalog updates
                (case sameType of
                   Some (version, backend) \<Rightarrow> Some \<lparr>bk_version = version, bk_variant = backend\<rparr>
                 | None \<Rightarrow> keyOf (case bc_recommended catalog of Some r \<Rightarrow> r | None \<Rightarrow> [])));
          newer = (bu_update_needed updates \<and> bu_target_backend updates \<noteq> None);
          blocked = (if source = None then Some Source_unavailable
            else if newer \<and> \<not> bu_same_family updates then Some Family_change
            else if newer \<and> offered updates = None \<and> la_engine a = ''llamacpp'' then Some Unstable
            else None);
          sourceError = (if failed then
              (if source = None then ''No '' @ la_engine a @ '' release source answered and nothing was accepted before.''
               else ''The '' @ la_engine a @ '' release source was not reachable; the builds offered are the ones accepted before.'')
            else [])
      in \<lparr>ev_engine = la_engine a, ev_kind = Kind_llamacpp, ev_active_choice = ACTIVE_CHOICE Kind_llamacpp,
          ev_builds = builds, ev_active = active, ev_latest = (if source = None then None else latest),
          ev_update = offer Kind_llamacpp active (if blocked \<noteq> None then None else target) blocked,
          ev_source = source, ev_source_error = (if failed then Some sourceError else None),
          ev_error = (if source = None then Some (noSource sourceError) else None)\<rparr>)"

section \<open>sd.cpp and MLX\<close>

record installed_build =
  ib_tag :: string
  ib_backend_id :: string
  ib_origin :: build_origin
  ib_active :: bool
  ib_in_use :: bool

record manifest_info =
  mi_tag :: string
  mi_published_at :: "string option"
  mi_source :: versions_source
  mi_error :: "string option"

record engine_build_catalog =
  ec_manifest :: "manifest_info option"
  ec_manifest_error :: "string option"
  ec_host_backend_id :: "string option"
  ec_host_download_bytes :: "nat option"
  ec_installed :: "installed_build list"
  ec_active :: "installed_build option"

record build_target =
  bt_tag :: string
  bt_backend_id :: string
  bt_published_at :: "string option"
  bt_download_bytes :: nat

definition engineBuildVersions :: "string \<Rightarrow> engine_build_catalog \<Rightarrow> bool \<Rightarrow> build_target option \<Rightarrow> engine_versions" where
  "engineBuildVersions engine catalog update_needed check_target =
     (let active = map_option (\<lambda>b. \<lparr>bk_version = ib_tag b, bk_variant = ib_backend_id b\<rparr>) (ec_active catalog);
          builds = map (\<lambda>b. described \<lparr>bk_version = ib_tag b, bk_variant = ib_backend_id b\<rparr> (ib_origin b) (ib_active b)
            (ib_in_use b)) (ec_installed catalog);
          target = (if update_needed then map_option (\<lambda>t. \<lparr>bk_version = bt_tag t, bk_variant = bt_backend_id t,
              ab_published_at = bt_published_at t, ab_download_bytes = Some (bt_download_bytes t)\<rparr>) check_target else None);
          host = (case ec_host_backend_id catalog of Some [] \<Rightarrow> None | x \<Rightarrow> x);
          latest = (case target of Some t \<Rightarrow> Some t
            | None \<Rightarrow> Option.bind (ec_manifest catalog) (\<lambda>m. map_option (\<lambda>h.
                \<lparr>bk_version = mi_tag m, bk_variant = h, ab_published_at = mi_published_at m,
                 ab_download_bytes = ec_host_download_bytes catalog\<rparr>) host));
          source = map_option mi_source (ec_manifest catalog);
          sourceError = (case ec_manifest catalog of
              Some m \<Rightarrow> mi_error m
            | None \<Rightarrow> Some (case ec_manifest_error catalog of Some e \<Rightarrow> e
                | None \<Rightarrow> ''The '' @ engine @ '' manifest is unavailable.''))
      in \<lparr>ev_engine = engine, ev_kind = Kind_engine_build, ev_active_choice = ACTIVE_CHOICE Kind_engine_build,
          ev_builds = builds, ev_active = active, ev_latest = latest,
          ev_update = offer Kind_engine_build active target (if source = None then Some Source_unavailable else None),
          ev_source = source, ev_source_error = sourceError,
          ev_error = (if source = None then Some (noSource (case sourceError of Some e \<Rightarrow> e | None \<Rightarrow> [])) else None)\<rparr>)"

section \<open>TensorRT-LLM and vLLM\<close>

record runtime_descriptor =
  rd_descriptor_id :: string
  rd_minimum_app_version :: string
  rd_download_bytes :: nat

datatype latest_descriptor = Available runtime_descriptor versions_source | Unavailable error_body

text \<open>The installation: its active descriptor, if any, and the platform it pulled.\<close>

record managed_record =
  mr_active_descriptor_id :: "string option"
  mr_platform :: string

definition managedVersions ::
    "string \<Rightarrow> managed_record option \<Rightarrow> latest_descriptor \<Rightarrow> bool \<Rightarrow> string \<Rightarrow> string option \<Rightarrow> engine_versions" where
  "managedVersions engine installation latestRead inUse platform app_version =
     (let installedId = Option.bind installation mr_active_descriptor_id;
          active = Option.bind installation (\<lambda>r. Option.bind (mr_active_descriptor_id r) (\<lambda>i.
            if i = [] then None else Some \<lparr>bk_version = i, bk_variant = mr_platform r\<rparr>));
          builds = (case active of
              Some k \<Rightarrow> [build_of k Origin_managed True inUse None]
            | None \<Rightarrow> [])
      in case latestRead of
        Unavailable e \<Rightarrow>
          \<lparr>ev_engine = engine, ev_kind = Kind_managed, ev_active_choice = ACTIVE_CHOICE Kind_managed,
           ev_builds = builds, ev_active = active, ev_latest = None,
           ev_update = offer Kind_managed active None (Some Source_unavailable), ev_source = None,
           ev_source_error = Some (err_message e), ev_error = Some e\<rparr>
      | Available descriptor source \<Rightarrow>
          let latest = \<lparr>bk_version = rd_descriptor_id descriptor,
                bk_variant = (case installation of Some r \<Rightarrow> mr_platform r | None \<Rightarrow> platform),
                ab_published_at = None, ab_download_bytes = Some (rd_download_bytes descriptor)\<rparr>;
              newer = (case installedId of None \<Rightarrow> False
                | Some i \<Rightarrow> isNewerDescriptor engine (rd_descriptor_id descriptor) i);
              tooOld = (case app_version of None \<Rightarrow> False
                | Some v \<Rightarrow> compareVersions v (rd_minimum_app_version descriptor) < 0)
          in \<lparr>ev_engine = engine, ev_kind = Kind_managed, ev_active_choice = ACTIVE_CHOICE Kind_managed,
              ev_builds = builds, ev_active = active, ev_latest = Some latest,
              ev_update = offer Kind_managed active (if newer then Some latest else None)
                (if newer \<and> tooOld then Some Requires_newer_app else None),
              ev_source = Some source, ev_source_error = None, ev_error = None\<rparr>)"

section \<open>Every engine\<close>

record versions_reader =
  vr_engine :: string
  vr_kind :: engine_kind
  vr_read :: "engine_versions result"

definition failed_entry :: "versions_reader \<Rightarrow> error_body \<Rightarrow> engine_versions" where
  "failed_entry reader body =
     \<lparr>ev_engine = vr_engine reader, ev_kind = vr_kind reader, ev_active_choice = ACTIVE_CHOICE (vr_kind reader),
      ev_builds = [], ev_active = None, ev_latest = None,
      ev_update = \<lparr>uo_needed = False, uo_target = None, uo_apply = APPLY (vr_kind reader), uo_blocked_reason = None\<rparr>,
      ev_source = None, ev_source_error = None, ev_error = Some body\<rparr>"

definition collectEngineVersions :: "versions_reader list \<Rightarrow> engine_versions list" where
  "collectEngineVersions readers =
     map (\<lambda>reader. case vr_read reader of Inr v \<Rightarrow> v | Inl body \<Rightarrow> failed_entry reader body) readers"

section \<open>What is offered\<close>

lemma offer_needed:
  "uo_needed (offer kind active target blocked) \<longleftrightarrow> active \<noteq> None \<and> blocked = None \<and> target \<noteq> None"
  by (simp add: offer_def)

lemma offer_target: "uo_target (offer kind active target blocked) = (if active \<noteq> None \<and> blocked = None then target else None)"
  by (simp add: offer_def)

lemma offer_blocked:
  "uo_blocked_reason (offer kind active target blocked) = (if active \<noteq> None then blocked else None)"
  by (auto simp: offer_def)

lemmas offer_facts = offer_needed offer_target offer_blocked

text \<open>
  An update of a managed engine, which downloads the whole engine again, is offered exactly when one is
  installed, the source was read, the descriptor is strictly newer than the installed one, and the
  client's version, where known, is not below the descriptor's minimum; a client too old is told so.
\<close>

theorem managed_update_offered:
  "let v = managedVersions engine installation latestRead inUse platform app_version;
       installed = Option.bind installation mr_active_descriptor_id
   in (uo_needed (ev_update v) \<longleftrightarrow> (\<exists>i d s. installed = Some i \<and> i \<noteq> [] \<and> latestRead = Available d s
          \<and> isNewerDescriptor engine (rd_descriptor_id d) i
          \<and> \<not> (\<exists>a. app_version = Some a \<and> compareVersions a (rd_minimum_app_version d) < 0)))
      \<and> (uo_blocked_reason (ev_update v) = Some Requires_newer_app \<longleftrightarrow> (\<exists>i d s a. installed = Some i \<and> i \<noteq> []
          \<and> latestRead = Available d s \<and> isNewerDescriptor engine (rd_descriptor_id d) i
          \<and> app_version = Some a \<and> compareVersions a (rd_minimum_app_version d) < 0))"
proof (cases installation)
  case None
  then show ?thesis by (simp add: managedVersions_def Let_def offer_facts split: latest_descriptor.split)
next
  case (Some r)
  show ?thesis
  proof (cases "mr_active_descriptor_id r")
    case None
    with Some show ?thesis by (simp add: managedVersions_def Let_def offer_facts split: latest_descriptor.split)
  next
    case (Some i)
    with \<open>installation = Some r\<close> show ?thesis
      by (cases latestRead; cases app_version; cases "i = []") (auto simp: managedVersions_def Let_def offer_facts)
  qed
qed

text \<open>An entry whose offer can be acted on.\<close>

definition sound_offer :: "engine_versions \<Rightarrow> bool" where
  "sound_offer v \<longleftrightarrow> (if uo_needed (ev_update v)
     then ev_active v \<noteq> None \<and> uo_target (ev_update v) \<noteq> None \<and> uo_blocked_reason (ev_update v) = None \<and> ev_source v \<noteq> None
     else uo_target (ev_update v) = None)"

lemma offer_sound:
  "sound_offer v" if "ev_update v = offer kind (ev_active v) target blocked" "blocked = None \<Longrightarrow> ev_source v \<noteq> None"
  using that by (auto simp: sound_offer_def offer_facts)

lemma sound_llamacpp: "sound_offer (llamacppVersions a)"
  by (rule offer_sound) (auto simp: llamacppVersions_def Let_def split: if_splits)

lemma sound_engine_build: "sound_offer (engineBuildVersions engine catalog needed target)"
  by (rule offer_sound) (auto simp: engineBuildVersions_def Let_def split: if_splits)

lemma sound_managed: "sound_offer (managedVersions engine installation latestRead inUse platform app_version)"
  by (cases latestRead) (auto simp: managedVersions_def Let_def sound_offer_def offer_facts)


text \<open>
  A build is removable exactly when it is neither active, nor bundled, nor in use, and otherwise the reason
  given is the first of the three that holds.
\<close>

theorem removable_builds:
  "(eb_removable (described key origin active inUse) \<longleftrightarrow> \<not> active \<and> origin \<noteq> Origin_bundled \<and> \<not> inUse)
   \<and> (eb_not_removable_reason (described key origin active inUse) = None \<longleftrightarrow> eb_removable (described key origin active inUse))"
  by (simp add: described_def build_of_def)

end
