(* ===== verification/Router.thy ===== *)
theory Router
  imports Prelude
begin

text \<open>
  Which backend serves a model: \<open>src/src/router/resolve.ts\<close>, the routing of \<open>src/src/server/public/forward.ts\<close>
  (\<open>selectedRoute\<close> to \<open>findLocalSession\<close> and the choice \<open>serveForward\<close> makes with them), the sessions a
  request can reach (\<open>localTarget\<close> and \<open>listLocalTargets\<close> of \<open>src/src/core/sessions.ts\<close>) and the model list
  (\<open>servedModels\<close> of \<open>listing.ts\<close>).  A JavaScript \<open>Map\<close> is the list of its entries in insertion order.
\<close>

section \<open>Providers and sessions\<close>

datatype local_provider = Llamacpp | Llamacpp_upstream | Mlx | Tensorrt_llm | Atomic_prism | Vllm | Sglang
  | Foundry_local | Litert_lm | Geniex

fun provider_name :: "local_provider \<Rightarrow> string" where
  "provider_name Llamacpp = ''llamacpp''"
| "provider_name Llamacpp_upstream = ''llamacpp-upstream''"
| "provider_name Mlx = ''mlx''"
| "provider_name Tensorrt_llm = ''tensorrt-llm''"
| "provider_name Atomic_prism = ''atomic-prism''"
| "provider_name Vllm = ''vllm''"
| "provider_name Sglang = ''sglang''"
| "provider_name Foundry_local = ''foundry-local''"
| "provider_name Litert_lm = ''litert-lm''"
| "provider_name Geniex = ''geniex''"

definition LOCAL_SEARCH_ORDER :: "local_provider list" where
  "LOCAL_SEARCH_ORDER = [Llamacpp, Llamacpp_upstream, Mlx, Tensorrt_llm, Atomic_prism, Vllm, Sglang,
     Foundry_local, Litert_lm, Geniex]"

datatype media_kind = Image | Video

record remote_provider =
  rp_provider :: string
  rp_apiKey :: "string option"
  rp_baseUrl :: "string option"
  rp_models :: "string list"
  rp_media :: "(media_kind \<times> string) list option"

type_synonym providers = "(string \<times> remote_provider) list"
type_synonym selection = "(string \<times> string) list"

record local_target =
  lt_provider :: local_provider
  lt_modelId :: string
  lt_port :: nat
  lt_apiKey :: string
  lt_isEmbedding :: bool

section \<open>Remote providers\<close>

text \<open>\<open>modelId.indexOf('/')\<close>: the text before the first slash and after it.\<close>

definition before_slash :: "string \<Rightarrow> string" where
  "before_slash s = takeWhile (\<lambda>c. c \<noteq> CHR ''/'') s"

definition after_slash :: "string \<Rightarrow> string" where
  "after_slash s = drop 1 (dropWhile (\<lambda>c. c \<noteq> CHR ''/'') s)"

definition has_slash :: "string \<Rightarrow> bool" where
  "has_slash s \<longleftrightarrow> CHR ''/'' \<in> set s"

definition resolveRemoteProvider :: "string \<Rightarrow> providers \<Rightarrow> remote_provider option" where
  "resolveRemoteProvider modelId providers =
     (case find (\<lambda>config. modelId \<in> set (rp_models config)) (map snd providers) of
        Some config \<Rightarrow> Some config
      | None \<Rightarrow>
          (case (if has_slash modelId then map_of providers (before_slash modelId) else None) of
             Some byPrefix \<Rightarrow> Some byPrefix
           | None \<Rightarrow> map_of providers modelId))"

fun modelIdsMatch :: "string \<Rightarrow> string \<Rightarrow> bool" where
  "modelIdsMatch [] [] = True"
| "modelIdsMatch (x # xs) (y # ys) =
     ((x = y \<or> x = CHR ''.'' \<and> y = CHR ''_'' \<or> x = CHR ''_'' \<and> y = CHR ''.'') \<and> modelIdsMatch xs ys)"
| "modelIdsMatch xs ys = False"

datatype selected_route = Remote_route remote_provider | Local_route local_provider

definition selected_name :: "string \<Rightarrow> selection \<Rightarrow> string option" where
  "selected_name modelId selection =
     (case map_of selection modelId of
        Some p \<Rightarrow> Some p
      | None \<Rightarrow> map_option snd (find (\<lambda>e. modelIdsMatch (fst e) modelId) selection))"

definition resolveSelectedRoute :: "string \<Rightarrow> selection \<Rightarrow> providers \<Rightarrow> selected_route option" where
  "resolveSelectedRoute modelId selection providers =
     (case selected_name modelId selection of
        None \<Rightarrow> None
      | Some selected \<Rightarrow>
          (case map_of providers selected of
             Some remote \<Rightarrow> Some (Remote_route remote)
           | None \<Rightarrow> map_option Local_route (find (\<lambda>p. provider_name p = selected) LOCAL_SEARCH_ORDER)))"

definition lists_model :: "media_kind \<Rightarrow> remote_provider \<Rightarrow> string \<Rightarrow> bool" where
  "lists_model kind config ident = (case rp_media config of Some models \<Rightarrow> (kind, ident) \<in> set models | None \<Rightarrow> False)"

text \<open>\<open>slash > 0\<close>: an id that starts with a slash names no provider.\<close>

definition resolveRemoteMedia :: "string \<Rightarrow> media_kind \<Rightarrow> providers \<Rightarrow> (string \<times> string) option" where
  "resolveRemoteMedia modelId kind providers =
     (let by_id = map_option (\<lambda>config. (rp_provider config, modelId))
                    (find (\<lambda>config. lists_model kind config modelId) (map snd providers)) in
      if has_slash modelId \<and> before_slash modelId \<noteq> [] then
        (case map_of providers (before_slash modelId) of
           Some named \<Rightarrow> if lists_model kind named (after_slash modelId)
             then Some (rp_provider named, after_slash modelId) else by_id
         | None \<Rightarrow> by_id)
      else by_id)"

section \<open>Local sessions\<close>

text \<open>What one provider has: the sessions its runtime runs here, and the ones another process registered.\<close>

record local_sessions =
  owned_sessions :: "local_provider \<Rightarrow> local_target list"
  external_sessions :: "local_provider \<Rightarrow> local_target list"

definition localTarget :: "local_sessions \<Rightarrow> local_provider \<Rightarrow> string \<Rightarrow> local_target option" where
  "localTarget ls provider modelId =
     (case find (\<lambda>s. modelIdsMatch (lt_modelId s) modelId) (owned_sessions ls provider) of
        Some owned \<Rightarrow> Some owned
      | None \<Rightarrow> find (\<lambda>s. modelIdsMatch (lt_modelId s) modelId) (external_sessions ls provider))"

definition listLocalTargets :: "local_sessions \<Rightarrow> local_target list" where
  "listLocalTargets ls =
     concat (map (\<lambda>provider. owned_sessions ls provider @ external_sessions ls provider) LOCAL_SEARCH_ORDER)"

fun first_session :: "local_sessions \<Rightarrow> string \<Rightarrow> local_provider list \<Rightarrow> local_target option" where
  "first_session ls modelId [] = None"
| "first_session ls modelId (p # ps) =
     (case localTarget ls p modelId of Some session \<Rightarrow> Some session | None \<Rightarrow> first_session ls modelId ps)"

definition findLocalSession :: "local_sessions \<Rightarrow> string \<Rightarrow> local_target option" where
  "findLocalSession ls modelId = first_session ls modelId LOCAL_SEARCH_ORDER"

definition findSelectedLocalSession :: "local_sessions \<Rightarrow> string \<Rightarrow> local_provider \<Rightarrow> local_target option" where
  "findSelectedLocalSession ls modelId provider =
     (case localTarget ls provider modelId of Some s \<Rightarrow> Some s | None \<Rightarrow> findLocalSession ls modelId)"

section \<open>The route of a request\<close>

definition routedRemote :: "providers \<Rightarrow> string \<Rightarrow> selected_route option \<Rightarrow> remote_provider option" where
  "routedRemote providers modelId selected =
     (case selected of
        Some (Remote_route p) \<Rightarrow> Some p
      | Some (Local_route p) \<Rightarrow> None
      | None \<Rightarrow> resolveRemoteProvider modelId providers)"

datatype backend = To_remote remote_provider | To_local local_target
  | No_models | Model_not_found | Selected_unavailable local_provider

text \<open>
  The backend \<open>serveForward\<close> chooses.  \<open>cold\<close> is its test for an empty server: not \<open>/messages\<close>, no embedding
  model for \<open>/embeddings\<close>.
\<close>

definition route :: "bool \<Rightarrow> selection \<Rightarrow> providers \<Rightarrow> local_sessions \<Rightarrow> string \<Rightarrow> backend" where
  "route cold selection providers ls modelId =
     (let selected = resolveSelectedRoute modelId selection providers in
      case routedRemote providers modelId selected of
        Some remote \<Rightarrow> To_remote remote
      | None \<Rightarrow>
          (case selected of
             Some (Local_route p) \<Rightarrow>
               (case findSelectedLocalSession ls modelId p of
                  Some session \<Rightarrow> To_local session
                | None \<Rightarrow> Selected_unavailable p)
           | _ \<Rightarrow>
               if cold \<and> listLocalTargets ls = [] then No_models
               else (case findLocalSession ls modelId of
                  Some session \<Rightarrow> To_local session
                | None \<Rightarrow> Model_not_found)))"

section \<open>The list of models\<close>

definition routedLocally :: "selection \<Rightarrow> providers \<Rightarrow> local_sessions \<Rightarrow> local_target \<Rightarrow> bool" where
  "routedLocally selection providers ls s =
     (let selected = resolveSelectedRoute (lt_modelId s) selection providers in
      if routedRemote providers (lt_modelId s) selected \<noteq> None then False
      else let owner = (case selected of
             Some (Local_route p) \<Rightarrow> map_option lt_provider (findSelectedLocalSession ls (lt_modelId s) p)
           | _ \<Rightarrow> map_option lt_provider (findLocalSession ls (lt_modelId s)))
         in owner = Some (lt_provider s))"

fun OWNED_BY :: "local_provider \<Rightarrow> string" where
  "OWNED_BY Llamacpp = ''llama.cpp''"
| "OWNED_BY Llamacpp_upstream = ''llama.cpp-upstream''"
| "OWNED_BY Atomic_prism = ''prism-llama.cpp''"
| "OWNED_BY p = provider_name p"

definition remote_models :: "selection \<Rightarrow> providers \<Rightarrow> (string \<times> remote_provider) list" where
  "remote_models selection providers =
     concat (map (\<lambda>config. map (\<lambda>ident. (ident, config))
       (filter (\<lambda>ident. map_option rp_provider
           (routedRemote providers ident (resolveSelectedRoute ident selection providers)) = Some (rp_provider config))
         (rp_models config))) (map snd providers))"

text \<open>The entries by id and owner, with the session of a local one.\<close>

definition servedModels :: "selection \<Rightarrow> providers \<Rightarrow> local_sessions \<Rightarrow> (string \<times> string \<times> local_target option) list" where
  "servedModels selection providers ls =
     map (\<lambda>s. (lt_modelId s, OWNED_BY (lt_provider s), Some s))
       (filter (routedLocally selection providers ls) (listLocalTargets ls)) @
     map (\<lambda>e. (fst e, ''remote'', None)) (remote_models selection providers)"

section \<open>Matching ids\<close>

definition fold_dot :: "char \<Rightarrow> char" where
  "fold_dot c = (if c = CHR ''_'' then CHR ''.'' else c)"

lemma modelIdsMatch_fold: "modelIdsMatch a b \<longleftrightarrow> map fold_dot a = map fold_dot b"
  by (induction a b rule: modelIdsMatch.induct) (auto simp: fold_dot_def)

lemma modelIdsMatch_refl [simp]: "modelIdsMatch a a"
  by (simp add: modelIdsMatch_fold)

lemma localTarget_Some:
  assumes "localTarget ls p m = Some s"
  shows "s \<in> set (owned_sessions ls p @ external_sessions ls p) \<and> modelIdsMatch (lt_modelId s) m"
  using assms by (auto simp: localTarget_def dest: find_SomeD split: option.splits)

lemma localTarget_None:
  "localTarget ls p m = None \<longleftrightarrow>
   (\<forall>s \<in> set (owned_sessions ls p @ external_sessions ls p). \<not> modelIdsMatch (lt_modelId s) m)"
  by (auto simp: localTarget_def find_None_iff split: option.split dest: find_SomeD)

lemma search_order_all: "p \<in> set LOCAL_SEARCH_ORDER"
  by (cases p) (simp_all add: LOCAL_SEARCH_ORDER_def)

lemma set_listLocalTargets: "s \<in> set (listLocalTargets ls) \<longleftrightarrow> (\<exists>p. s \<in> set (owned_sessions ls p @ external_sessions ls p))"
  using search_order_all by (auto simp: listLocalTargets_def)

lemma first_session_append:
  "first_session ls m (ps @ qs) = (case first_session ls m ps of Some s \<Rightarrow> Some s | None \<Rightarrow> first_session ls m qs)"
  by (induction ps) (simp_all split: option.split)

lemma first_session_Some: "first_session ls m ps = Some s \<Longrightarrow> \<exists>p \<in> set ps. localTarget ls p m = Some s"
  by (induction ps) (auto split: option.splits)

lemma first_session_None: "first_session ls m ps = None \<longleftrightarrow> (\<forall>p \<in> set ps. localTarget ls p m = None)"
  by (induction ps) (auto split: option.split)

lemma selected_session_Some:
  "findSelectedLocalSession ls m p = Some s \<Longrightarrow> \<exists>q. localTarget ls q m = Some s"
  by (auto simp: findSelectedLocalSession_def findLocalSession_def split: option.splits dest: first_session_Some)

lemma selected_session_None:
  "findSelectedLocalSession ls m p = None \<longleftrightarrow> (\<forall>q. localTarget ls q m = None)"
  using search_order_all
  by (auto simp: findSelectedLocalSession_def findLocalSession_def first_session_None split: option.split)

lemma local_session_None: "findLocalSession ls m = None \<longleftrightarrow> (\<forall>q. localTarget ls q m = None)"
  using search_order_all by (auto simp: findLocalSession_def first_session_None)

text \<open>
  C36. A model the app selected a local engine for never leaves the machine: whatever remote providers list
  the same id, the request goes to a local session of it, and is refused as unavailable exactly when no
  local engine has one.
\<close>

theorem selected_local_stays_local:
  assumes "resolveSelectedRoute modelId selection providers = Some (Local_route p)"
  shows "case route cold selection providers ls modelId of
      To_local s \<Rightarrow> modelIdsMatch (lt_modelId s) modelId \<and> s \<in> set (listLocalTargets ls)
    | Selected_unavailable q \<Rightarrow> q = p \<and> filter (\<lambda>s. modelIdsMatch (lt_modelId s) modelId) (listLocalTargets ls) = []
    | _ \<Rightarrow> False"
proof (cases "findSelectedLocalSession ls modelId p")
  case None
  then have "filter (\<lambda>s. modelIdsMatch (lt_modelId s) modelId) (listLocalTargets ls) = []"
    unfolding selected_session_None localTarget_None filter_empty_conv by (metis set_listLocalTargets)
  with None assms show ?thesis by (simp add: route_def routedRemote_def)
next
  case (Some s)
  from selected_session_Some [OF this] obtain q where "localTarget ls q modelId = Some s" by blast
  from localTarget_Some [OF this] have "modelIdsMatch (lt_modelId s) modelId \<and> s \<in> set (listLocalTargets ls)"
    unfolding set_listLocalTargets by blast
  with Some assms show ?thesis by (simp add: route_def routedRemote_def)
qed

text \<open>
  C37. The model list and the router agree: a listed local session's id is routed to a session of the same
  engine, a listed remote model's id to the provider that listed it, and every loaded session whose id
  is routed to its own engine is listed.
\<close>

theorem listing_agrees_with_routing:
  "(\<forall>s \<in> set (listLocalTargets ls).
            (lt_modelId s, OWNED_BY (lt_provider s), Some s) \<in> set (servedModels selection providers ls) \<longleftrightarrow>
            (\<exists>t. route cold selection providers ls (lt_modelId s) = To_local t \<and> lt_provider t = lt_provider s))
    \<and> (\<forall>(ident, config) \<in> set (remote_models selection providers).
         \<exists>q. route cold selection providers ls ident = To_remote q \<and> rp_provider q = rp_provider config)"
proof (intro conjI ballI)
  fix s assume s: "s \<in> set (listLocalTargets ls)"
  have listed: "(lt_modelId s, OWNED_BY (lt_provider s), Some s) \<in> set (servedModels selection providers ls)
      \<longleftrightarrow> routedLocally selection providers ls s"
    using s by (auto simp: servedModels_def)
  have "listLocalTargets ls \<noteq> []" using s by auto
  then show "(lt_modelId s, OWNED_BY (lt_provider s), Some s) \<in> set (servedModels selection providers ls) \<longleftrightarrow>
      (\<exists>t. route cold selection providers ls (lt_modelId s) = To_local t \<and> lt_provider t = lt_provider s)"
    unfolding listed routedLocally_def route_def Let_def
    by (auto split: option.split selected_route.split)
next
  fix e assume "e \<in> set (remote_models selection providers)"
  then show "case e of (ident, config) \<Rightarrow>
      \<exists>q. route cold selection providers ls ident = To_remote q \<and> rp_provider q = rp_provider config"
    by (auto simp: remote_models_def route_def Let_def)
qed

text \<open>
  Clients may write \<open>.\<close> for \<open>_\<close> and \<open>_\<close> for \<open>.\<close>: two spellings of an id have the same local
  session, and matching is an equivalence.
\<close>

theorem spelling_does_not_matter:
  "equivp modelIdsMatch \<and> (if modelIdsMatch a b then findLocalSession ls a = findLocalSession ls b else True)"
proof
  show "equivp modelIdsMatch"
    by (rule equivpI) (auto simp: reflp_def symp_def transp_def modelIdsMatch_fold)
  have "localTarget ls p a = localTarget ls p b" if "modelIdsMatch a b" for p
    using that by (simp add: localTarget_def modelIdsMatch_fold cong: option.case_cong)
  then have "first_session ls a ps = first_session ls b ps" if "modelIdsMatch a b" for ps
    using that by (induction ps) (simp_all cong: option.case_cong)
  then show "if modelIdsMatch a b then findLocalSession ls a = findLocalSession ls b else True"
    by (simp add: findLocalSession_def)
qed

text \<open>An engine appended to the search order moves nothing that already resolved.\<close>

lemma appended_engine_moves_nothing:
  "first_session ls m ps = Some s \<Longrightarrow> first_session ls m (ps @ qs) = Some s"
  by (simp add: first_session_append)

end
