(* ===== verification/Models_Witness.thy ===== *)
theory Models_Witness
  imports Gguf_Format Gguf_Tensors Engine_Versions Router
begin

text \<open>
  The properties of the model-file readers, the engine versions and the router applied to concrete inputs.
\<close>

section \<open>Headers\<close>

definition ex_fmt :: float_formats where
  "ex_fmt = \<lparr>fmt_f32 = show_nat, fmt_f64 = show_nat\<rparr>"

definition ex_header :: gguf_header where
  "ex_header = \<lparr>gh_version = 3, gh_tensors = 2, gh_entries =
     [(''a'', GString ''llama''), (''n'', GArray 5 [GInt32 (- 1), GInt32 7])]\<rparr>"

lemma ex_header_wf: "wf_header ex_header"
  by (simp add: wf_header_def ex_header_def wf_string_def MAX_GGUF_STRING_BYTES_def MAX_GGUF_ARRAY_LEN_def
      fits_signed_def text_decode_def utf8_valid_def byte_order_mark_def)

theorem gguf_reader_implements_format_witness:
  "readGgufMetadata ex_fmt (enc_header ex_header @ ''weights'') = Inr (reading_of ex_fmt ex_header)"
  by (rule gguf_reader_implements_format [OF ex_header_wf])

text \<open>A header cut after three bytes, read one byte at a time.\<close>

theorem gguf_chunks_are_invisible_witness:
  "readGgufMetadataFromFile ex_fmt ''GGU'' (Some 1) (Some 10) =
   Some (Inl (Parse_error ''Could not parse GGUF metadata from downloaded data''))"
  using gguf_chunks_are_invisible [of "Some 1" ex_fmt "''GGU''" "Some 10"]
  by (simp add: out_of_budget_def readGgufMetadata_def read_header_def andThen_def c_bytes_def need_def
      start_cursor_def)

definition empty_header :: string where
  "empty_header = ''GGUF'' @ [CHR 0x03, CHR 0x00, CHR 0x00, CHR 0x00,
     CHR 0x00, CHR 0x00, CHR 0x00, CHR 0x00, CHR 0x00, CHR 0x00, CHR 0x00, CHR 0x00,
     CHR 0x00, CHR 0x00, CHR 0x00, CHR 0x00, CHR 0x00, CHR 0x00, CHR 0x00, CHR 0x00]"

lemma read_empty_header:
  "readGgufMetadata ex_fmt empty_header = Inr \<lparr>gm_version = 3, gm_tensor_count = 0, gm_metadata = Map.empty\<rparr>"
  by (simp add: empty_header_def readGgufMetadata_def read_header_def andThen_def c_bytes_def
      need_def start_cursor_def GGUF_MAGIC_def field_defs c_unsigned_def ret_def to_number_def)

theorem gguf_keys_cost_bytes_witness:
  "24 + 13 * card (dom (Map.empty :: string \<rightharpoonup> string)) \<le> length empty_header"
  using gguf_keys_cost_bytes [OF read_empty_header] by simp

section \<open>Tensor tables\<close>

definition ex_nums :: number_conversions where
  "ex_nums = \<lparr>fmt_f32 = show_nat, fmt_f64 = show_nat, integer_of = (\<lambda>s. None)\<rparr>"

theorem tensor_chunks_are_invisible_witness:
  "readGgufTensorSummaryChunked ex_nums (\<lambda>n. take n ''GX'') None (Some 1) (Some 10) (Some Doubling) =
   Some (Inl (Parse_error ''Not a GGUF file''))"
  using tensor_chunks_are_invisible [of "Some 1" ex_nums "''GX''" None "Some 10" "Some Doubling"]
  by (simp add: out_of_budget_def readGgufTensorSummary_def read_table_def andThen_def c_bytes_def need_def
      start_cursor_def field_defs c_unsigned_def ret_def throw_def)

definition ex_infos :: "tensor_info list" where
  "ex_infos = [\<lparr>ti_type = 1, ti_elements = 4, ti_offset = 32\<rparr>, \<lparr>ti_type = 0, ti_elements = 2, ti_offset = 0\<rparr>]"

theorem tensor_summary_accounts_witness:
  "map ts_type (type_summaries (Some (int 40)) ex_infos) = [0, 1]
   \<and> total ts_bytes (type_summaries (Some (int 40)) ex_infos) \<le> 40"
proof
  show "map ts_type (type_summaries (Some (int 40)) ex_infos) = [0, 1]"
    using tensor_summary_accounts [of "Some (int 40)" ex_infos] by (simp add: ex_infos_def)
  show "total ts_bytes (type_summaries (Some (int 40)) ex_infos) \<le> 40"
    using tensor_summary_accounts [of "Some (int 40)" ex_infos] by (simp add: ex_infos_def)
qed

section \<open>Descriptors and updates\<close>

definition ver :: "nat list \<Rightarrow> (pre_kind \<times> nat) option \<Rightarrow> nat \<Rightarrow> descriptor_version" where
  "ver parts pre n = \<lparr>dv_parts = parts, dv_pre = pre, dv_revision = n\<rparr>"

definition ex_old :: string where "ex_old = show_descriptor ''vllm'' (ver [1, 2] (Some (Pre_rc, 1)) 3)"
definition ex_mid :: string where "ex_mid = show_descriptor ''vllm'' (ver [1, 2, 0] None 1)"
definition ex_new :: string where "ex_new = show_descriptor ''vllm'' (ver [1, 10] None 1)"

lemma ex_parsed:
  "parseDescriptorId ''vllm'' ex_old = Some (ver [1, 2] (Some (Pre_rc, 1)) 3)"
  "parseDescriptorId ''vllm'' ex_mid = Some (ver [1, 2, 0] None 1)"
  "parseDescriptorId ''vllm'' ex_new = Some (ver [1, 10] None 1)"
  unfolding ex_old_def ex_mid_def ex_new_def
  by (rule parse_written_descriptor, simp add: wf_version_def ver_def)+

theorem descriptor_order_is_lexicographic_witness:
  "isNewerDescriptor ''vllm'' ex_mid ex_old"
  using descriptor_order_is_lexicographic [OF ex_parsed(2,1), of 3]
  by (simp add: ver_def order_key_def pre_key_def part_at_def numeral_eq_Suc)

lemma ex_newer: "isNewerDescriptor ''vllm'' ex_mid ex_old" "isNewerDescriptor ''vllm'' ex_new ex_mid"
  by (simp_all add: isNewerDescriptor_def compareDescriptorIds_def ex_parsed compare_versions_def ver_def
      compare_pre_def part_at_def numeral_eq_Suc)

theorem newer_is_strict_order_witness:
  "isNewerDescriptor ''vllm'' ex_new ex_old \<and> \<not> isNewerDescriptor ''vllm'' ex_old ex_mid
   \<and> \<not> isNewerDescriptor ''vllm'' ''sglang-9-r1'' ex_old"
proof (intro conjI)
  show "isNewerDescriptor ''vllm'' ex_new ex_old"
    using newer_is_strict_order [of "''vllm''" ex_new ex_mid ex_old] ex_newer by blast
  show "\<not> isNewerDescriptor ''vllm'' ex_old ex_mid"
    using newer_is_strict_order [of "''vllm''" ex_mid ex_old ex_old] ex_newer by blast
  have "parseDescriptorId ''vllm'' ''sglang-9-r1'' = None" by (simp add: parseDescriptorId_def)
  then show "\<not> isNewerDescriptor ''vllm'' ''sglang-9-r1'' ex_old"
    using newer_is_strict_order [of "''vllm''" "''sglang-9-r1''" ex_old ex_old] by blast
qed

definition ex_readers :: "versions_reader list" where
  "ex_readers =
     [\<lparr>vr_engine = ''vllm'', vr_kind = Kind_managed, vr_read = Inr (managedVersions ''vllm'' None
        (Unavailable \<lparr>err_code = ''UPSTREAM_ERROR'', err_message = ''offline'', err_details = None\<rparr>) False ''linux/amd64'' None)\<rparr>,
      \<lparr>vr_engine = ''mlx'', vr_kind = Kind_engine_build,
       vr_read = Inl \<lparr>err_code = ''INTERNAL_ERROR'', err_message = ''boom'', err_details = None\<rparr>\<rparr>]"


section \<open>Routes\<close>

definition ex_remote :: remote_provider where
  "ex_remote = \<lparr>rp_provider = ''openai'', rp_apiKey = None, rp_baseUrl = None, rp_models = [''qwen3.5'', ''gpt''],
     rp_media = None\<rparr>"

definition ex_session :: local_target where
  "ex_session = \<lparr>lt_provider = Vllm, lt_modelId = ''qwen3_5'', lt_port = 8000, lt_apiKey = '''', lt_isEmbedding = False\<rparr>"

definition ex_sessions :: local_sessions where
  "ex_sessions = \<lparr>owned_sessions = (\<lambda>p. if p = Vllm then [ex_session] else []), external_sessions = (\<lambda>p. [])\<rparr>"

text \<open>The model is selected on MLX, runs under vLLM and is listed by a cloud provider: it stays here.\<close>

lemma ex_selected:
  "resolveSelectedRoute ''qwen3.5'' [(''qwen3_5'', ''mlx'')] [(''openai'', ex_remote)] = Some (Local_route Mlx)"
  by (simp add: resolveSelectedRoute_def selected_name_def LOCAL_SEARCH_ORDER_def)

lemma ex_routed:
  "route True [(''qwen3_5'', ''mlx'')] [(''openai'', ex_remote)] ex_sessions ''qwen3.5'' = To_local ex_session"
  by (simp add: route_def ex_selected routedRemote_def findSelectedLocalSession_def findLocalSession_def
      LOCAL_SEARCH_ORDER_def localTarget_def ex_sessions_def ex_session_def)

theorem selected_local_stays_local_witness:
  "route True [(''qwen3_5'', ''mlx'')] [(''openai'', ex_remote)] ex_sessions ''qwen3.5'' = To_local ex_session
   \<and> modelIdsMatch (lt_modelId ex_session) ''qwen3.5'' \<and> ex_session \<in> set (listLocalTargets ex_sessions)"
  using selected_local_stays_local [OF ex_selected, where cold = True and ls = ex_sessions] by (simp add: ex_routed)

theorem listing_agrees_with_routing_witness:
  "(''qwen3_5'', ''vllm'', Some ex_session) \<in> set (servedModels [] [(''openai'', ex_remote)] ex_sessions)"
proof -
  have s: "ex_session \<in> set (listLocalTargets ex_sessions)"
    by (simp add: listLocalTargets_def ex_sessions_def LOCAL_SEARCH_ORDER_def)
  have "route True [] [(''openai'', ex_remote)] ex_sessions (lt_modelId ex_session) = To_local ex_session"
    by (simp add: route_def resolveSelectedRoute_def selected_name_def routedRemote_def resolveRemoteProvider_def
        ex_remote_def ex_session_def has_slash_def findLocalSession_def LOCAL_SEARCH_ORDER_def localTarget_def
        ex_sessions_def listLocalTargets_def)
  with listing_agrees_with_routing [where ls = ex_sessions and selection = "[]" and
      providers = "[(''openai'', ex_remote)]" and cold = True] s
  have "(lt_modelId ex_session, OWNED_BY (lt_provider ex_session), Some ex_session)
      \<in> set (servedModels [] [(''openai'', ex_remote)] ex_sessions)" by blast
  then show ?thesis by (simp add: ex_session_def)
qed

end
