(* ===== verification/Gpu_Policy.thy ===== *)
theory Gpu_Policy
  imports Errors
begin

text \<open>
  Who may hold a GPU (\<open>src/src/core/gpu/policy.ts\<close> over the types of \<open>runtime/shared/gpu-occupancy.ts\<close>):
  which sessions a load displaces, and the refusals that name who is in its way.
\<close>

section \<open>Sessions and claims\<close>

datatype gpu_cards = All_cards | Cards "string list"

datatype gpu_occupancy_state = Gpu_loading | Gpu_ready | Gpu_stopping | Gpu_stop_unconfirmed

fun gpu_state_name :: "gpu_occupancy_state \<Rightarrow> string" where
  "gpu_state_name Gpu_loading = ''loading''"
| "gpu_state_name Gpu_ready = ''ready''"
| "gpu_state_name Gpu_stopping = ''stopping''"
| "gpu_state_name Gpu_stop_unconfirmed = ''stop-unconfirmed''"

record gpu_occupant =
  go_provider :: string
  go_model_id :: string
  go_cards :: gpu_cards
  go_auxiliary :: bool
  go_state :: gpu_occupancy_state
  go_remedy :: "string option"
  go_busy :: "string option"

record gpu_request =
  gr_provider :: string
  gr_model_id :: string
  gr_cards :: gpu_cards
  gr_auxiliary :: bool
  gr_soleSessionOfProvider :: "bool option"

section \<open>The rule\<close>

definition isCpuOnly :: "gpu_cards \<Rightarrow> bool" where
  "isCpuOnly cards = (case cards of All_cards \<Rightarrow> False | Cards cs \<Rightarrow> cs = [])"

definition cardsOverlap :: "gpu_cards \<Rightarrow> gpu_cards \<Rightarrow> bool" where
  "cardsOverlap a b =
     (if isCpuOnly a \<or> isCpuOnly b then False
      else case (a, b) of
        (Cards as, Cards bs) \<Rightarrow> list_ex (\<lambda>c. c \<in> set bs) as
      | _ \<Rightarrow> True)"

definition claimsGpu :: "gpu_request \<Rightarrow> bool" where
  "claimsGpu request =
     (if gr_auxiliary request then False
      else gr_soleSessionOfProvider request = Some True \<or> \<not> isCpuOnly (gr_cards request))"

definition must_go :: "gpu_request \<Rightarrow> gpu_occupant \<Rightarrow> bool" where
  "must_go request occupant =
     (if go_auxiliary occupant then False
      else if go_provider occupant = gr_provider request then
        (if go_model_id occupant = gr_model_id request then False
         else gr_soleSessionOfProvider request = Some True)
      else cardsOverlap (gr_cards request) (go_cards occupant))"

definition gpuEvictions :: "gpu_request \<Rightarrow> gpu_occupant list \<Rightarrow> gpu_occupant list" where
  "gpuEvictions request occupants =
     (if \<not> claimsGpu request then [] else filter (must_go request) occupants)"

definition busyHolder :: "gpu_occupant list \<Rightarrow> gpu_occupant option" where
  "busyHolder evictions = find (\<lambda>occupant. go_busy occupant \<noteq> None) evictions"

section \<open>Refusals\<close>

definition describeCards :: "gpu_cards \<Rightarrow> string" where
  "describeCards cards = (case cards of All_cards \<Rightarrow> ''all'' | Cards cs \<Rightarrow> js_join '','' cs)"

definition DEFAULT_REMEDY :: string where
  "DEFAULT_REMEDY = ''Try again once it has stopped.''"

definition BUSY_REMEDY :: string where
  "BUSY_REMEDY = ''Wait for it to finish, or stop it, then try again.''"

definition occupant_id :: "gpu_occupant \<Rightarrow> string" where
  "occupant_id holder = go_provider holder @ ''/'' @ go_model_id holder"

definition gpuBusyError :: "gpu_occupant \<Rightarrow> string option \<Rightarrow> error_body" where
  "gpuBusyError holder cause =
     \<lparr>err_code = ''GPU_BUSY'',
      err_message = occupant_id holder
        @ '' still holds the GPU: its stop has not been confirmed, so nothing else loads there yet. ''
        @ (case go_remedy holder of None \<Rightarrow> DEFAULT_REMEDY | Some r \<Rightarrow> r),
      err_details = Some (''holder='' @ occupant_id holder @ '' state='' @ gpu_state_name (go_state holder)
        @ '' cards='' @ describeCards (go_cards holder)
        @ (case cause of None \<Rightarrow> '''' | Some c \<Rightarrow> '' cause='' @ c))\<rparr>"

definition gpuWorkingError :: "gpu_occupant \<Rightarrow> string \<Rightarrow> error_body" where
  "gpuWorkingError holder busy =
     \<lparr>err_code = ''GPU_BUSY'',
      err_message = busy @ ''; loading another model on the same GPU would cancel it. ''
        @ (case go_remedy holder of None \<Rightarrow> BUSY_REMEDY | Some r \<Rightarrow> r),
      err_details = Some (''holder='' @ occupant_id holder @ '' state='' @ gpu_state_name (go_state holder)
        @ '' cards='' @ describeCards (go_cards holder) @ '' busy=true'')\<rparr>"

section \<open>Cards one by one\<close>

text \<open>The reference reading of \<open>GpuCards\<close>: which single cards a session holds.\<close>

fun holds :: "gpu_cards \<Rightarrow> string \<Rightarrow> bool" where
  "holds All_cards c = True"
| "holds (Cards cs) c = (c \<in> set cs)"

lemma isCpuOnly_iff: "isCpuOnly cards \<longleftrightarrow> (\<forall>c. \<not> holds cards c)"
  by (cases cards) (auto simp: isCpuOnly_def ex_in_conv [symmetric])

lemma cardsOverlap_iff: "cardsOverlap a b \<longleftrightarrow> (\<exists>c. holds a c \<and> holds b c)"
  by (cases a; cases b) (auto simp: cardsOverlap_def isCpuOnly_def list_ex_iff neq_Nil_conv)

lemma cardsOverlap_sym: "cardsOverlap a b = cardsOverlap b a"
  by (auto simp: cardsOverlap_iff)

lemma set_gpuEvictions:
  "o' \<in> set (gpuEvictions request os) \<longleftrightarrow> claimsGpu request \<and> o' \<in> set os \<and> must_go request o'"
  by (simp add: gpuEvictions_def)

lemma busyHolder_None: "busyHolder es = None \<longleftrightarrow> (\<forall>e \<in> set es. go_busy e = None)"
  by (auto simp: busyHolder_def find_None_iff)

lemma busyHolder_Some: "busyHolder es = Some e \<Longrightarrow> e \<in> set es \<and> go_busy e \<noteq> None"
  unfolding busyHolder_def by (drule find_SomeD) auto

end
