(* ===== verification/Gpu_Residency.thy ===== *)
theory Gpu_Residency
  imports Gpu_Policy "HOL-Library.AList"
begin

text \<open>
  Running the residency rule (\<open>src/src/core/gpu/residency.ts\<close>): a claim takes its turn, stops what is in
  its way and is granted only when nothing is left there.

  What the engines report is the list of occupants, read fresh at every step.  What happens to it while a
  claim waits, how a stop ends, and when the load is cancelled is the \<open>gpu_world\<close> the claim runs in.  A
  claim answers its result, the sessions at that moment, and the stops it asked for, in order, each with
  the sessions listed when it did.
\<close>

section \<open>The claim\<close>

definition loadCancelledError :: error_body where
  "loadCancelledError = \<lparr>err_code = ''MODEL_LOAD_CANCELLED'', err_message = ''The model load was cancelled.'',
     err_details = None\<rparr>"

text \<open>The moments at which a claim looks at its abort signal.\<close>

datatype claim_point = At_entry | At_turn | Before_stop nat | During_stop nat | At_end

record gpu_world =
  gw_aborted :: "claim_point \<Rightarrow> bool"
  gw_wait :: "gpu_occupant list \<Rightarrow> gpu_occupant list"
  gw_evict :: "nat \<Rightarrow> gpu_occupant \<Rightarrow> gpu_occupant list \<Rightarrow> string option \<times> gpu_occupant list"

definition occupant_key :: "gpu_occupant \<Rightarrow> string" where
  "occupant_key occupant = go_provider occupant @ [CHR 0x00] @ go_model_id occupant"

text \<open>The work the session reports now, with the session as it is listed now.\<close>

definition busy_now :: "gpu_occupant \<Rightarrow> gpu_occupant list \<Rightarrow> (gpu_occupant \<times> string) option" where
  "busy_now occupant occupants =
     (case find (\<lambda>current. occupant_key current = occupant_key occupant) occupants of
        None \<Rightarrow> None
      | Some now \<Rightarrow> map_option (\<lambda>busy. (now, busy)) (go_busy now))"

type_synonym stop_log = "(gpu_occupant \<times> gpu_occupant list) list"

fun stop_each ::
  "gpu_world \<Rightarrow> nat \<Rightarrow> gpu_occupant list \<Rightarrow> gpu_occupant list \<Rightarrow> (string \<times> string) list
     \<Rightarrow> (string \<times> string) list result \<times> gpu_occupant list \<times> stop_log" where
  "stop_each w k [] occupants causes = (ok causes, occupants, [])"
| "stop_each w k (occupant # rest) occupants causes =
     (if gw_aborted w (Before_stop k) then (Inl loadCancelledError, occupants, [])
      else case busy_now occupant occupants of
        Some (now, busy) \<Rightarrow> (Inl (gpuWorkingError now busy), occupants, [])
      | None \<Rightarrow>
          (case gw_evict w k occupant occupants of
             (failure, occupants') \<Rightarrow>
               if gw_aborted w (During_stop k) then (Inl loadCancelledError, occupants', [(occupant, occupants)])
               else
                 let causes' = (case failure of None \<Rightarrow> causes
                                | Some reason \<Rightarrow> AList.update (occupant_key occupant) reason causes)
                 in (case stop_each w (k + 1) rest occupants' causes' of
                       (result, final, stopped) \<Rightarrow> (result, final, (occupant, occupants) # stopped))))"

definition gpu_refusal :: "gpu_occupant \<Rightarrow> string option \<Rightarrow> error_body" where
  "gpu_refusal holder cause =
     (case go_busy holder of Some busy \<Rightarrow> gpuWorkingError holder busy | None \<Rightarrow> gpuBusyError holder cause)"

definition gpu_claim ::
  "gpu_world \<Rightarrow> gpu_request \<Rightarrow> gpu_occupant list \<Rightarrow> unit result \<times> gpu_occupant list \<times> stop_log" where
  "gpu_claim w request occupants =
     (if gw_aborted w At_entry then (Inl loadCancelledError, occupants, [])
      else if \<not> claimsGpu request then (ok (), occupants, [])
      else
        let occupants = gw_wait w occupants in
        if gw_aborted w At_turn then (Inl loadCancelledError, occupants, [])
        else
          let evictions = gpuEvictions request occupants in
          (case busyHolder evictions of
             Some working \<Rightarrow> (Inl (gpu_refusal working None), occupants, [])
           | None \<Rightarrow>
               (case stop_each w 0 evictions occupants [] of
                  (Inl e, occupants, stopped) \<Rightarrow> (Inl e, occupants, stopped)
                | (Inr causes, occupants, stopped) \<Rightarrow>
                    if gw_aborted w At_end then (Inl loadCancelledError, occupants, stopped)
                    else (case gpuEvictions request occupants of
                            holder # _ \<Rightarrow>
                              (Inl (gpu_refusal holder (map_of causes (occupant_key holder))), occupants, stopped)
                          | [] \<Rightarrow> (ok (), occupants, stopped)))))"

text \<open>What the runtime's \<open>granted\<close> does inside the claim's turn: the load is listed, as \<open>loading\<close>.\<close>

definition register_load :: "gpu_request \<Rightarrow> gpu_occupant list \<Rightarrow> gpu_occupant list" where
  "register_load request occupants =
     filter (\<lambda>o'. \<not> (go_provider o' = gr_provider request \<and> go_model_id o' = gr_model_id request)) occupants
     @ [\<lparr>go_provider = gr_provider request, go_model_id = gr_model_id request, go_cards = gr_cards request,
         go_auxiliary = gr_auxiliary request, go_state = Gpu_loading, go_remedy = None, go_busy = None\<rparr>]"

section \<open>What a claim stops and what it is granted over\<close>

lemma gpu_claim_granted:
  assumes "gpu_claim w request occupants = (Inr (), now, stopped)"
  shows "gpuEvictions request now = []"
  using assms
  by (auto simp: gpu_claim_def Let_def gpuEvictions_def ok_def split: if_splits option.splits prod.splits sum.splits list.splits)

lemma stop_each_log:
  "stop_each w k evs os causes = (result, final, stopped) \<Longrightarrow>
   (\<exists>rest. evs = map fst stopped @ rest) \<and> (\<forall>(o', seen) \<in> set stopped. busy_now o' seen = None)"
proof (induction evs arbitrary: k os causes result final stopped)
  case (Cons occupant rest)
  obtain failure os' where ev: "gw_evict w k occupant os = (failure, os')" by (metis surj_pair)
  let ?causes = "case failure of None \<Rightarrow> causes | Some reason \<Rightarrow> AList.update (occupant_key occupant) reason causes"
  obtain r f l where rec: "stop_each w (k + 1) rest os' ?causes = (r, f, l)" by (metis surj_pair)
  from Cons.IH [OF rec] Cons.prems ev rec show ?case
    by (auto simp: Let_def split: if_splits option.splits)
qed simp

text \<open>A session that only ends, is listed in another state, or stands outside the rule.\<close>

definition outside_rule :: "gpu_occupant \<Rightarrow> bool" where
  "outside_rule o' \<longleftrightarrow> go_auxiliary o' \<or> isCpuOnly (go_cards o')"

definition same_hold :: "gpu_occupant \<Rightarrow> gpu_occupant \<Rightarrow> bool" where
  "same_hold a b \<longleftrightarrow> go_provider a = go_provider b \<and> go_model_id a = go_model_id b \<and> go_cards a = go_cards b \<and>
     go_auxiliary a = go_auxiliary b"

definition settles :: "gpu_occupant list \<Rightarrow> gpu_occupant list \<Rightarrow> bool" where
  "settles os os' \<longleftrightarrow> (\<forall>o' \<in> set os'. outside_rule o' \<or> (\<exists>o'' \<in> set os. same_hold o'' o'))"

definition world_settles :: "gpu_world \<Rightarrow> bool" where
  "world_settles w \<longleftrightarrow> (\<forall>os. settles os (gw_wait w os)) \<and> (\<forall>k o' os. settles os (snd (gw_evict w k o' os)))"

lemma same_hold_trans: "same_hold a b \<Longrightarrow> same_hold b c \<Longrightarrow> same_hold a c"
  by (simp add: same_hold_def)

lemma outside_same: "same_hold a b \<Longrightarrow> outside_rule a = outside_rule b"
  by (simp add: same_hold_def outside_rule_def)

lemma settles_refl [simp]: "settles os os"
  by (auto simp: settles_def same_hold_def)

lemma settles_trans: "settles a b \<Longrightarrow> settles b c \<Longrightarrow> settles a c"
proof -
  assume ab: "settles a b" and bc: "settles b c"
  show "settles a c"
    unfolding settles_def
  proof
    fix o' assume "o' \<in> set c"
    then consider "outside_rule o'" | x where "x \<in> set b" "same_hold x o'" using bc unfolding settles_def by blast
    then show "outside_rule o' \<or> (\<exists>o'' \<in> set a. same_hold o'' o')"
    proof cases
      case 2
      then have "outside_rule x \<or> (\<exists>y \<in> set a. same_hold y x)" using ab unfolding settles_def by blast
      then show ?thesis using 2(2) outside_same same_hold_trans by blast
    qed simp
  qed
qed

lemma stop_each_settles:
  "world_settles w \<Longrightarrow> stop_each w k evs os causes = (result, final, stopped) \<Longrightarrow> settles os final"
proof (induction evs arbitrary: k os causes result final stopped)
  case (Cons occupant rest)
  obtain failure os' where ev: "gw_evict w k occupant os = (failure, os')" by (metis surj_pair)
  then have one: "settles os os'" using Cons.prems(1) unfolding world_settles_def by (metis snd_conv)
  let ?causes = "case failure of None \<Rightarrow> causes | Some reason \<Rightarrow> AList.update (occupant_key occupant) reason causes"
  obtain r f l where rec: "stop_each w (k + 1) rest os' ?causes = (r, f, l)" by (metis surj_pair)
  have "settles os f" using settles_trans [OF one Cons.IH [OF Cons.prems(1) rec]] .
  then show ?case using Cons.prems(2) ev rec one by (auto simp: Let_def split: if_splits option.splits)
qed simp

lemma gpu_claim_settles:
  assumes "world_settles w" "gpu_claim w request os = (result, now, stopped)"
  shows "settles os now"
proof -
  have wait: "settles os (gw_wait w os)" using assms(1) by (simp add: world_settles_def)
  obtain r f l where rec: "stop_each w 0 (gpuEvictions request (gw_wait w os)) (gw_wait w os) [] = (r, f, l)"
    by (metis surj_pair)
  have "settles os f" using settles_trans [OF wait stop_each_settles [OF assms(1) rec]] .
  then show ?thesis using assms(2) wait rec
    by (auto simp: gpu_claim_def Let_def split: if_splits option.splits sum.splits list.splits)
qed

section \<open>One provider per card\<close>

definition exclusive :: "gpu_occupant list \<Rightarrow> bool" where
  "exclusive os \<longleftrightarrow> (\<forall>a \<in> set os. \<forall>b \<in> set os. \<not> go_auxiliary a \<longrightarrow> \<not> go_auxiliary b \<longrightarrow>
     go_provider a \<noteq> go_provider b \<longrightarrow> \<not> cardsOverlap (go_cards a) (go_cards b))"

text \<open>Histories of one core: loads that were granted, and sessions that end or change state.\<close>

inductive gpu_step :: "gpu_occupant list \<Rightarrow> gpu_occupant list \<Rightarrow> bool" where
  load_granted: "world_settles w \<Longrightarrow> gpu_claim w request os = (Inr (), now, stopped) \<Longrightarrow>
    gpu_step os (register_load request now)"
| load_refused: "world_settles w \<Longrightarrow> gpu_claim w request os = (Inl e, now, stopped) \<Longrightarrow> gpu_step os now"
| sessions_settle: "settles os os' \<Longrightarrow> gpu_step os os'"

lemma outside_no_overlap: "outside_rule a \<Longrightarrow> \<not> go_auxiliary a \<Longrightarrow> \<not> cardsOverlap (go_cards a) c \<and> \<not> cardsOverlap c (go_cards a)"
  by (auto simp: outside_rule_def cardsOverlap_def)

lemma exclusive_settles:
  assumes "exclusive os" "settles os os'"
  shows "exclusive os'"
  unfolding exclusive_def
proof (intro ballI impI)
  fix a b
  assume ab: "a \<in> set os'" "b \<in> set os'" "\<not> go_auxiliary a" "\<not> go_auxiliary b" "go_provider a \<noteq> go_provider b"
  show "\<not> cardsOverlap (go_cards a) (go_cards b)"
  proof (cases "outside_rule a \<or> outside_rule b")
    case True
    then show ?thesis using outside_no_overlap ab(3,4) by blast
  next
    case False
    then obtain a' b' where "a' \<in> set os" "same_hold a' a" "b' \<in> set os" "same_hold b' b"
      using assms(2) ab(1,2) unfolding settles_def by blast
    then show ?thesis using assms(1) ab(3-5) unfolding exclusive_def same_hold_def by metis
  qed
qed

lemma exclusive_register:
  assumes "exclusive now" "gpuEvictions request now = []"
  shows "exclusive (register_load request now)"
proof -
  have free: "\<not> cardsOverlap (gr_cards request) (go_cards o')"
    if "o' \<in> set now" "\<not> go_auxiliary o'" "\<not> gr_auxiliary request" "go_provider o' \<noteq> gr_provider request" for o'
  proof (cases "claimsGpu request")
    case True
    then have "\<not> must_go request o'" using assms(2) that(1) by (auto simp: gpuEvictions_def filter_empty_conv)
    then show ?thesis using that by (simp add: must_go_def)
  next
    case False
    then show ?thesis using that(3) by (simp add: claimsGpu_def cardsOverlap_def)
  qed
  then show ?thesis using assms(1) cardsOverlap_sym
    by (auto simp: exclusive_def register_load_def)
qed

interpretation gpu_history: invariant_system "\<lambda>os. os = []" gpu_step exclusive
proof
  show "exclusive s" if "s = []" for s using that by (simp add: exclusive_def)
  show "exclusive t" if "exclusive s" "gpu_step s t" for s t
    using that(2)
  proof (cases rule: gpu_step.cases)
    case (load_granted w request now stopped)
    then have "exclusive now" using exclusive_settles [OF that(1) gpu_claim_settles] by metis
    then show ?thesis using load_granted(1,3) gpu_claim_granted exclusive_register by blast
  next
    case (load_refused w request e stopped)
    then show ?thesis using exclusive_settles [OF that(1) gpu_claim_settles] by blast
  next
    case sessions_settle
    then show ?thesis using exclusive_settles [OF that(1)] by blast
  qed
qed

section \<open>Properties\<close>

text \<open>
  C33.  One provider per card: in every history of granted loads, refused loads and sessions that end, two
  sessions other than embedding and transcription that hold one card belong to one provider.
\<close>

theorem one_provider_per_card:
  assumes "reached (\<lambda>os. os = []) gpu_step os" "a \<in> set os" "b \<in> set os"
    and "\<not> go_auxiliary a" "\<not> go_auxiliary b" "holds (go_cards a) c" "holds (go_cards b) c"
  shows "go_provider a = go_provider b"
proof -
  have "exclusive os" using assms(1) by (rule gpu_history.reached_inv)
  then show ?thesis using assms(2-7) unfolding exclusive_def cardsOverlap_iff by blast
qed

text \<open>
  C34.  A claim destroys no work and does not half-evict: one that finds a busy session in its way is refused
  with \<open>GPU_BUSY\<close> before anything is stopped; every stop it asks for is of a session in its way that
  reports no work at that moment; and a granted claim leaves nothing in its way.
\<close>

theorem claim_stops_no_work:
  assumes "gpu_claim w request os = (result, now, stopped)"
  shows "list_all (\<lambda>(o', seen). o' \<in> set (gpuEvictions request (gw_wait w os)) \<and> busy_now o' seen = None) stopped \<and>
    (busyHolder (gpuEvictions request (gw_wait w os)) \<noteq> None \<longrightarrow>
       stopped = [] \<and> (\<exists>e. result = Inl e \<and> err_code e \<in> {''GPU_BUSY'', ''MODEL_LOAD_CANCELLED''})) \<and>
    (result = Inr () \<longrightarrow> gpuEvictions request now = [])"
proof -
  let ?evs = "gpuEvictions request (gw_wait w os)"
  obtain r f l where rec: "stop_each w 0 ?evs (gw_wait w os) [] = (r, f, l)" by (metis surj_pair)
  have log: "list_all (\<lambda>(o', seen). o' \<in> set ?evs \<and> busy_now o' seen = None) l"
  proof -
    obtain rest where rest: "?evs = map fst l @ rest" using stop_each_log [OF rec] by blast
    have "\<forall>x \<in> set l. busy_now (fst x) (snd x) = None" using stop_each_log [OF rec] by auto
    moreover have "\<forall>x \<in> set l. fst x \<in> set ?evs" unfolding rest by simp
    ultimately show ?thesis by (simp add: list_all_iff case_prod_beta)
  qed
  have "stopped = [] \<or> stopped = l"
    using assms rec by (auto simp: gpu_claim_def Let_def split: if_splits option.splits sum.splits list.splits)
  then have "list_all (\<lambda>(o', seen). o' \<in> set ?evs \<and> busy_now o' seen = None) stopped" using log by auto
  moreover have "stopped = [] \<and> (\<exists>e. result = Inl e \<and> err_code e \<in> {''GPU_BUSY'', ''MODEL_LOAD_CANCELLED''})"
    if "busyHolder ?evs \<noteq> None"
  proof -
    have some: "busyHolder ?evs \<noteq> None" by (rule that)
    then obtain working where "busyHolder ?evs = Some working" by blast
    moreover have "claimsGpu request"
      using some by (cases "claimsGpu request") (auto simp: gpuEvictions_def busyHolder_def)
    ultimately show ?thesis using assms
      by (auto simp: gpu_claim_def Let_def gpu_refusal_def loadCancelledError_def gpuWorkingError_def gpuBusyError_def
          split: if_splits option.splits)
  qed
  ultimately show ?thesis using assms gpu_claim_granted by blast
qed

end
