(* ===== verification/Local_Sessions.thy ===== *)
theory Local_Sessions
  imports Gpu_Residency
begin

text \<open>
  The sessions a core loads, and the claims it takes on their models: \<open>acquireNow\<close>, \<open>unload\<close> and \<open>releaseAll\<close> of
  \<open>LocalSessions\<close> in \<open>src/src/core/sessions.ts\<close>.  Transitions of one model are serialised by
  \<open>withModelTransition\<close>, the promise chain of \<open>Claim_Queue\<close>, so each is one step here; between two of them a
  session may exit or be reloaded by its runtime.  What the awaited calls answer (the claim, the legacy
  check, the runtime's \<open>load\<close> and \<open>unload\<close>) and where the cancel signal stands at each look are the
  \<open>answers\<close> of a step.
\<close>

section \<open>State\<close>

text \<open>
  \<open>ss_claims\<close>: the keys of \<open>modelClaims\<close>; \<open>ss_disk\<close>: the claims on disk that are this core's; \<open>ss_running\<close> and
  \<open>ss_loading\<close>: the keys for which the runtime's \<open>findSession\<close> finds one, and \<open>isLoading\<close> is true.
\<close>

record sessions_state =
  ss_claims :: "string set"
  ss_disk :: "string set"
  ss_running :: "string set"
  ss_loading :: "string set"

definition no_sessions :: sessions_state where
  "no_sessions = \<lparr>ss_claims = {}, ss_disk = {}, ss_running = {}, ss_loading = {}\<rparr>"

record acquire_answers =
  an_assertRunning :: "error_body option"
  an_runtime :: "error_body option"
  an_claim :: "error_body option"
  an_legacy :: "error_body option"
  an_load :: "error_body option"
  an_live_after_load :: bool
  an_update :: "error_body option"
  an_unload :: "error_body option"
  an_live_after_unload :: bool
  an_released :: bool
  an_aborted_first :: bool
  an_aborted_claimed :: bool
  an_aborted_ready :: bool

definition set_running :: "string \<Rightarrow> bool \<Rightarrow> sessions_state \<Rightarrow> sessions_state" where
  "set_running key live s =
     s\<lparr>ss_running := (if live then insert key (ss_running s) else ss_running s - {key}),
       ss_loading := ss_loading s - {key}\<rparr>"

text \<open>\<open>claim.release().catch(() => {})\<close>, which may fail to remove the directory, and \<open>modelClaims.delete\<close>.\<close>

definition drop_claim :: "string \<Rightarrow> bool \<Rightarrow> sessions_state \<Rightarrow> sessions_state" where
  "drop_claim key released s =
     s\<lparr>ss_claims := ss_claims s - {key}, ss_disk := (if released then ss_disk s - {key} else ss_disk s)\<rparr>"

section \<open>Operations\<close>

definition take_claim :: "acquire_answers \<Rightarrow> string \<Rightarrow> sessions_state \<Rightarrow> sessions_state result" where
  "take_claim a key s =
     (if key \<in> ss_claims s then Inr s
      else case an_claim a of
        Some e \<Rightarrow> Inl e
      | None \<Rightarrow> Inr (s\<lparr>ss_claims := insert key (ss_claims s), ss_disk := insert key (ss_disk s)\<rparr>))"

text \<open>The body of the \<open>try\<close>: its result, or what it threw, with the state it left.\<close>

definition load_claimed :: "acquire_answers \<Rightarrow> string \<Rightarrow> bool \<Rightarrow> sessions_state \<Rightarrow> bool result \<times> sessions_state" where
  "load_claimed a key created s =
     (if an_aborted_claimed a then (Inl loadCancelledError, s)
      else case an_legacy a of Some e \<Rightarrow> (Inl e, s) | None \<Rightarrow>
      (case an_load a of
         Some e \<Rightarrow> (Inl e, set_running key (an_live_after_load a) s)
       | None \<Rightarrow>
           let s = set_running key True s in
           (case an_update a of Some e \<Rightarrow> (Inl e, s) | None \<Rightarrow>
              if created \<and> an_aborted_ready a then
                (case an_unload a of
                   Some e \<Rightarrow> (Inl e, set_running key (an_live_after_unload a) s)
                 | None \<Rightarrow> (Inl loadCancelledError, set_running key (an_live_after_unload a) s))
              else (Inr created, s))))"

definition acquireNow :: "acquire_answers \<Rightarrow> string \<Rightarrow> sessions_state \<Rightarrow> bool result \<times> sessions_state" where
  "acquireNow a key s =
     (case an_assertRunning a of Some e \<Rightarrow> (Inl e, s) | None \<Rightarrow>
      if an_aborted_first a then (Inl loadCancelledError, s)
      else case an_runtime a of Some e \<Rightarrow> (Inl e, s) | None \<Rightarrow>
      (case take_claim a key s of
         Inl e \<Rightarrow> (Inl e, s)
       | Inr s1 \<Rightarrow>
           let created = (key \<notin> ss_running s1 \<and> key \<notin> ss_loading s1) in
           (case load_claimed a key created s1 of
              (Inr r, s2) \<Rightarrow> (Inr r, s2)
            | (Inl e, s2) \<Rightarrow>
                if created \<and> key \<notin> ss_running s2 then (Inl e, drop_claim key (an_released a) s2) else (Inl e, s2))))"

text \<open>\<open>success\<close> is the runtime's answer, \<open>live\<close> whether the session is still there after it.\<close>

definition unload_now :: "bool \<Rightarrow> bool \<Rightarrow> bool \<Rightarrow> string \<Rightarrow> sessions_state \<Rightarrow> sessions_state" where
  "unload_now success live released key s =
     (let s = (if live then s else set_running key False s) in
      if success then drop_claim key released s else s)"

definition releaseAll :: "string set \<Rightarrow> sessions_state \<Rightarrow> sessions_state" where
  "releaseAll failed s = s\<lparr>ss_claims := {}, ss_disk := ss_disk s - (ss_claims s - failed)\<rparr>"

text \<open>
  The steps of a running core.  A runtime's \<open>unload\<close> that reports success leaves no session; a session a
  runtime reloads (a context increase, a recovery) is one that runs.
\<close>

inductive sessions_step :: "sessions_state \<Rightarrow> sessions_state \<Rightarrow> bool" where
  step_acquire: "sessions_step s (snd (acquireNow a key s))"
| step_unload: "(success \<Longrightarrow> \<not> live) \<Longrightarrow> sessions_step s (unload_now success live released key s)"
| step_exit: "sessions_step s (set_running key False s)"
| step_reload: "key \<in> ss_running s \<Longrightarrow>
    sessions_step s (s\<lparr>ss_running := ss_running s - {key}, ss_loading := insert key (ss_loading s)\<rparr>)"
| step_reloaded: "key \<in> ss_loading s \<Longrightarrow> sessions_step s (set_running key live s)"

section \<open>The claim outlives the session\<close>

definition sessions_inv :: "sessions_state \<Rightarrow> bool" where
  "sessions_inv s \<longleftrightarrow> ss_running s \<union> ss_loading s \<subseteq> ss_claims s \<and> ss_claims s \<subseteq> ss_disk s"

lemma set_running_inv: "sessions_inv s \<Longrightarrow> live \<longrightarrow> key \<in> ss_claims s \<Longrightarrow> sessions_inv (set_running key live s)"
  by (auto simp: sessions_inv_def set_running_def)

lemma drop_claim_inv:
  "sessions_inv s \<Longrightarrow> key \<notin> ss_running s \<Longrightarrow> key \<notin> ss_loading s \<Longrightarrow> sessions_inv (drop_claim key released s)"
  by (auto simp: sessions_inv_def drop_claim_def)

lemma set_running_fields [simp]:
  "ss_claims (set_running key live s) = ss_claims s" "ss_disk (set_running key live s) = ss_disk s"
  "ss_loading (set_running key live s) = ss_loading s - {key}"
  "key \<in> ss_running (set_running key live s) \<longleftrightarrow> live"
  by (simp_all add: set_running_def)

lemma take_claim_inv:
  "sessions_inv s \<Longrightarrow> take_claim a key s = Inr s1 \<Longrightarrow>
   sessions_inv s1 \<and> key \<in> ss_claims s1 \<and> ss_running s1 = ss_running s \<and> ss_loading s1 = ss_loading s"
  by (auto simp: take_claim_def sessions_inv_def split: if_splits option.splits)

lemma load_claimed_inv:
  assumes "sessions_inv s" and "key \<in> ss_claims s" and "load_claimed a key created s = (r, s')"
  shows "sessions_inv s' \<and> (key \<notin> ss_loading s \<longrightarrow> key \<notin> ss_loading s')"
  using assms set_running_inv [of s] set_running_inv [of "set_running key True s"]
  by (auto simp: load_claimed_def Let_def split: if_splits option.splits)

lemma acquireNow_inv:
  assumes "sessions_inv s"
  shows "sessions_inv (snd (acquireNow a key s))"
proof (cases "an_assertRunning a = None \<and> \<not> an_aborted_first a \<and> an_runtime a = None")
  case True
  show ?thesis
  proof (cases "take_claim a key s")
    case (Inr s1)
    obtain r s2 where l: "load_claimed a key (key \<notin> ss_running s1 \<and> key \<notin> ss_loading s1) s1 = (r, s2)"
      by fastforce
    from take_claim_inv [OF assms Inr] have c: "sessions_inv s1" "key \<in> ss_claims s1" by simp_all
    note inv = load_claimed_inv [OF c l]
    show ?thesis
      using True Inr l inv drop_claim_inv [of s2 key]
      by (auto simp: acquireNow_def Let_def split: sum.split)
  qed (use True assms in \<open>simp add: acquireNow_def\<close>)
qed (use assms in \<open>auto simp: acquireNow_def split: option.split\<close>)

interpretation core_sessions: invariant_system "\<lambda>s. s = no_sessions" sessions_step sessions_inv
proof
  show "sessions_inv s" if "s = no_sessions" for s using that by (simp add: sessions_inv_def no_sessions_def)
  show "sessions_inv t" if inv: "sessions_inv s" and step: "sessions_step s t" for s t
    using step
  proof (cases rule: sessions_step.cases)
    case (step_acquire a key)
    then show ?thesis using acquireNow_inv [OF inv] by simp
  next
    case (step_unload success live released key)
    then show ?thesis using inv set_running_inv [OF inv, of False key] drop_claim_inv [of "set_running key False s" key]
      by (auto simp: unload_now_def Let_def)
  next
    case (step_exit key)
    then show ?thesis using set_running_inv [OF inv] by simp
  next
    case (step_reload key)
    then show ?thesis using inv by (auto simp: sessions_inv_def)
  next
    case (step_reloaded key live)
    then show ?thesis using inv set_running_inv [OF inv, of live key] by (auto simp: sessions_inv_def)
  qed
qed



end
