(* ===== verification/Model_Claim.thy ===== *)
theory Model_Claim
  imports Prelude
begin

text \<open>
  The ownership claim on a model that the app and the core share, \<open>src/src/lock/model-claim.ts\<close>: a directory
  made with \<open>mkdir\<close>, holding \<open>claim.json\<close>.  Every file-system call is one step, and any number of processes
  interleave theirs; a process may die between two of them.  The directory the path names is \<^const>\<open>None\<close>
  when absent and \<open>Some None\<close> between \<open>mkdir\<close> and the rename that puts \<open>claim.json\<close> in place.  An owner is
  stale when it is dead (the start-time comparison tells a reused PID from the owner); a probe that
  cannot tell leaves the claim alone.
\<close>

section \<open>Claims and their holders\<close>

record model_claim =
  mc_claim_id :: nat
  mc_owner :: nat

text \<open>
  Where a process stands in \<open>acquireModelClaim\<close>: before \<open>mkdir\<close> (\<open>Making\<close>, with the attempt counted from 0 and
  the claim's id), before \<open>claim.json\<close> is renamed into the directory it made (\<open>Writing\<close>), after \<open>EEXIST\<close> and
  before \<open>readClaim\<close> (\<open>Reading\<close>), before \<open>claimOwnerIsStale\<close> (\<open>Judging\<close>), before \<open>rename(path, stale)\<close>
  (\<open>Renaming\<close>); holding the claim; and in \<open>release\<close>, before \<open>readClaim\<close> (\<open>Checking_release\<close>) and before \<open>rm\<close>
  (\<open>Removing\<close>).
\<close>

datatype claim_pc =
    Idle
  | Making nat nat
  | Writing nat
  | Reading nat nat
  | Judging nat nat model_claim
  | Renaming nat nat
  | Held model_claim
  | Checking_release model_claim
  | Removing model_claim
  | Refused

record claim_world =
  cw_dir :: "model_claim option option"
  cw_pc :: "nat \<Rightarrow> claim_pc"
  cw_alive :: "nat \<Rightarrow> bool"
  cw_next :: nat

definition goto :: "nat \<Rightarrow> claim_pc \<Rightarrow> claim_world \<Rightarrow> claim_world" where
  "goto i pc w = w\<lparr>cw_pc := (cw_pc w)(i := pc)\<rparr>"

section \<open>One call\<close>

definition MAX_ATTEMPTS :: nat where "MAX_ATTEMPTS = 2"

text \<open>The next round of the \<open>for\<close> loop, or the refusal after it.\<close>

definition next_attempt :: "nat \<Rightarrow> nat \<Rightarrow> claim_pc" where
  "next_attempt attempt cid = (if Suc attempt < MAX_ATTEMPTS then Making (Suc attempt) cid else Refused)"

definition try_mkdir :: "nat \<Rightarrow> nat \<Rightarrow> nat \<Rightarrow> claim_world \<Rightarrow> claim_world" where
  "try_mkdir i attempt cid w =
     (case cw_dir w of
        None \<Rightarrow> goto i (Writing cid) (w\<lparr>cw_dir := Some None\<rparr>)
      | Some d \<Rightarrow> goto i (Reading attempt cid) w)"

text \<open>Without the directory, \<open>writeFile\<close> fails and its error is rethrown.\<close>

definition write_claim :: "nat \<Rightarrow> nat \<Rightarrow> claim_world \<Rightarrow> claim_world" where
  "write_claim i cid w =
     (let claim = \<lparr>mc_claim_id = cid, mc_owner = i\<rparr> in
      case cw_dir w of
        None \<Rightarrow> goto i Refused w
      | Some d \<Rightarrow> goto i (Held claim) (w\<lparr>cw_dir := Some (Some claim)\<rparr>))"

definition read_existing :: "nat \<Rightarrow> nat \<Rightarrow> nat \<Rightarrow> claim_world \<Rightarrow> claim_world" where
  "read_existing i attempt cid w =
     (case cw_dir w of
        Some (Some existing) \<Rightarrow>
          if mc_owner existing = i then goto i (Held existing) w else goto i (Judging attempt cid existing) w
      | _ \<Rightarrow> goto i Refused w)"

definition judge :: "nat \<Rightarrow> nat \<Rightarrow> nat \<Rightarrow> model_claim \<Rightarrow> claim_world \<Rightarrow> claim_world" where
  "judge i attempt cid existing w =
     (if cw_alive w (mc_owner existing) then goto i Refused w else goto i (Renaming attempt cid) w)"

definition move_away :: "nat \<Rightarrow> nat \<Rightarrow> nat \<Rightarrow> claim_world \<Rightarrow> claim_world" where
  "move_away i attempt cid w = goto i (next_attempt attempt cid) (w\<lparr>cw_dir := None\<rparr>)"

definition check_release :: "nat \<Rightarrow> model_claim \<Rightarrow> claim_world \<Rightarrow> claim_world" where
  "check_release i claim w =
     (case cw_dir w of
        Some (Some current) \<Rightarrow>
          if mc_claim_id current = mc_claim_id claim then goto i (Removing claim) w else goto i Idle w
      | _ \<Rightarrow> goto i Idle w)"

datatype claim_event = Acquire nat | Continue nat | Release nat | Die nat

fun continue_call :: "nat \<Rightarrow> claim_pc \<Rightarrow> claim_world \<Rightarrow> claim_world option" where
  "continue_call i (Making attempt cid) w = Some (try_mkdir i attempt cid w)"
| "continue_call i (Writing cid) w = Some (write_claim i cid w)"
| "continue_call i (Reading attempt cid) w = Some (read_existing i attempt cid w)"
| "continue_call i (Judging attempt cid existing) w = Some (judge i attempt cid existing w)"
| "continue_call i (Renaming attempt cid) w = Some (move_away i attempt cid w)"
| "continue_call i (Checking_release claim) w = Some (check_release i claim w)"
| "continue_call i (Removing claim) w = Some (goto i Idle (w\<lparr>cw_dir := None\<rparr>))"
| "continue_call i pc w = None"

fun do_event :: "claim_event \<Rightarrow> claim_world \<Rightarrow> claim_world option" where
  "do_event (Acquire i) w =
     (if cw_alive w i \<and> (cw_pc w i = Idle \<or> cw_pc w i = Refused)
      then Some (goto i (Making 0 (cw_next w)) (w\<lparr>cw_next := Suc (cw_next w)\<rparr>)) else None)"
| "do_event (Continue i) w = (if cw_alive w i then continue_call i (cw_pc w i) w else None)"
| "do_event (Release i) w =
     (if cw_alive w i then (case cw_pc w i of Held claim \<Rightarrow> Some (goto i (Checking_release claim) w) | _ \<Rightarrow> None) else None)"
| "do_event (Die i) w =
     (if cw_alive w i then Some (w\<lparr>cw_alive := (cw_alive w)(i := False)\<rparr>) else None)"

fun run_claims :: "claim_event list \<Rightarrow> claim_world \<Rightarrow> claim_world option" where
  "run_claims [] w = Some w"
| "run_claims (e # es) w = Option.bind (do_event e w) (run_claims es)"

definition no_claims :: claim_world where
  "no_claims = \<lparr>cw_dir = None, cw_pc = (\<lambda>i. Idle), cw_alive = (\<lambda>i. True), cw_next = 0\<rparr>"

section \<open>While every owner lives, one process holds the model\<close>

inductive live_step :: "claim_world \<Rightarrow> claim_world \<Rightarrow> bool" where
  "do_event e w = Some w' \<Longrightarrow> (\<And>i. e \<noteq> Die i) \<Longrightarrow> live_step w w'"

text \<open>A process is inside when the directory is its own: from \<open>mkdir\<close> until \<open>rm\<close>.\<close>

fun inside_claim :: "claim_pc \<Rightarrow> bool" where
  "inside_claim (Writing cid) = True"
| "inside_claim (Held claim) = True"
| "inside_claim (Checking_release claim) = True"
| "inside_claim (Removing claim) = True"
| "inside_claim pc = False"

fun claim_matches :: "nat \<Rightarrow> claim_pc \<Rightarrow> model_claim option option \<Rightarrow> bool" where
  "claim_matches i (Writing cid) d = (d = Some None)"
| "claim_matches i (Held claim) d = (d = Some (Some claim) \<and> mc_owner claim = i)"
| "claim_matches i (Checking_release claim) d = (d = Some (Some claim) \<and> mc_owner claim = i)"
| "claim_matches i (Removing claim) d = (d = Some (Some claim) \<and> mc_owner claim = i)"
| "claim_matches i (Renaming attempt cid) d = False"
| "claim_matches i pc d = True"

definition claims_inv :: "claim_world \<Rightarrow> bool" where
  "claims_inv w \<longleftrightarrow>
     (\<forall>i. cw_alive w i) \<and> (\<forall>i. claim_matches i (cw_pc w i) (cw_dir w)) \<and>
     (\<forall>i j. inside_claim (cw_pc w i) \<longrightarrow> inside_claim (cw_pc w j) \<longrightarrow> i = j) \<and>
     (\<forall>c. cw_dir w = Some (Some c) \<longrightarrow> inside_claim (cw_pc w (mc_owner c)))"

lemma claim_matches_outside: "claim_matches j pc d \<Longrightarrow> \<not> inside_claim pc \<Longrightarrow> claim_matches j pc d'"
  by (cases pc) simp_all

text \<open>A step changes one process and perhaps the directory, which only a process inside touches, or one entering.\<close>

lemma claims_inv_step:
  assumes inv: "claims_inv w" and pc: "cw_pc w' = (cw_pc w)(i := p)" and alive: "cw_alive w' = cw_alive w"
    and match: "claim_matches i p (cw_dir w')"
    and excl: "(\<forall>j. j \<noteq> i \<longrightarrow> \<not> inside_claim (cw_pc w j)) \<or> cw_dir w' = cw_dir w \<and> \<not> inside_claim p"
    and owner: "\<And>c. cw_dir w' = Some (Some c) \<Longrightarrow>
      mc_owner c = i \<and> inside_claim p \<or> cw_dir w' = cw_dir w \<and> mc_owner c \<noteq> i"
  shows "claims_inv w'"
proof -
  have m: "claim_matches j (cw_pc w j) (cw_dir w)" for j using inv by (simp add: claims_inv_def)
  have one: "inside_claim (cw_pc w a) \<Longrightarrow> inside_claim (cw_pc w b) \<Longrightarrow> a = b" for a b
    using inv by (simp add: claims_inv_def)
  have o: "cw_dir w = Some (Some c) \<Longrightarrow> inside_claim (cw_pc w (mc_owner c))" for c
    using inv by (simp add: claims_inv_def)
  have "claim_matches j (cw_pc w' j) (cw_dir w')" for j
  proof (cases "j = i")
    case False
    then have "\<not> inside_claim (cw_pc w j) \<or> cw_dir w' = cw_dir w" using excl by blast
    with False m [of j] show ?thesis by (auto simp: pc intro: claim_matches_outside)
  qed (simp add: pc match)
  moreover have "a = b" if "inside_claim (cw_pc w' a)" "inside_claim (cw_pc w' b)" for a b
    using that excl one [of a b] by (auto simp: pc split: if_splits)
  moreover have "inside_claim (cw_pc w' (mc_owner c))" if "cw_dir w' = Some (Some c)" for c
    using owner [OF that] o [of c] that by (auto simp: pc)
  ultimately show ?thesis using inv alive by (auto simp: claims_inv_def)
qed

lemma claims_inv_facts:
  assumes "claims_inv w"
  shows "cw_alive w i" and "cw_pc w i \<noteq> Renaming a c"
    and "inside_claim (cw_pc w i) \<Longrightarrow> j \<noteq> i \<Longrightarrow> \<not> inside_claim (cw_pc w j)"
    and "cw_pc w i = Held claim \<or> cw_pc w i = Checking_release claim \<or> cw_pc w i = Removing claim \<Longrightarrow>
      cw_dir w = Some (Some claim) \<and> mc_owner claim = i"
    and "cw_dir w = Some (Some d) \<Longrightarrow> inside_claim (cw_pc w (mc_owner d))"
    and "cw_pc w i = Writing c \<Longrightarrow> cw_dir w = Some None"
proof -
  have m: "claim_matches i (cw_pc w i) (cw_dir w)" using assms by (simp add: claims_inv_def)
  show "cw_alive w i" using assms by (simp add: claims_inv_def)
  show "cw_pc w i \<noteq> Renaming a c" using m by auto
  show "\<not> inside_claim (cw_pc w j)" if "inside_claim (cw_pc w i)" "j \<noteq> i"
    using assms that by (auto simp: claims_inv_def)
  show "cw_dir w = Some (Some claim) \<and> mc_owner claim = i"
    if "cw_pc w i = Held claim \<or> cw_pc w i = Checking_release claim \<or> cw_pc w i = Removing claim"
    using m that by auto
  show "inside_claim (cw_pc w (mc_owner d))" if "cw_dir w = Some (Some d)"
    using assms that by (simp add: claims_inv_def)
  show "cw_dir w = Some None" if "cw_pc w i = Writing c" using m that by simp
qed

lemma nobody_inside:
  assumes "claims_inv w" "cw_dir w = None"
  shows "\<not> inside_claim (cw_pc w j)"
proof
  assume "inside_claim (cw_pc w j)"
  moreover have "claim_matches j (cw_pc w j) (cw_dir w)" using assms(1) by (simp add: claims_inv_def)
  ultimately show False using assms(2) by (cases "cw_pc w j") simp_all
qed

text \<open>A step of a process outside that leaves the directory alone and does not go in.\<close>

lemma claims_inv_outside:
  assumes inv: "claims_inv w" and "\<not> inside_claim (cw_pc w i)" and "\<not> inside_claim p"
    and "\<And>a c. p \<noteq> Renaming a c" and "w' = goto i p w"
  shows "claims_inv w'"
proof (rule claims_inv_step [OF inv, of w' i p])
  show "claim_matches i p (cw_dir w')" using assms(3,4) by (cases p) auto
  show "mc_owner c = i \<and> inside_claim p \<or> cw_dir w' = cw_dir w \<and> mc_owner c \<noteq> i"
    if "cw_dir w' = Some (Some c)" for c
  proof -
    have "cw_dir w = Some (Some c)" using that assms(5) by (simp add: goto_def)
    from claims_inv_facts(5) [OF inv this] assms(2,5) show ?thesis by (auto simp: goto_def)
  qed
qed (use assms in \<open>simp_all add: goto_def\<close>)

text \<open>A step of the process inside.\<close>

lemma claims_inv_inside:
  assumes inv: "claims_inv w" and "inside_claim (cw_pc w i)" and "claim_matches i p d"
    and "\<And>c. d = Some (Some c) \<Longrightarrow> mc_owner c = i \<and> inside_claim p"
    and "w' = goto i p (w\<lparr>cw_dir := d\<rparr>)"
  shows "claims_inv w'"
  by (rule claims_inv_step [OF inv, of w' i p])
     (use assms claims_inv_facts(3) [OF inv assms(2)] in \<open>auto simp: goto_def\<close>)

lemma claims_inv_stay:
  assumes inv: "claims_inv w" and "inside_claim (cw_pc w i)" and "claim_matches i p (cw_dir w)"
    and "inside_claim p" and "w' = goto i p w"
  shows "claims_inv w'"
proof (rule claims_inv_inside [OF inv assms(2,3)])
  show "mc_owner c = i \<and> inside_claim p" if "cw_dir w = Some (Some c)" for c
    using claims_inv_facts(3,5) [OF inv] assms(2,4) that by blast
qed (simp add: assms(5))

lemma claims_inv_continue:
  assumes inv: "claims_inv w" and step: "continue_call i (cw_pc w i) w = Some w'"
  shows "claims_inv w'"
proof (cases "cw_pc w i")
  case (Making attempt cid)
  show ?thesis
  proof (cases "cw_dir w")
    case None
    then show ?thesis using Making step nobody_inside [OF inv None]
      by (intro claims_inv_step [OF inv, of w' i "Writing cid"]) (auto simp: try_mkdir_def goto_def)
  next
    case (Some d)
    then show ?thesis using Making step
      by (intro claims_inv_outside [OF inv, of i "Reading attempt cid"]) (simp_all add: try_mkdir_def)
  qed
next
  case (Writing cid)
  then have "cw_dir w = Some None" by (rule claims_inv_facts(6) [OF inv])
  with Writing step show ?thesis
    by (intro claims_inv_inside [OF inv, of i "Held \<lparr>mc_claim_id = cid, mc_owner = i\<rparr>"
          "Some (Some \<lparr>mc_claim_id = cid, mc_owner = i\<rparr>)"]) (auto simp: write_claim_def Let_def)
next
  case (Reading attempt cid)
  show ?thesis
  proof (cases "\<exists>c. cw_dir w = Some (Some c)")
    case True
    then obtain c where c: "cw_dir w = Some (Some c)" by blast
    have "mc_owner c \<noteq> i" using claims_inv_facts(5) [OF inv c] Reading by auto
    with c Reading step show ?thesis
      by (intro claims_inv_outside [OF inv, of i "Judging attempt cid c"]) (simp_all add: read_existing_def)
  next
    case False
    then have "w' = goto i Refused w"
      using Reading step by (auto simp: read_existing_def split: option.splits)
    with Reading show ?thesis by (intro claims_inv_outside [OF inv, of i Refused]) simp_all
  qed
next
  case (Judging attempt cid c)
  with step claims_inv_facts(1) [OF inv] show ?thesis
    by (intro claims_inv_outside [OF inv, of i Refused]) (simp_all add: judge_def)
next
  case (Renaming attempt cid)
  with claims_inv_facts(2) [OF inv] show ?thesis by blast
next
  case (Checking_release claim)
  then have d: "cw_dir w = Some (Some claim)" "mc_owner claim = i" using claims_inv_facts(4) [OF inv] by blast+
  with Checking_release step show ?thesis
    by (intro claims_inv_stay [OF inv, of i "Removing claim"]) (auto simp: check_release_def)
next
  case (Removing claim)
  with step show ?thesis by (intro claims_inv_inside [OF inv, of i Idle None]) simp_all
qed (use step in simp_all)

interpretation live_claims: invariant_system "\<lambda>w. w = no_claims" live_step claims_inv
proof
  show "claims_inv s" if "s = no_claims" for s using that by (simp add: claims_inv_def no_claims_def)
  show "claims_inv t" if inv: "claims_inv s" and step: "live_step s t" for s t
    using step
  proof (cases rule: live_step.cases)
    case (1 e)
    show ?thesis
    proof (cases e)
      case (Acquire i)
      then have t: "t = goto i (Making 0 (cw_next s)) (s\<lparr>cw_next := Suc (cw_next s)\<rparr>)"
        and idle: "\<not> inside_claim (cw_pc s i)" using 1 by (auto split: if_splits)
      have "claims_inv (s\<lparr>cw_next := Suc (cw_next s)\<rparr>)" using inv by (simp add: claims_inv_def)
      from claims_inv_outside [OF this _ _ _ t] idle show ?thesis by simp
    next
      case (Continue i)
      then have "continue_call i (cw_pc s i) s = Some t" using 1 by (simp split: if_splits)
      then show ?thesis by (rule claims_inv_continue [OF inv])
    next
      case (Release i)
      then obtain claim where c: "cw_pc s i = Held claim" "t = goto i (Checking_release claim) s"
        using 1 by (auto split: if_splits claim_pc.splits)
      then show ?thesis using claims_inv_facts(4) [OF inv, of i claim]
        by (intro claims_inv_stay [OF inv, of i "Checking_release claim"]) simp_all
    next
      case (Die i)
      then show ?thesis using 1 by blast
    qed
  qed
qed

definition holds_model :: "claim_world \<Rightarrow> nat \<Rightarrow> bool" where
  "holds_model w i \<longleftrightarrow> cw_alive w i \<and> (\<exists>claim. cw_pc w i = Held claim)"


section \<open>Taking over a stale claim is not atomic\<close>

text \<open>
  Process 0 dies holding the model; 1 and 2 both find its claim stale before either moves it away.  When 2
  renames, the directory is already 1's.
\<close>

definition takeover_race :: "claim_event list" where
  "takeover_race =
     [Acquire 0, Continue 0, Continue 0, Die 0,
      Acquire 1, Continue 1, Continue 1, Continue 1,
      Acquire 2, Continue 2, Continue 2, Continue 2,
      Continue 1, Continue 1, Continue 1,
      Continue 2, Continue 2, Continue 2]"

theorem stale_takeover_race:
  "\<exists>w. run_claims takeover_race no_claims = Some w \<and> holds_model w 1 \<and> holds_model w 2"
  by (simp add: takeover_race_def no_claims_def goto_def try_mkdir_def write_claim_def read_existing_def
      Let_def judge_def move_away_def next_attempt_def MAX_ATTEMPTS_def holds_model_def)

end
