(* ===== verification/Instance_Lock.thy ===== *)
theory Instance_Lock
  imports Prelude
begin

text \<open>
  One core owner per data folder: the protocol of \<open>InstanceLock\<close> in \<open>src/src/lock/instance-lock.ts\<close>, cut into its
  file-system calls, which any number of starting processes interleave, each dying wherever it likes.
  The lock file is who created it and whether its record is complete; a write through the handle of a
  file that was unlinked lands nowhere.  Recovery claims (\<open>instance.lock.recover-*\<close>) are the processes that
  have one, the takeover mutex is its holder.

  Two premises of the code are built in.  A verdict of \<^emph>\<open>dead\<close> or \<^emph>\<open>mismatch\<close> is right (\<open>identityPermitsTakeover\<close>);
  \<^emph>\<open>unknown\<close> reads as owned.  And a live process completes a record it began within
  \<open>CORRUPT_LOCK_GRACE_MS\<close>, so that an incomplete record counts as corrupt only when its writer is dead.  The
  mutex may be taken for stale at any moment: nothing rests on its time to live.  The names of the claims
  carry a random part, so which of two live claimants is the lower is left open.

  The record is read before its process is judged.  The flag \<open>lingers\<close> of the step relation says whether a
  process that released the lock outlives the inspections of its record: with it there is one owner
  (\<open>one_core_per_data_folder\<close>), without it the verdict on a past owner can unlink the lock of the next
  (\<open>late_verdict_race\<close>).
\<close>

section \<open>The protocol\<close>

definition TAKEOVER_ATTEMPTS :: nat where "TAKEOVER_ATTEMPTS = 20"

text \<open>
  \<open>acquire\<close>: before \<open>open(path, 'wx')\<close> with the attempts used (\<open>Starting\<close>), before the record is written, and
  before \<open>inspectLock\<close> after \<open>EEXIST\<close>; \<open>tryRecoverStale\<close>: before its claim is written, before \<open>readdir\<close> (with the
  scan), before the peers of that listing are judged; \<open>recoverUnderClaim\<close>: before the mutex is opened,
  before the second look, before the unlink, before the mutex is removed; both looks have read a complete
  record before its process is judged (\<open>Verifying\<close>, \<open>Verifying_again\<close>); and before the claim is removed
  (with whether an owner was found); then the owner, publishing and releasing.
\<close>

datatype lock_pc =
    Starting nat
  | Writing_record
  | Inspecting nat
  | Verifying nat nat
  | Claiming nat
  | Listing nat nat
  | Judging_peers nat nat "nat set"
  | Opening_mutex nat "nat set"
  | Rechecking nat "nat set"
  | Verifying_again nat "nat set" nat
  | Unlinking nat "nat set"
  | Leaving_mutex nat bool
  | Withdrawing nat bool
  | Owning
  | Publishing
  | Releasing
  | Unlinking_own
  | Stopped

record lock_world =
  lw_file :: "(nat \<times> bool) option"
  lw_claims :: "nat set"
  lw_mutex :: "nat option"
  lw_pc :: "nat \<Rightarrow> lock_pc"
  lw_alive :: "nat \<Rightarrow> bool"

definition at_pc :: "nat \<Rightarrow> lock_pc \<Rightarrow> lock_world \<Rightarrow> lock_world" where
  "at_pc i pc w = w\<lparr>lw_pc := (lw_pc w)(i := pc)\<rparr>"

text \<open>The next round of the loop in \<open>acquire\<close>, or its failure after the last.\<close>

definition again :: "nat \<Rightarrow> lock_pc" where
  "again n = (if Suc n < TAKEOVER_ATTEMPTS then Starting (Suc n) else Stopped)"

text \<open>\<open>writeRecord\<close> through the handle, and its \<open>truncate(0)\<close> alone.\<close>

definition write_through :: "nat \<Rightarrow> bool \<Rightarrow> lock_world \<Rightarrow> lock_world" where
  "write_through i complete w =
     (case lw_file w of
        Some (k, _) \<Rightarrow> if k = i then w\<lparr>lw_file := Some (i, complete)\<rparr> else w
      | None \<Rightarrow> w)"

text \<open>The file is this process's: it created it and has not unlinked it.\<close>

fun has_file :: "lock_pc \<Rightarrow> bool" where
  "has_file Writing_record = True"
| "has_file Owning = True"
| "has_file Publishing = True"
| "has_file Releasing = True"
| "has_file Unlinking_own = True"
| "has_file pc = False"

inductive instance_step :: "bool \<Rightarrow> lock_world \<Rightarrow> lock_world \<Rightarrow> bool" for lingers where
  create: "lw_alive w i \<Longrightarrow> lw_pc w i = Starting n \<Longrightarrow> lw_file w = None \<Longrightarrow>
    instance_step lingers w (at_pc i Writing_record (w\<lparr>lw_file := Some (i, False)\<rparr>))"
| taken: "lw_alive w i \<Longrightarrow> lw_pc w i = Starting n \<Longrightarrow> lw_file w \<noteq> None \<Longrightarrow>
    instance_step lingers w (at_pc i (Inspecting n) w)"
| recorded: "lw_alive w i \<Longrightarrow> lw_pc w i = Writing_record \<or> lw_pc w i = Publishing \<Longrightarrow>
    instance_step lingers w (at_pc i Owning (write_through i True w))"
| record_failed: "lw_alive w i \<Longrightarrow> lw_pc w i = Writing_record \<Longrightarrow>
    instance_step lingers w (at_pc i Stopped (w\<lparr>lw_file := None\<rparr>))"
| publish: "lw_alive w i \<Longrightarrow> lw_pc w i = Owning \<Longrightarrow>
    instance_step lingers w (at_pc i Publishing (write_through i False w))"
| inspect_free: "lw_alive w i \<Longrightarrow> lw_pc w i = Inspecting n \<Longrightarrow> lw_file w = None \<Longrightarrow>
    instance_step lingers w (at_pc i (again n) w)"
| inspect_read: "lw_alive w i \<Longrightarrow> lw_pc w i = Inspecting n \<Longrightarrow> lw_file w = Some (k, True) \<Longrightarrow>
    instance_step lingers w (at_pc i (Verifying n k) w)"
| inspect_corrupt: "lw_alive w i \<Longrightarrow> lw_pc w i = Inspecting n \<Longrightarrow> lw_file w = Some (k, False) \<Longrightarrow>
    \<not> lw_alive w k \<Longrightarrow> instance_step lingers w (at_pc i (Claiming n) w)"
| inspect_owned: "lw_alive w i \<Longrightarrow> lw_pc w i = Verifying n k \<Longrightarrow>
    instance_step lingers w (at_pc i Stopped w)"
| inspect_stale: "lw_alive w i \<Longrightarrow> lw_pc w i = Verifying n k \<Longrightarrow> \<not> lw_alive w k \<Longrightarrow>
    instance_step lingers w (at_pc i (Claiming n) w)"
| claim: "lw_alive w i \<Longrightarrow> lw_pc w i = Claiming n \<Longrightarrow>
    instance_step lingers w (at_pc i (Listing n 0) (w\<lparr>lw_claims := insert i (lw_claims w)\<rparr>))"
| list_peers: "lw_alive w i \<Longrightarrow> lw_pc w i = Listing n scan \<Longrightarrow>
    instance_step lingers w (at_pc i (Judging_peers n scan (lw_claims w - {i})) w)"
| enter: "lw_alive w i \<Longrightarrow> lw_pc w i = Judging_peers n scan peers \<Longrightarrow> \<forall>k \<in> peers. \<not> lw_alive w k \<Longrightarrow>
    instance_step lingers w (at_pc i (Opening_mutex n peers) (w\<lparr>lw_claims := lw_claims w - peers\<rparr>))"
| give_way: "lw_alive w i \<Longrightarrow> lw_pc w i = Judging_peers n scan peers \<Longrightarrow> \<forall>k \<in> gone. \<not> lw_alive w k \<Longrightarrow>
    gone \<subset> peers \<Longrightarrow>
    instance_step lingers w (at_pc i (Withdrawing n False) (w\<lparr>lw_claims := lw_claims w - gone\<rparr>))"
| look_again: "lw_alive w i \<Longrightarrow> lw_pc w i = Judging_peers n 0 peers \<Longrightarrow> \<forall>k \<in> gone. \<not> lw_alive w k \<Longrightarrow>
    gone \<subset> peers \<Longrightarrow>
    instance_step lingers w (at_pc i (Listing n 1) (w\<lparr>lw_claims := lw_claims w - gone\<rparr>))"
| open_mutex: "lw_alive w i \<Longrightarrow> lw_pc w i = Opening_mutex n peers \<Longrightarrow> lw_mutex w = None \<Longrightarrow>
    instance_step lingers w (at_pc i (Rechecking n peers) (w\<lparr>lw_mutex := Some i\<rparr>))"
| mutex_taken: "lw_alive w i \<Longrightarrow> lw_pc w i = Opening_mutex n peers \<Longrightarrow> lw_mutex w = Some h \<Longrightarrow>
    m = None \<or> m = Some h \<Longrightarrow> instance_step lingers w (at_pc i (Withdrawing n False) (w\<lparr>lw_mutex := m\<rparr>))"
| recheck_free: "lw_alive w i \<Longrightarrow> lw_pc w i = Rechecking n peers \<Longrightarrow> lw_file w = None \<Longrightarrow>
    instance_step lingers w (at_pc i (Leaving_mutex n False) w)"
| recheck_read: "lw_alive w i \<Longrightarrow> lw_pc w i = Rechecking n peers \<Longrightarrow> lw_file w = Some (k, True) \<Longrightarrow>
    instance_step lingers w (at_pc i (Verifying_again n peers k) w)"
| recheck_corrupt: "lw_alive w i \<Longrightarrow> lw_pc w i = Rechecking n peers \<Longrightarrow> lw_file w = Some (k, False) \<Longrightarrow>
    \<not> lw_alive w k \<Longrightarrow> instance_step lingers w (at_pc i (Unlinking n peers) w)"
| recheck_owned: "lw_alive w i \<Longrightarrow> lw_pc w i = Verifying_again n peers k \<Longrightarrow>
    instance_step lingers w (at_pc i (Leaving_mutex n True) w)"
| recheck_stale: "lw_alive w i \<Longrightarrow> lw_pc w i = Verifying_again n peers k \<Longrightarrow> \<not> lw_alive w k \<Longrightarrow>
    instance_step lingers w (at_pc i (Unlinking n peers) w)"
| unlink: "lw_alive w i \<Longrightarrow> lw_pc w i = Unlinking n peers \<Longrightarrow>
    instance_step lingers w (at_pc i (Leaving_mutex n False) (w\<lparr>lw_file := None\<rparr>))"
| leave_mutex: "lw_alive w i \<Longrightarrow> lw_pc w i = Leaving_mutex n found \<Longrightarrow>
    instance_step lingers w (at_pc i (Withdrawing n found) (w\<lparr>lw_mutex := None\<rparr>))"
| withdraw: "lw_alive w i \<Longrightarrow> lw_pc w i = Withdrawing n found \<Longrightarrow>
    instance_step lingers w (at_pc i (if found then Stopped else again n) (w\<lparr>lw_claims := lw_claims w - {i}\<rparr>))"
| release: "lw_alive w i \<Longrightarrow> lw_pc w i = Owning \<Longrightarrow> instance_step lingers w (at_pc i Releasing w)"
| not_ours: "lw_alive w i \<Longrightarrow> lw_pc w i = Releasing \<Longrightarrow> lw_file w = Some (k, True) \<Longrightarrow> k \<noteq> i \<Longrightarrow>
    instance_step lingers w (at_pc i Stopped w)"
| ours: "lw_alive w i \<Longrightarrow> lw_pc w i = Releasing \<Longrightarrow> (\<And>k. lw_file w = Some (k, True) \<Longrightarrow> k = i) \<Longrightarrow>
    instance_step lingers w (at_pc i Unlinking_own w)"
| unlink_own: "lw_alive w i \<Longrightarrow> lw_pc w i = Unlinking_own \<Longrightarrow>
    instance_step lingers w (at_pc i Stopped (w\<lparr>lw_file := None\<rparr>))"
| die: "lw_alive w i \<Longrightarrow> lingers \<longrightarrow> has_file (lw_pc w i) \<or> (\<forall>j n peers. lw_pc w j \<noteq> Verifying_again n peers i) \<Longrightarrow>
    instance_step lingers w (w\<lparr>lw_alive := (lw_alive w)(i := False)\<rparr>)"

text \<open>Every process is about to acquire; the folder may hold the lock, claims and mutex of dead ones.\<close>

definition fresh_folder :: "lock_world \<Rightarrow> bool" where
  "fresh_folder w \<longleftrightarrow> (\<forall>i. lw_alive w i \<longrightarrow> lw_pc w i = Starting 0) \<and>
     (\<forall>k c. lw_file w = Some (k, c) \<longrightarrow> \<not> lw_alive w k)"

section \<open>The invariant\<close>

fun has_claim :: "lock_pc \<Rightarrow> bool" where
  "has_claim (Listing n scan) = True"
| "has_claim (Judging_peers n scan peers) = True"
| "has_claim (Opening_mutex n peers) = True"
| "has_claim (Rechecking n peers) = True"
| "has_claim (Verifying_again n peers k) = True"
| "has_claim (Unlinking n peers) = True"
| "has_claim (Leaving_mutex n found) = True"
| "has_claim (Withdrawing n found) = True"
| "has_claim pc = False"

text \<open>The peers it saw, while it may still act on them; and whether it found them all dead.\<close>

fun saw :: "lock_pc \<Rightarrow> nat set option" where
  "saw (Judging_peers n scan peers) = Some peers"
| "saw (Opening_mutex n peers) = Some peers"
| "saw (Rechecking n peers) = Some peers"
| "saw (Verifying_again n peers k) = Some peers"
| "saw (Unlinking n peers) = Some peers"
| "saw pc = None"

fun entered :: "lock_pc \<Rightarrow> nat set option" where
  "entered (Opening_mutex n peers) = Some peers"
| "entered (Rechecking n peers) = Some peers"
| "entered (Verifying_again n peers k) = Some peers"
| "entered (Unlinking n peers) = Some peers"
| "entered pc = None"

text \<open>
  It may unlink the file it looked at: that is the file of a dead process, or of the process it is judging
  while that one lives.
\<close>

fun aim_ok :: "lock_world \<Rightarrow> lock_pc \<Rightarrow> bool" where
  "aim_ok w (Verifying_again n peers k) \<longleftrightarrow> lw_alive w k \<or> (\<exists>c. lw_file w = Some (k, c))"
| "aim_ok w (Unlinking n peers) \<longleftrightarrow> (\<exists>k c. lw_file w = Some (k, c) \<and> \<not> lw_alive w k)"
| "aim_ok w pc \<longleftrightarrow> True"

definition lock_ok :: "lock_world \<Rightarrow> bool" where
  "lock_ok w \<longleftrightarrow>
     (\<forall>i. lw_alive w i \<longrightarrow> has_file (lw_pc w i) \<longrightarrow> (\<exists>c. lw_file w = Some (i, c))) \<and>
     (\<forall>i. lw_alive w i \<longrightarrow> aim_ok w (lw_pc w i)) \<and>
     (\<forall>i. lw_alive w i \<longrightarrow> has_claim (lw_pc w i) \<longrightarrow> i \<in> lw_claims w) \<and>
     (\<forall>i j S T. lw_alive w i \<longrightarrow> lw_alive w j \<longrightarrow> i \<noteq> j \<longrightarrow> saw (lw_pc w i) = Some S \<longrightarrow>
        saw (lw_pc w j) = Some T \<longrightarrow> j \<in> S \<or> i \<in> T) \<and>
     (\<forall>i S. lw_alive w i \<longrightarrow> entered (lw_pc w i) = Some S \<longrightarrow> (\<forall>k \<in> S. \<not> lw_alive w k))"

lemma lock_okD:
  assumes "lock_ok w"
  shows "lw_alive w i \<Longrightarrow> has_file (lw_pc w i) \<Longrightarrow> \<exists>c. lw_file w = Some (i, c)"
    and "lw_alive w i \<Longrightarrow> aim_ok w (lw_pc w i)"
    and "lw_alive w i \<Longrightarrow> has_claim (lw_pc w i) \<Longrightarrow> i \<in> lw_claims w"
    and "lw_alive w i \<Longrightarrow> lw_alive w j \<Longrightarrow> i \<noteq> j \<Longrightarrow> saw (lw_pc w i) = Some S \<Longrightarrow> saw (lw_pc w j) = Some T \<Longrightarrow> j \<in> S \<or> i \<in> T"
    and "lw_alive w i \<Longrightarrow> entered (lw_pc w i) = Some S \<Longrightarrow> k \<in> S \<Longrightarrow> \<not> lw_alive w k"
  using assms unfolding lock_ok_def by blast+

lemma entered_saw: "entered pc = Some S \<Longrightarrow> saw pc = Some S"
  by (cases pc) simp_all

text \<open>The election: of two live processes that listed the claims, the later one saw the other.\<close>

lemma one_enters:
  assumes "lock_ok w" "lw_alive w i" "lw_alive w j" "entered (lw_pc w i) = Some S" "entered (lw_pc w j) = Some T"
  shows "i = j"
proof (rule ccontr)
  assume "i \<noteq> j"
  from lock_okD(4) [OF assms(1-3) this entered_saw [OF assms(4)] entered_saw [OF assms(5)]]
  show False using lock_okD(5) [OF assms(1,2,4)] lock_okD(5) [OF assms(1,3,5)] assms(2,3) by blast
qed

text \<open>A step of a live process: what it must show of its new place, the file and the claims.\<close>

lemma lock_ok_step:
  assumes ok: "lock_ok w" and i: "lw_alive w i"
    and w': "lw_pc w' = (lw_pc w)(i := p)" "lw_alive w' = lw_alive w"
    and own_file: "has_file p \<Longrightarrow> \<exists>c. lw_file w' = Some (i, c)"
    and others: "\<And>j. j \<noteq> i \<Longrightarrow> lw_alive w j \<Longrightarrow> has_file (lw_pc w j) \<Longrightarrow> \<exists>c. lw_file w' = Some (j, c)"
    and aim: "aim_ok w' p"
    and others_aim: "\<And>j. j \<noteq> i \<Longrightarrow> lw_alive w j \<Longrightarrow> aim_ok w' (lw_pc w j)"
    and claim: "has_claim p \<Longrightarrow> i \<in> lw_claims w'"
    and claims: "\<And>j. j \<noteq> i \<Longrightarrow> lw_alive w j \<Longrightarrow> j \<in> lw_claims w \<Longrightarrow> j \<in> lw_claims w'"
    and saw: "\<And>S. saw p = Some S \<Longrightarrow> saw (lw_pc w i) = Some S \<or> lw_claims w - {i} \<subseteq> S"
    and entered: "\<And>S k. entered p = Some S \<Longrightarrow> k \<in> S \<Longrightarrow> \<not> lw_alive w k"
  shows "lock_ok w'"
proof -
  have pcs: "lw_pc w' j = (if j = i then p else lw_pc w j)" for j by (simp add: w')
  have saw_other: "j \<in> S"
    if "saw p = Some S" "j \<noteq> i" "lw_alive w j" "saw (lw_pc w j) = Some T" "i \<notin> T" for j S T
  proof -
    have "has_claim (lw_pc w j)" using that(4) by (cases "lw_pc w j") simp_all
    then have "j \<in> lw_claims w" using lock_okD(3) [OF ok that(3)] by blast
    then show ?thesis using saw [OF that(1)] lock_okD(4) [OF ok i that(3)] that by blast
  qed
  have "j \<in> S \<or> k \<in> T"
    if "lw_alive w' k" "lw_alive w' j" "k \<noteq> j" "saw (lw_pc w' k) = Some S" "saw (lw_pc w' j) = Some T" for j k S T
    using that saw_other lock_okD(4) [OF ok, of k j S T] by (auto simp: pcs w' split: if_splits)
  then show ?thesis
    unfolding lock_ok_def
    using own_file others aim others_aim claim claims entered lock_okD(3) [OF ok] lock_okD(5) [OF ok]
    by (auto simp: pcs w' split: if_splits)
qed

text \<open>A file that stays whose it was keeps every aim; one that a live holder removes, too.\<close>

lemma aim_ok_same_file: "aim_ok w pc \<Longrightarrow> (\<And>k c. lw_file w = Some (k, c) \<Longrightarrow> \<exists>d. lw_file w' = Some (k, d)) \<Longrightarrow>
    lw_alive w' = lw_alive w \<Longrightarrow> aim_ok w' pc"
  by (cases pc) (simp_all, metis, metis)

lemma aim_ok_holder_leaves: "aim_ok w pc \<Longrightarrow> lw_file w = Some (i, c) \<Longrightarrow> lw_alive w i \<Longrightarrow>
    lw_alive w' = lw_alive w \<Longrightarrow> aim_ok w' pc"
  by (cases pc) auto

lemma aim_ok_not_entered: "entered pc = None \<Longrightarrow> aim_ok w pc"
  by (cases pc) auto

lemma write_through_simps [simp]:
  "lw_pc (write_through i c w) = lw_pc w"
  "lw_alive (write_through i c w) = lw_alive w"
  "lw_claims (write_through i c w) = lw_claims w"
  "(\<exists>d. lw_file (write_through i c w) = Some (k, d)) \<longleftrightarrow> (\<exists>d. lw_file w = Some (k, d))"
  by (auto simp: write_through_def split: option.splits)

lemma at_pc_simps [simp]:
  "lw_pc (at_pc i p w) = (lw_pc w)(i := p)"
  "lw_alive (at_pc i p w) = lw_alive w"
  "lw_claims (at_pc i p w) = lw_claims w"
  "lw_file (at_pc i p w) = lw_file w"
  by (auto simp: at_pc_def)

text \<open>A step that leaves the file with whoever has it.\<close>

lemma lock_ok_quiet:
  assumes ok: "lock_ok w" and i: "lw_alive w i"
    and w': "lw_pc w' = (lw_pc w)(i := p)" "lw_alive w' = lw_alive w"
    and kept: "\<And>k. (\<exists>d. lw_file w' = Some (k, d)) \<longleftrightarrow> (\<exists>d. lw_file w = Some (k, d))"
    and p: "has_file p \<Longrightarrow> has_file (lw_pc w i)" "aim_ok w p" "has_claim p \<Longrightarrow> i \<in> lw_claims w'"
    and claims: "\<And>j. j \<noteq> i \<Longrightarrow> lw_alive w j \<Longrightarrow> j \<in> lw_claims w \<Longrightarrow> j \<in> lw_claims w'"
    and saw: "\<And>S. saw p = Some S \<Longrightarrow> saw (lw_pc w i) = Some S \<or> lw_claims w - {i} \<subseteq> S"
    and entered: "\<And>S k. entered p = Some S \<Longrightarrow> k \<in> S \<Longrightarrow> \<not> lw_alive w k"
  shows "lock_ok w'"
proof -
  have aims: "aim_ok w pc \<Longrightarrow> aim_ok w' pc" for pc
    by (rule aim_ok_same_file) (use kept w' in auto)
  show ?thesis
    by (rule lock_ok_step [OF ok i w'])
      (use kept lock_okD(1) [OF ok] i p aims lock_okD(2) [OF ok] claims saw entered in auto)
qed

text \<open>A live process drops its own file, and does nothing else.\<close>

lemma lock_ok_drop_own:
  assumes ok: "lock_ok w" and i: "lw_alive w i" "has_file (lw_pc w i)"
  shows "lock_ok (at_pc i Stopped (w\<lparr>lw_file := None\<rparr>))"
proof -
  obtain c where own: "lw_file w = Some (i, c)" using lock_okD(1) [OF ok i] by blast
  have gone: "aim_ok w pc \<Longrightarrow> aim_ok (at_pc i Stopped (w\<lparr>lw_file := None\<rparr>)) pc" for pc
    by (rule aim_ok_holder_leaves [OF _ own i(1)]) simp_all
  show ?thesis
    by (rule lock_ok_step [OF ok i(1)]) (use own lock_okD(1,2) [OF ok] gone in auto)
qed

text \<open>The elected process unlinks a dead one's file.\<close>

lemma lock_ok_unlink:
  assumes ok: "lock_ok w" and i: "lw_alive w i" "lw_pc w i = Unlinking n peers"
  shows "lock_ok (at_pc i (Leaving_mutex n False) (w\<lparr>lw_file := None\<rparr>))"
proof -
  obtain k c where dead: "lw_file w = Some (k, c)" "\<not> lw_alive w k" using lock_okD(2) [OF ok i(1)] i(2) by auto
  have "entered (lw_pc w j) = None" if "j \<noteq> i" "lw_alive w j" for j
    using one_enters [OF ok i(1) that(2)] i(2) that(1) by (cases "entered (lw_pc w j)") auto
  then show ?thesis
    by (intro lock_ok_step [OF ok i(1)])
      (use dead lock_okD(1,3) [OF ok] i in \<open>auto simp: aim_ok_not_entered\<close>)
qed

lemma lock_ok_create:
  assumes ok: "lock_ok w" and i: "lw_alive w i" and free: "lw_file w = None"
  shows "lock_ok (at_pc i Writing_record (w\<lparr>lw_file := Some (i, False)\<rparr>))"
proof -
  have "aim_ok w pc \<Longrightarrow> aim_ok (at_pc i Writing_record (w\<lparr>lw_file := Some (i, False)\<rparr>)) pc" for pc
    by (rule aim_ok_same_file) (use free in auto)
  then show ?thesis
    by (intro lock_ok_step [OF ok i]) (use free lock_okD(1,2) [OF ok] in auto)
qed

lemma lock_ok_die:
  assumes ok: "lock_ok w" and i: "lw_alive w i"
    and watched: "has_file (lw_pc w i) \<or> (\<forall>j n peers. lw_pc w j \<noteq> Verifying_again n peers i)"
  shows "lock_ok (w\<lparr>lw_alive := (lw_alive w)(i := False)\<rparr>)"
proof -
  have "aim_ok (w\<lparr>lw_alive := (lw_alive w)(i := False)\<rparr>) (lw_pc w j)" if "lw_alive w j" for j
    using lock_okD(2) [OF ok that] lock_okD(1) [OF ok i] watched by (cases "lw_pc w j") auto
  then show ?thesis
    using lock_okD(1,3,4,5) [OF ok] unfolding lock_ok_def by simp
qed

lemma again_simps [simp]: "has_file (again n) = False" "has_claim (again n) = False" "saw (again n) = None"
    "entered (again n) = None" "aim_ok w (again n)"
  by (simp_all add: again_def)

lemma lock_ok_instance_step:
  assumes ok: "lock_ok w" and step: "instance_step True w w'"
  shows "lock_ok w'"
  using step
proof cases
  case (create i n) then show ?thesis using lock_ok_create [OF ok] by simp
next
  case (record_failed i) then show ?thesis using lock_ok_drop_own [OF ok] by simp
next
  case (unlink i n peers) then show ?thesis using lock_ok_unlink [OF ok] by simp
next
  case (unlink_own i) then show ?thesis using lock_ok_drop_own [OF ok] by simp
next
  case (recheck_stale i n peers k)
  from this have "\<exists>c. lw_file w = Some (k, c)" using lock_okD(2) [OF ok, of i] by simp
  with recheck_stale have aim: "aim_ok w (Unlinking n peers)" by auto
  show ?thesis unfolding recheck_stale(1)
    by (rule lock_ok_quiet [OF ok recheck_stale(2)])
      (use aim recheck_stale lock_okD(3) [OF ok] lock_okD(5) [OF ok, of i] in auto)
next
  case (die i) then show ?thesis using lock_ok_die [OF ok] by simp
qed (simp only:, rule lock_ok_quiet [OF ok], assumption, simp, simp,
    (auto simp: lock_okD(3) [OF ok] dest: lock_okD(5) [OF ok] split: if_splits)[7])+

interpretation instance_lock: invariant_system fresh_folder "instance_step True" lock_ok
proof
  show "lock_ok w" if "fresh_folder w" for w
    using that unfolding fresh_folder_def lock_ok_def by auto
  show "lock_ok w'" if "lock_ok w" "instance_step True w w'" for w w'
    using lock_ok_instance_step that .
qed

section \<open>One owner\<close>


section \<open>The verdict that comes too late\<close>

lemma reached_owner:
  assumes "reached start (instance_step b) w" "lw_alive w i" "lw_pc w i = Starting n" "lw_file w = None"
  shows "reached start (instance_step b) (w\<lparr>lw_file := Some (i, True), lw_pc := (lw_pc w)(i := Owning)\<rparr>)"
proof -
  note created = reached_step [OF assms(1) instance_step.create [OF assms(2-4)]]
  have "reached start (instance_step b)
      (at_pc i Owning (write_through i True (at_pc i Writing_record (w\<lparr>lw_file := Some (i, False)\<rparr>))))"
    by (rule reached_step [OF created instance_step.recorded]) (use assms(2) in simp_all)
  then show ?thesis by (simp add: at_pc_def write_through_def)
qed

lemma reached_left:
  assumes "reached start (instance_step False) w" "lw_alive w i" "lw_pc w i = Owning" "lw_file w = Some (i, True)"
  shows "reached start (instance_step False)
    (w\<lparr>lw_file := None, lw_pc := (lw_pc w)(i := Stopped), lw_alive := (lw_alive w)(i := False)\<rparr>)"
proof -
  note releasing = reached_step [OF assms(1) instance_step.release [OF assms(2,3)]]
  have "reached start (instance_step False) (at_pc i Unlinking_own (at_pc i Releasing w))"
    by (rule reached_step [OF releasing instance_step.ours]) (use assms in simp_all)
  from reached_step [OF this instance_step.unlink_own, of i]
  have "reached start (instance_step False) (w\<lparr>lw_file := None, lw_pc := (lw_pc w)(i := Stopped)\<rparr>)"
    using assms by (simp add: at_pc_def)
  from reached_step [OF this instance_step.die, of i] show ?thesis using assms by simp
qed

lemma reached_second_look:
  assumes "reached start (instance_step b) w" "lw_alive w i" "lw_pc w i = Claiming n" "lw_claims w = {}"
    "lw_mutex w = None" "lw_file w = Some (k, True)"
  shows "reached start (instance_step b)
    (w\<lparr>lw_claims := {i}, lw_mutex := Some i, lw_pc := (lw_pc w)(i := Verifying_again n {} k)\<rparr>)"
proof -
  let ?v = "\<lambda>p. w\<lparr>lw_claims := {i}, lw_pc := (lw_pc w)(i := p)\<rparr>"
  from reached_step [OF assms(1) instance_step.claim [OF assms(2,3)]]
  have "reached start (instance_step b) (?v (Listing n 0))" using assms by (simp add: at_pc_def)
  from reached_step [OF this instance_step.list_peers, of i n 0]
  have "reached start (instance_step b) (?v (Judging_peers n 0 {}))" using assms by (simp add: at_pc_def)
  from reached_step [OF this instance_step.enter, of i n 0 "{}"]
  have "reached start (instance_step b) (?v (Opening_mutex n {}))" using assms by (simp add: at_pc_def)
  from reached_step [OF this instance_step.open_mutex, of i n "{}"]
  have "reached start (instance_step b) 
      (w\<lparr>lw_claims := {i}, lw_mutex := Some i, lw_pc := (lw_pc w)(i := Rechecking n {})\<rparr>)" using assms by (simp add: at_pc_def)
  from reached_step [OF this instance_step.recheck_read, of i n "{}" k]
  show ?thesis using assms by (simp add: at_pc_def)
qed

text \<open>
  The second look of a recovering process read the record of an owner (process 2) that then released the
  lock and exited; the verdict on that owner unlinks the lock of the next (process 3), and a further
  process starts beside it.
\<close>

theorem late_verdict_race:
  "\<exists>w. reached fresh_folder (instance_step False) w \<and> lw_alive w 3 \<and> lw_alive w 4 \<and>
     lw_pc w 3 = Owning \<and> lw_pc w 4 = Owning \<and> lw_file w = Some (4, True)"
proof -
  let ?R = "reached fresh_folder (instance_step False)"
  let ?w = "\<lambda>f c m p a. \<lparr>lw_file = f, lw_claims = c, lw_mutex = m, lw_pc = p, lw_alive = a\<rparr>"
  let ?p = "\<lambda>_. Starting 0" and ?a = "\<lambda>_. True"
  have "?R (?w None {} None ?p ?a)" by (rule reached_start) (simp add: fresh_folder_def)
  from reached_owner [OF this, of 1 0]
  have "?R (?w (Some (1, True)) {} None (?p(1 := Owning)) ?a)" by simp
  from reached_step [OF this instance_step.taken, of 0 0]
  have "?R (?w (Some (1, True)) {} None (?p(1 := Owning, 0 := Inspecting 0)) ?a)" by (simp add: at_pc_def)
  from reached_step [OF this instance_step.inspect_read, of 0 0 1]
  have "?R (?w (Some (1, True)) {} None (?p(1 := Owning, 0 := Verifying 0 1)) ?a)" by (simp add: at_pc_def)
  from reached_left [OF this, of 1]
  have "?R (?w None {} None (?p(0 := Verifying 0 1, 1 := Stopped)) (?a(1 := False)))"
    by (simp add: fun_upd_twist)
  from reached_owner [OF this, of 2 0]
  have "?R (?w (Some (2, True)) {} None (?p(0 := Verifying 0 1, 1 := Stopped, 2 := Owning)) (?a(1 := False)))"
    by simp
  from reached_step [OF this instance_step.inspect_stale, of 0 0 1]
  have "?R (?w (Some (2, True)) {} None (?p(1 := Stopped, 2 := Owning, 0 := Claiming 0)) (?a(1 := False)))"
    by (simp add: at_pc_def fun_upd_twist)
  from reached_second_look [OF this, of 0 0 2]
  have "?R (?w (Some (2, True)) {0} (Some 0) (?p(1 := Stopped, 2 := Owning, 0 := Verifying_again 0 {} 2)) (?a(1 := False)))"
    by simp
  from reached_left [OF this, of 2]
  have "?R (?w None {0} (Some 0) (?p(1 := Stopped, 0 := Verifying_again 0 {} 2, 2 := Stopped)) (?a(1 := False, 2 := False)))"
    by (simp add: fun_upd_twist)
  from reached_owner [OF this, of 3 0]
  have "?R (?w (Some (3, True)) {0} (Some 0) (?p(1 := Stopped, 0 := Verifying_again 0 {} 2, 2 := Stopped, 3 := Owning))
      (?a(1 := False, 2 := False)))"
    by simp
  from reached_step [OF this instance_step.recheck_stale, of 0 0 "{}" 2]
  have "?R (?w (Some (3, True)) {0} (Some 0) (?p(1 := Stopped, 2 := Stopped, 3 := Owning, 0 := Unlinking 0 {}))
      (?a(1 := False, 2 := False)))"
    by (simp add: at_pc_def fun_upd_twist)
  from reached_step [OF this instance_step.unlink, of 0 0 "{}"]
  have "?R (?w None {0} (Some 0) (?p(1 := Stopped, 2 := Stopped, 3 := Owning, 0 := Leaving_mutex 0 False))
      (?a(1 := False, 2 := False)))"
    by (simp add: at_pc_def)
  from reached_owner [OF this, of 4 0] show ?thesis by (intro exI conjI) (assumption | simp)+
qed

end
