(* ===== verification/Load_Cancel.thy ===== *)
theory Load_Cancel
  imports Prelude "HOL-Library.AList"
begin

text \<open>
  Cancelling a load before its engine is ready (\<open>LoadCancelRegistry\<close> of
  \<open>src/src/runtime/shared/load-cancel.ts\<close>).  An entry is shared by every pending load of a key, so entries
  and the handles that point at them are lists, and an index is the reference: \<open>loads.get(key) === held\<close>
  compares indices.
\<close>

section \<open>The registry\<close>

record load_entry =
  le_aborted :: bool
  le_holders :: nat

record load_handle =
  lh_key :: string
  lh_entry :: nat
  lh_released :: bool

record load_registry =
  rg_loads :: "(string \<times> nat) list"
  rg_entries :: "load_entry list"
  rg_handles :: "load_handle list"

definition empty_registry :: load_registry where
  "empty_registry = \<lparr>rg_loads = [], rg_entries = [], rg_handles = []\<rparr>"

text \<open>The entry a new load joins: the key's, unless it was cancelled, else a fresh one.\<close>

definition entry_for :: "string \<Rightarrow> load_registry \<Rightarrow> nat \<times> load_registry" where
  "entry_for key reg =
     (let fresh = (length (rg_entries reg),
            reg\<lparr>rg_loads := AList.update key (length (rg_entries reg)) (rg_loads reg),
                rg_entries := rg_entries reg @ [\<lparr>le_aborted = False, le_holders = 0\<rparr>]\<rparr>) in
      case map_of (rg_loads reg) key of
        None \<Rightarrow> fresh
      | Some e \<Rightarrow> if le_aborted (rg_entries reg ! e) then fresh else (e, reg))"

definition hold :: "int \<Rightarrow> nat \<Rightarrow> load_registry \<Rightarrow> load_registry" where
  "hold d e reg = reg\<lparr>rg_entries := (rg_entries reg)[e := (rg_entries reg ! e)
     \<lparr>le_holders := nat (int (le_holders (rg_entries reg ! e)) + d)\<rparr>]\<rparr>"

definition register :: "string \<Rightarrow> load_registry \<Rightarrow> nat \<times> load_registry" where
  "register key reg =
     (case entry_for key reg of
        (e, reg') \<Rightarrow>
          (length (rg_handles reg'),
           (hold 1 e reg')\<lparr>rg_handles := rg_handles reg' @ [\<lparr>lh_key = key, lh_entry = e, lh_released = False\<rparr>]\<rparr>))"

definition signal_aborted :: "nat \<Rightarrow> load_registry \<Rightarrow> bool" where
  "signal_aborted h reg = le_aborted (rg_entries reg ! lh_entry (rg_handles reg ! h))"

definition release_load :: "nat \<Rightarrow> load_registry \<Rightarrow> load_registry" where
  "release_load h reg =
     (let handle = rg_handles reg ! h; e = lh_entry handle in
      if lh_released handle then reg
      else
        let reg = (hold (- 1) e reg)\<lparr>rg_handles := (rg_handles reg)[h := handle\<lparr>lh_released := True\<rparr>]\<rparr> in
        if le_holders (rg_entries reg ! e) = 0 \<and> map_of (rg_loads reg) (lh_key handle) = Some e
        then reg\<lparr>rg_loads := AList.delete (lh_key handle) (rg_loads reg)\<rparr> else reg)"

definition cancel_load :: "string \<Rightarrow> load_registry \<Rightarrow> bool \<times> load_registry" where
  "cancel_load key reg =
     (case map_of (rg_loads reg) key of
        None \<Rightarrow> (False, reg)
      | Some e \<Rightarrow> (True, reg\<lparr>rg_entries := (rg_entries reg)[e := (rg_entries reg ! e)\<lparr>le_aborted := True\<rparr>]\<rparr>))"

inductive registry_step :: "load_registry \<Rightarrow> load_registry \<Rightarrow> bool" where
  step_register: "registry_step reg (snd (register key reg))"
| step_release: "h < length (rg_handles reg) \<Longrightarrow> registry_step reg (release_load h reg)"
| step_cancel: "registry_step reg (snd (cancel_load key reg))"

section \<open>The invariant\<close>

definition pending_on :: "load_registry \<Rightarrow> nat \<Rightarrow> load_handle list" where
  "pending_on reg e = filter (\<lambda>h. \<not> lh_released h \<and> lh_entry h = e) (rg_handles reg)"

text \<open>
  Every handle points at an entry, an entry counts its pending handles, the key's entry belongs to the key
  and has a pending handle, and a pending load that is not cancelled is on its key's entry.
\<close>

definition registry_inv :: "load_registry \<Rightarrow> bool" where
  "registry_inv reg \<longleftrightarrow>
     (\<forall>h \<in> set (rg_handles reg). lh_entry h < length (rg_entries reg)) \<and>
     (\<forall>e < length (rg_entries reg). le_holders (rg_entries reg ! e) = length (pending_on reg e)) \<and>
     (\<forall>key e. map_of (rg_loads reg) key = Some e \<longrightarrow> e < length (rg_entries reg) \<and>
        pending_on reg e \<noteq> [] \<and> (\<forall>h \<in> set (rg_handles reg). lh_entry h = e \<longrightarrow> lh_key h = key)) \<and>
     (\<forall>h \<in> set (rg_handles reg). \<not> lh_released h \<longrightarrow> \<not> le_aborted (rg_entries reg ! lh_entry h) \<longrightarrow>
        map_of (rg_loads reg) (lh_key h) = Some (lh_entry h))"

lemma registry_invD:
  assumes "registry_inv reg"
  shows "h \<in> set (rg_handles reg) \<Longrightarrow> lh_entry h < length (rg_entries reg)"
    and "e < length (rg_entries reg) \<Longrightarrow> le_holders (rg_entries reg ! e) = length (pending_on reg e)"
    and "map_of (rg_loads reg) key = Some e \<Longrightarrow> e < length (rg_entries reg)"
    and "map_of (rg_loads reg) key = Some e \<Longrightarrow> pending_on reg e \<noteq> []"
    and "map_of (rg_loads reg) key = Some e \<Longrightarrow> h \<in> set (rg_handles reg) \<Longrightarrow> lh_entry h = e \<Longrightarrow> lh_key h = key"
    and "h \<in> set (rg_handles reg) \<Longrightarrow> \<not> lh_released h \<Longrightarrow> \<not> le_aborted (rg_entries reg ! lh_entry h) \<Longrightarrow>
      map_of (rg_loads reg) (lh_key h) = Some (lh_entry h)"
  using assms by (auto simp: registry_inv_def)

lemma registry_invI:
  assumes "rg_entries reg = es" "rg_handles reg = hs" "rg_loads reg = loads"
    and "\<forall>h \<in> set hs. lh_entry h < length es"
    and "\<And>e. e < length es \<Longrightarrow> le_holders (es ! e) = length (filter (\<lambda>h. \<not> lh_released h \<and> lh_entry h = e) hs)"
    and "\<And>key e. map_of loads key = Some e \<Longrightarrow> e < length es \<and>
      filter (\<lambda>h. \<not> lh_released h \<and> lh_entry h = e) hs \<noteq> [] \<and> (\<forall>h \<in> set hs. lh_entry h = e \<longrightarrow> lh_key h = key)"
    and "\<And>h. h \<in> set hs \<Longrightarrow> \<not> lh_released h \<Longrightarrow> \<not> le_aborted (es ! lh_entry h) \<Longrightarrow>
      map_of loads (lh_key h) = Some (lh_entry h)"
  shows "registry_inv reg"
  unfolding registry_inv_def pending_on_def assms(1-3) using assms(4-7) by blast

lemma loads_inj:
  assumes "registry_inv reg" "map_of (rg_loads reg) a = Some e" "map_of (rg_loads reg) b = Some e"
  shows "a = b"
proof -
  obtain h where "h \<in> set (rg_handles reg)" "lh_entry h = e"
    using registry_invD(4) [OF assms(1,2)] by (auto simp: pending_on_def filter_empty_conv)
  then show ?thesis using registry_invD(5) [OF assms(1,2)] registry_invD(5) [OF assms(1,3)] by blast
qed

lemma register_cases:
  obtains (join) e where "map_of (rg_loads reg) key = Some e" "\<not> le_aborted (rg_entries reg ! e)"
    "register key reg = (length (rg_handles reg), (hold 1 e reg)
       \<lparr>rg_handles := rg_handles reg @ [\<lparr>lh_key = key, lh_entry = e, lh_released = False\<rparr>]\<rparr>)"
  | (fresh) "\<And>e. map_of (rg_loads reg) key = Some e \<Longrightarrow> le_aborted (rg_entries reg ! e)"
    "register key reg = (length (rg_handles reg),
       reg\<lparr>rg_loads := AList.update key (length (rg_entries reg)) (rg_loads reg),
           rg_entries := rg_entries reg @ [\<lparr>le_aborted = False, le_holders = 1\<rparr>],
           rg_handles := rg_handles reg @ [\<lparr>lh_key = key, lh_entry = length (rg_entries reg), lh_released = False\<rparr>]\<rparr>)"
proof (cases "\<exists>e. map_of (rg_loads reg) key = Some e \<and> \<not> le_aborted (rg_entries reg ! e)")
  case True
  then show thesis using join by (auto simp: register_def entry_for_def hold_def)
next
  case False
  moreover from this have "entry_for key reg = (length (rg_entries reg),
      reg\<lparr>rg_loads := AList.update key (length (rg_entries reg)) (rg_loads reg),
          rg_entries := rg_entries reg @ [\<lparr>le_aborted = False, le_holders = 0\<rparr>]\<rparr>)"
    by (auto simp: entry_for_def Let_def split: option.split)
  ultimately show thesis using fresh by (auto simp: register_def hold_def nth_append)
qed

lemma registry_inv_register:
  assumes "registry_inv reg"
  shows "registry_inv (snd (register key reg))"
proof (cases rule: register_cases [where reg = reg and key = key])
  case (join e)
  note inv = registry_invD [OF assms]
  show ?thesis
    using inv(3-5) [OF join(1)] inv join
    by (auto simp: registry_inv_def hold_def pending_on_def nth_list_update nat_add_distrib
        dest: inv(1) loads_inj [OF assms join(1)])
next
  case fresh
  note inv = registry_invD [OF assms]
  have old: "lh_entry h \<noteq> length (rg_entries reg)" if "h \<in> set (rg_handles reg)" for h
    using inv(1) [OF that] by simp
  have none: "pending_on reg (length (rg_entries reg)) = []" using old by (auto simp: pending_on_def filter_empty_conv)
  have live: "lh_key h \<noteq> key"
    if "h \<in> set (rg_handles reg)" "\<not> lh_released h" "\<not> le_aborted (rg_entries reg ! lh_entry h)" for h
    using inv(6) [OF that] fresh(1) that(3) by auto
  have bound: "map_of (rg_loads reg) k \<noteq> Some (length (rg_entries reg))" for k using inv(3) by blast
  show ?thesis
    unfolding registry_inv_def fresh(2)
    using none old live bound inv
    by (auto simp: pending_on_def nth_append AList.update_conv' less_Suc_eq split: if_splits)
qed

lemma registry_inv_cancel: "registry_inv reg \<Longrightarrow> registry_inv (snd (cancel_load key reg))"
proof (cases "map_of (rg_loads reg) key")
  case (Some e)
  assume inv: "registry_inv reg"
  then show ?thesis using Some registry_invD(3) [OF inv Some] registry_invD [OF inv]
    by (auto simp: cancel_load_def registry_inv_def pending_on_def nth_list_update split: if_splits)
qed (simp add: cancel_load_def)

lemma pending_after_release:
  assumes "h < length (rg_handles reg)" "\<not> lh_released (rg_handles reg ! h)"
  shows "length (filter (\<lambda>g. \<not> lh_released g \<and> lh_entry g = e) ((rg_handles reg)[h := (rg_handles reg ! h)\<lparr>lh_released := True\<rparr>]))
    = length (pending_on reg e) - (if lh_entry (rg_handles reg ! h) = e then 1 else 0)"
  using length_filter_update [OF assms(1), of "\<lambda>g. \<not> lh_released g \<and> lh_entry g = e"
      "(rg_handles reg ! h)\<lparr>lh_released := True\<rparr>"] assms(2)
  by (auto simp: pending_on_def split: if_splits)

lemma registry_inv_release:
  assumes "registry_inv reg" "h < length (rg_handles reg)"
  shows "registry_inv (release_load h reg)"
proof (cases "lh_released (rg_handles reg ! h)")
  case True
  then show ?thesis using assms(1) by (simp add: release_load_def Let_def)
next
  case False
  note inv = registry_invD [OF assms(1)]
  let ?g = "rg_handles reg ! h"
  let ?e = "lh_entry ?g"
  let ?hs = "(rg_handles reg)[h := ?g\<lparr>lh_released := True\<rparr>]"
  let ?P = "\<lambda>e g. \<not> lh_released g \<and> lh_entry g = e"
  have mem: "?g \<in> set (rg_handles reg)" using assms(2) by simp
  have e: "?e < length (rg_entries reg)" using inv(1) [OF mem] .
  let ?n = "length (pending_on reg ?e) - 1"
  let ?es = "(rg_entries reg)[?e := (rg_entries reg ! ?e)\<lparr>le_holders := ?n\<rparr>]"
  have hold: "hold (- 1) ?e reg = reg\<lparr>rg_entries := ?es\<rparr>"
  proof -
    have "nat (int (length (pending_on reg ?e)) + - 1) = ?n" by simp
    then show ?thesis using inv(2) [OF e] by (simp add: hold_def)
  qed
  let ?loads = "if ?n = 0 \<and> map_of (rg_loads reg) (lh_key ?g) = Some ?e then AList.delete (lh_key ?g) (rg_loads reg) else rg_loads reg"
  have rel: "release_load h reg = reg\<lparr>rg_entries := ?es, rg_handles := ?hs, rg_loads := ?loads\<rparr>"
    using False e by (simp add: release_load_def Let_def hold)
  have old: "\<exists>g' \<in> set (rg_handles reg). lh_key g' = lh_key g \<and> lh_entry g' = lh_entry g \<and> (\<not> lh_released g \<longrightarrow> g' = g)"
    if "g \<in> set ?hs" for g
    using set_update_subset_insert [of "rg_handles reg" h] that mem by fastforce
  have count: "length (filter (?P e') ?hs) = length (pending_on reg e') - (if ?e = e' then 1 else 0)" for e'
    using pending_after_release [OF assms(2) False] .
  have one: "\<forall>g \<in> set ?hs. lh_entry g < length ?es" using old inv(1) by fastforce
  have two: "le_holders (?es ! e') = length (filter (?P e') ?hs)" if "e' < length ?es" for e'
    using that inv(2) [of e'] count [of e'] e by (cases "e' = ?e") auto
  have three: "e' < length ?es \<and> filter (?P e') ?hs \<noteq> [] \<and> (\<forall>g \<in> set ?hs. lh_entry g = e' \<longrightarrow> lh_key g = key)"
    if "map_of ?loads key = Some e'" for key e'
  proof -
    have key: "map_of (rg_loads reg) key = Some e'" using that by (auto simp: AList.delete_conv' split: if_splits)
    have "length (filter (?P e') ?hs) \<noteq> 0"
    proof (cases "?e = e'")
      case True
      then have "lh_key ?g = key" using inv(5) [OF key mem] by simp
      then have "?n \<noteq> 0" using that key True by (auto simp: AList.delete_conv' split: if_splits)
      then show ?thesis using count [of e'] True by simp
    qed (use count [of e'] inv(4) [OF key] in simp)
    moreover have "\<forall>g \<in> set ?hs. lh_entry g = e' \<longrightarrow> lh_key g = key" using old inv(5) [OF key] by metis
    ultimately show ?thesis using inv(3) [OF key] by auto
  qed
  have four: "map_of ?loads (lh_key g) = Some (lh_entry g)"
    if "g \<in> set ?hs" "\<not> lh_released g" "\<not> le_aborted (?es ! lh_entry g)" for g
  proof -
    have g: "g \<in> set (rg_handles reg)" using old [OF that(1)] that(2) by auto
    have "\<not> le_aborted (rg_entries reg ! lh_entry g)" using that(3) e by (cases "lh_entry g = ?e") auto
    then have key: "map_of (rg_loads reg) (lh_key g) = Some (lh_entry g)" using inv(6) [OF g that(2)] by simp
    moreover have "\<not> (?n = 0 \<and> map_of (rg_loads reg) (lh_key ?g) = Some ?e \<and> lh_key g = lh_key ?g)"
    proof
      assume a: "?n = 0 \<and> map_of (rg_loads reg) (lh_key ?g) = Some ?e \<and> lh_key g = lh_key ?g"
      then have "lh_entry g = ?e" using key by simp
      then have "filter (?P ?e) ?hs \<noteq> []" using that(1,2) by (auto simp: filter_empty_conv)
      then show False using count [of ?e] a by simp
    qed
    ultimately show ?thesis by (auto simp: AList.delete_conv')
  qed
  show ?thesis
    by (rule registry_invI [OF _ _ _ one two three four]) (simp_all add: rel)
qed

interpretation load_cancel: invariant_system "\<lambda>reg. reg = empty_registry" registry_step registry_inv
proof
  show "registry_inv s" if "s = empty_registry" for s using that by (simp add: registry_inv_def empty_registry_def)
  show "registry_inv t" if "registry_inv s" "registry_step s t" for s t
    using that(2,1) by (cases rule: registry_step.cases)
      (auto intro: registry_inv_register registry_inv_release registry_inv_cancel)
qed

section \<open>Properties\<close>

text \<open>
  C35.  A cancel reaches every pending load of its model and no other: afterwards the signal of each load of the
  key that has not finished is aborted, and every other load's signal is as it was; a cancel that answers
  \<open>false\<close> found no pending load it had not cancelled before.  A load that starts later has a signal of its own,
  not yet aborted.
\<close>

theorem cancel_reaches_every_pending_load:
  assumes "reached (\<lambda>reg. reg = empty_registry) registry_step reg" "cancel_load key reg = (found, reg')"
    and "h < length (rg_handles reg)"
  shows "(if lh_key (rg_handles reg ! h) = key \<and> \<not> lh_released (rg_handles reg ! h)
      then signal_aborted h reg' \<and> (\<not> found \<longrightarrow> signal_aborted h reg)
      else lh_key (rg_handles reg ! h) \<noteq> key \<longrightarrow> signal_aborted h reg' = signal_aborted h reg) \<and>
    (case register key reg' of (fresh, reg'') \<Rightarrow> \<not> signal_aborted fresh reg'')"
proof -
  have inv: "registry_inv reg" using assms(1) by (rule load_cancel.reached_inv)
  note D = registry_invD [OF inv]
  let ?g = "rg_handles reg ! h"
  have mem: "?g \<in> set (rg_handles reg)" using assms(3) by simp
  have reg': "rg_handles reg' = rg_handles reg" "registry_inv reg'"
    using assms(2) registry_inv_cancel [OF inv, of key] by (auto simp: cancel_load_def split: option.splits)
  have "signal_aborted h reg' \<and> (\<not> found \<longrightarrow> signal_aborted h reg)" if "lh_key ?g = key" "\<not> lh_released ?g"
  proof (cases "le_aborted (rg_entries reg ! lh_entry ?g)")
    case True
    then have "le_aborted ((rg_entries reg)[e := (rg_entries reg ! e)\<lparr>le_aborted := True\<rparr>] ! lh_entry ?g)" for e
      using D(1) [OF mem] by (cases "e = lh_entry ?g") auto
    then show ?thesis using assms(2) True by (auto simp: signal_aborted_def cancel_load_def split: option.splits)
  next
    case False
    then have "map_of (rg_loads reg) key = Some (lh_entry ?g)" using D(6) [OF mem that(2)] that(1) by simp
    then show ?thesis using assms(2) D(1) [OF mem] by (auto simp: signal_aborted_def cancel_load_def)
  qed
  moreover have "signal_aborted h reg' = signal_aborted h reg" if "lh_key ?g \<noteq> key"
  proof (cases "map_of (rg_loads reg) key")
    case (Some e)
    then have "lh_entry ?g \<noteq> e" using D(5) [OF Some mem] that by auto
    then show ?thesis using assms(2) Some by (auto simp: signal_aborted_def cancel_load_def)
  qed (use assms(2) in \<open>auto simp: signal_aborted_def cancel_load_def\<close>)
  moreover have "case register key reg' of (fresh, reg'') \<Rightarrow> \<not> signal_aborted fresh reg''"
  proof (cases rule: register_cases [where reg = reg' and key = key])
    case (join e)
    then show ?thesis using registry_invD(3) [OF reg'(2) join(1)] by (simp add: signal_aborted_def hold_def)
  next
    case fresh
    then show ?thesis by (simp add: signal_aborted_def)
  qed
  ultimately show ?thesis by simp
qed

end
