(* ===== verification/Claim_Queue.thy ===== *)
theory Claim_Queue
  imports Prelude
begin

text \<open>
  Taking turns: \<open>turn\<close> of \<open>src/src/core/gpu/residency.ts\<close> and \<open>FifoLock\<close> of \<open>src/src/runtime/shared/fifo-lock.ts\<close>.
  Both chain promises: what arrives waits for the end of the chain, which resolves when everything that
  arrived earlier has resolved, and puts its own promise behind it.  The state is the list of arrivals;
  a promise of the chain is a position in it.
\<close>

section \<open>The chain\<close>

datatype turn = Waiting | Holding | Given_up | Released

text \<open>
  \<open>ahead_resolved ts i\<close>: the promise the \<open>i\<close>-th arrival waits for.  \<open>mine_resolved ts i\<close>: its own, resolved by its
  \<open>release\<close>, or, when it gave up, as soon as the one it waited for is.
\<close>

fun ahead_resolved :: "turn list \<Rightarrow> nat \<Rightarrow> bool" where
  "ahead_resolved ts 0 = True"
| "ahead_resolved ts (Suc i) =
     (ahead_resolved ts i \<and> (ts ! i = Released \<or> ts ! i = Given_up \<and> ahead_resolved ts i))"

inductive turn_step :: "turn list \<Rightarrow> turn list \<Rightarrow> bool" where
  arrive: "turn_step ts (ts @ [Waiting])"
| start: "i < length ts \<Longrightarrow> ts ! i = Waiting \<Longrightarrow> ahead_resolved ts i \<Longrightarrow> turn_step ts (ts[i := Holding])"
| give_up: "i < length ts \<Longrightarrow> ts ! i = Waiting \<Longrightarrow> turn_step ts (ts[i := Given_up])"
| finish: "i < length ts \<Longrightarrow> ts ! i = Holding \<Longrightarrow> turn_step ts (ts[i := Released])"

section \<open>Who has passed\<close>

definition passed :: "turn \<Rightarrow> bool" where
  "passed t \<longleftrightarrow> t = Released \<or> t = Given_up"

lemma passed_simps [simp]: "passed Released" "passed Given_up" "\<not> passed Waiting" "\<not> passed Holding"
  by (simp_all add: passed_def)

lemma ahead_resolved_iff: "ahead_resolved ts i \<longleftrightarrow> (\<forall>j < i. passed (ts ! j))"
  by (induction i) (auto simp: less_Suc_eq passed_def)

text \<open>Whoever had a turn was preceded only by what has passed.\<close>

definition turns_ok :: "turn list \<Rightarrow> bool" where
  "turns_ok ts \<longleftrightarrow> (\<forall>i < length ts. ts ! i = Holding \<or> ts ! i = Released \<longrightarrow> (\<forall>j < i. passed (ts ! j)))"

lemma turns_ok_update:
  assumes "turns_ok ts" "i < length ts" "ts ! i = Waiting \<or> passed t"
    and "t = Holding \<or> t = Released \<longrightarrow> (\<forall>j < i. passed (ts ! j))"
  shows "turns_ok (ts[i := t])"
proof -
  have "passed (ts[i := t] ! j)" if "k < length ts" "ts[i := t] ! k \<in> {Holding, Released}" "j < k" for j k
  proof (cases "k = i")
    case True
    then show ?thesis using assms(4) that assms(2) by (auto simp: nth_list_update)
  next
    case False
    then have "passed (ts ! j)" using assms(1) that by (auto simp: turns_ok_def)
    then show ?thesis using assms(2,3) by (cases "j = i") auto
  qed
  then show ?thesis by (auto simp: turns_ok_def)
qed

interpretation turn_queue: invariant_system "\<lambda>ts. ts = []" turn_step turns_ok
proof
  show "turns_ok s" if "s = []" for s using that by (simp add: turns_ok_def)
  show "turns_ok t" if "turns_ok s" "turn_step s t" for s t
    using that(2)
  proof (cases rule: turn_step.cases)
    case arrive
    have "passed ((s @ [Waiting]) ! j)"
      if "i < Suc (length s)" "(s @ [Waiting]) ! i \<in> {Holding, Released}" "j < i" for i j
      using that \<open>turns_ok s\<close> by (auto simp: turns_ok_def nth_append split: if_splits)
    then show ?thesis using arrive by (auto simp: turns_ok_def)
  next
    case (start i)
    then show ?thesis using turns_ok_update [OF that(1) start(2)] by (simp add: ahead_resolved_iff)
  next
    case (give_up i)
    then show ?thesis using turns_ok_update [OF that(1) give_up(2)] by simp
  next
    case (finish i)
    then have "\<forall>j < i. passed (s ! j)" using that(1) by (simp add: turns_ok_def)
    then show ?thesis using finish turns_ok_update [OF that(1) finish(2)] by simp
  qed
qed

section \<open>The generation queue\<close>

text \<open>\<open>FifoLock\<close> beside the chain: its count of work queued or running.\<close>

record fifo_lock =
  fl_turns :: "turn list"
  fl_waiting :: nat

inductive fifo_step :: "fifo_lock \<Rightarrow> fifo_lock \<Rightarrow> bool" where
  fifo_run: "fifo_step l (l\<lparr>fl_turns := fl_turns l @ [Waiting], fl_waiting := fl_waiting l + 1\<rparr>)"
| fifo_start: "i < length (fl_turns l) \<Longrightarrow> fl_turns l ! i = Waiting \<Longrightarrow> ahead_resolved (fl_turns l) i \<Longrightarrow>
    fifo_step l (l\<lparr>fl_turns := (fl_turns l)[i := Holding]\<rparr>)"
| fifo_settled: "i < length (fl_turns l) \<Longrightarrow> fl_turns l ! i = Holding \<Longrightarrow>
    fifo_step l (l\<lparr>fl_turns := (fl_turns l)[i := Released], fl_waiting := fl_waiting l - 1\<rparr>)"

definition unsettled :: "turn list \<Rightarrow> nat" where
  "unsettled ts = length (filter (\<lambda>t. t \<noteq> Released) ts)"

lemma unsettled_update:
  "i < length ts \<Longrightarrow> unsettled (ts[i := t]) + (if ts ! i = Released then 0 else 1) = unsettled ts + (if t = Released then 0 else 1)"
  using length_filter_update [of i ts "\<lambda>t. t \<noteq> Released" t] by (auto simp: unsettled_def split: if_splits)

interpretation fifo: invariant_system "\<lambda>l. l = \<lparr>fl_turns = [], fl_waiting = 0\<rparr>" fifo_step
  "\<lambda>l. fl_waiting l = unsettled (fl_turns l) \<and> reached (\<lambda>ts. ts = []) turn_step (fl_turns l)"
proof
  show "fl_waiting s = unsettled (fl_turns s) \<and> reached (\<lambda>ts. ts = []) turn_step (fl_turns s)"
    if "s = \<lparr>fl_turns = [], fl_waiting = 0\<rparr>" for s
    using that by (auto simp: unsettled_def intro: reached_start)
  fix s t
  assume inv: "fl_waiting s = unsettled (fl_turns s) \<and> reached (\<lambda>ts. ts = []) turn_step (fl_turns s)"
    and "fifo_step s t"
  from this(2) show "fl_waiting t = unsettled (fl_turns t) \<and> reached (\<lambda>ts. ts = []) turn_step (fl_turns t)"
  proof (cases rule: fifo_step.cases)
    case fifo_run
    then show ?thesis using inv reached_step [where step = turn_step, OF _ arrive] by (auto simp: unsettled_def)
  next
    case (fifo_start i)
    then show ?thesis using inv unsettled_update [of i "fl_turns s" Holding]
        reached_step [where step = turn_step, OF _ start] by auto
  next
    case (fifo_settled i)
    then show ?thesis using inv unsettled_update [of i "fl_turns s" Released]
        reached_step [where step = turn_step, OF _ finish] by auto
  qed
qed

section \<open>Properties\<close>

text \<open>
  Claims take turns: at most one holds the turn, nobody starts before everyone who arrived earlier has
  finished or given up, and the queue never stalls: while somebody waits, somebody holds the turn or the
  first who waits may take it, however many gave up before.
\<close>

theorem claims_take_turns:
  assumes "reached (\<lambda>ts. ts = []) turn_step ts"
  shows "(i < length ts \<and> j < length ts \<and> ts ! i = Holding \<and> ts ! j = Holding \<longrightarrow> i = j) \<and>
    (i < j \<and> j < length ts \<and> (ts ! j = Holding \<or> ts ! j = Released) \<longrightarrow> ts ! i = Released \<or> ts ! i = Given_up) \<and>
    (Waiting \<in> set ts \<longrightarrow> Holding \<in> set ts \<or> (\<exists>k < length ts. ts ! k = Waiting \<and> turn_step ts (ts[k := Holding])))"
proof -
  have ok: "turns_ok ts" using assms by (rule turn_queue.reached_inv)
  have order: "passed (ts ! i)" if "i < j" "j < length ts" "ts ! j = Holding \<or> ts ! j = Released" for i j
    using ok that by (auto simp: turns_ok_def)
  have one: "i = j" if "i < length ts" "j < length ts" "ts ! i = Holding" "ts ! j = Holding" for i j
    using order [of i j] order [of j i] that by (cases i j rule: linorder_cases) auto
  have "\<exists>k < length ts. ts ! k = Waiting \<and> turn_step ts (ts[k := Holding])"
    if wait: "Waiting \<in> set ts" and none: "Holding \<notin> set ts"
  proof -
    let ?P = "\<lambda>k. k < length ts \<and> ts ! k = Waiting"
    from wait obtain k0 where "?P k0" by (auto simp: in_set_conv_nth)
    then have k: "?P (LEAST k. ?P k)" by (rule LeastI)
    have "passed (ts ! j)" if "j < (LEAST k. ?P k)" for j
    proof -
      have "j < length ts" "ts ! j \<noteq> Waiting" using that k not_less_Least [OF that] by auto
      then show ?thesis using none by (cases "ts ! j") (auto simp: in_set_conv_nth)
    qed
    then have "ahead_resolved ts (LEAST k. ?P k)" by (simp add: ahead_resolved_iff)
    then show ?thesis using k start by blast
  qed
  then show ?thesis using one order by (auto simp: passed_def)
qed

text \<open>
  The generation queue's counter is exact: \<open>waiting\<close> is the number of pieces of work queued or running,
  whichever of them failed, and at most one runs.
\<close>

theorem fifo_lock_counts:
  assumes "reached (\<lambda>l. l = \<lparr>fl_turns = [], fl_waiting = 0\<rparr>) fifo_step l"
  shows "fl_waiting l = length (filter (\<lambda>t. t \<noteq> Released) (fl_turns l)) \<and>
    length (filter (\<lambda>t. t = Holding) (fl_turns l)) \<le> 1"
proof -
  have inv: "fl_waiting l = unsettled (fl_turns l)" "turns_ok (fl_turns l)"
    using fifo.reached_inv [OF assms] turn_queue.reached_inv by auto
  let ?ts = "fl_turns l"
  have "card {i. i < length ?ts \<and> ?ts ! i = Holding} \<le> 1"
  proof (rule card_le_Suc0_iff_eq [THEN iffD2, unfolded One_nat_def [symmetric]])
    have "passed (?ts ! i)" if "i < j" "j < length ?ts" "?ts ! j = Holding" for i j
      using inv(2) that by (auto simp: turns_ok_def)
    then have "i = j" if "i < length ?ts" "?ts ! i = Holding" "j < length ?ts" "?ts ! j = Holding" for i j
      using that by (cases i j rule: linorder_cases) fastforce+
    then show "\<forall>i \<in> {i. i < length ?ts \<and> ?ts ! i = Holding}. \<forall>j \<in> {i. i < length ?ts \<and> ?ts ! i = Holding}. i = j" by blast
  qed simp
  then show ?thesis using inv(1) by (simp add: unsettled_def length_filter_conv_card)
qed

end
