(* ===== verification/Bounded_Output.thy ===== *)
theory Bounded_Output
  imports Prelude "HOL-Library.Sublist"
begin

text \<open>
  One output stream of a child process, bounded (\<open>HeadAndTail\<close> of
  \<open>src/src/runtime/shared/bounded-output.ts\<close>).  A \<open>Buffer\<close> is the list of its bytes.
\<close>

section \<open>The collector\<close>

record head_and_tail =
  ht_headLimit :: nat
  ht_tailLimit :: nat
  ht_head :: "string list"
  ht_headBytes :: nat
  ht_tail :: "string list"
  ht_tailBytes :: nat
  ht_dropped :: bool

definition newHeadAndTail :: "nat \<Rightarrow> head_and_tail" where
  "newHeadAndTail limit =
     (let headLimit = (limit + 1) div 2 in
      \<lparr>ht_headLimit = headLimit, ht_tailLimit = limit - headLimit, ht_head = [], ht_headBytes = 0,
       ht_tail = [], ht_tailBytes = 0, ht_dropped = False\<rparr>)"

text \<open>The loop that shifts whole chunks out of the sliding window.\<close>

fun shift_tail :: "nat \<Rightarrow> string list \<Rightarrow> nat \<Rightarrow> bool \<Rightarrow> string list \<times> nat \<times> bool" where
  "shift_tail lim (c # d # rest) n dropped =
     (if lim \<le> n - length c then shift_tail lim (d # rest) (n - length c) True
      else (c # d # rest, n, dropped))"
| "shift_tail lim cs n dropped = (cs, n, dropped)"

definition ht_push :: "string \<Rightarrow> head_and_tail \<Rightarrow> head_and_tail" where
  "ht_push chunk h =
     (let room = ht_headLimit h - ht_headBytes h;
          taken = take room chunk;
          h = (if 0 < room then h\<lparr>ht_head := ht_head h @ [taken], ht_headBytes := ht_headBytes h + length taken\<rparr> else h);
          rest = (if 0 < room then drop (length taken) chunk else chunk) in
      if rest = [] then h
      else case shift_tail (ht_tailLimit h) (ht_tail h @ [rest]) (ht_tailBytes h + length rest) (ht_dropped h) of
        (tail, n, dropped) \<Rightarrow> h\<lparr>ht_tail := tail, ht_tailBytes := n, ht_dropped := dropped\<rparr>)"

text \<open>\<open>lastIndexOf(0x0a)\<close> and \<open>indexOf(0x0a)\<close> as they are used: the whole lines of a start and of an end.\<close>

definition upto_last_newline :: "string \<Rightarrow> string" where
  "upto_last_newline s = rev (dropWhile (\<lambda>c. c \<noteq> CHR 0x0A) (rev s))"

definition after_first_newline :: "string \<Rightarrow> string" where
  "after_first_newline s = tl (dropWhile (\<lambda>c. c \<noteq> CHR 0x0A) s)"

definition ht_bytes :: "head_and_tail \<Rightarrow> string \<times> head_and_tail" where
  "ht_bytes h =
     (let head = concat (ht_head h); tail = concat (ht_tail h);
          h = (if ht_tailLimit h < length tail then h\<lparr>ht_dropped := True\<rparr> else h);
          tail = (if ht_tailLimit h < length tail then drop (length tail - ht_tailLimit h) tail else tail) in
      if \<not> ht_dropped h then (head @ tail, h)
      else (upto_last_newline head @ after_first_newline tail, h))"

inductive collected :: "nat \<Rightarrow> string \<Rightarrow> head_and_tail \<Rightarrow> bool" for limit :: nat where
  collect_start: "collected limit [] (newHeadAndTail limit)"
| collect_push: "collected limit input h \<Longrightarrow> collected limit (input @ chunk) (ht_push chunk h)"
| collect_read: "collected limit input h \<Longrightarrow> collected limit input (snd (ht_bytes h))"

section \<open>The invariant\<close>

definition collector_inv :: "nat \<Rightarrow> string \<Rightarrow> head_and_tail \<Rightarrow> bool" where
  "collector_inv limit input h \<longleftrightarrow>
     ht_headLimit h + ht_tailLimit h = limit \<and>
     ht_headBytes h = length (concat (ht_head h)) \<and> ht_headBytes h \<le> ht_headLimit h \<and>
     ht_tailBytes h = length (concat (ht_tail h)) \<and> [] \<notin> set (ht_tail h) \<and>
     (ht_tail h \<noteq> [] \<longrightarrow> ht_headBytes h = ht_headLimit h \<and> ht_tailBytes h - length (hd (ht_tail h)) < max 1 (ht_tailLimit h)) \<and>
     (ht_dropped h \<longrightarrow> limit < length input) \<and>
     (\<exists>mid. input = concat (ht_head h) @ mid @ concat (ht_tail h) \<and> (mid \<noteq> [] \<longrightarrow> ht_dropped h \<and> ht_tail h \<noteq> []))"

lemma shift_tail_correct:
  assumes "shift_tail lim cs n dropped = (cs', n', dropped')" "n = length (concat cs)" "[] \<notin> set cs" "cs \<noteq> []"
  shows "cs' \<noteq> [] \<and> n' = length (concat cs') \<and> [] \<notin> set cs' \<and> n' - length (hd cs') < max 1 lim \<and>
    (\<exists>gone. concat cs = gone @ concat cs' \<and> (if gone = [] then dropped' = dropped else dropped' \<and> lim < n))"
  using assms
proof (induction lim cs n dropped rule: shift_tail.induct)
  case (1 lim c d rest n dropped)
  show ?case
  proof (cases "lim \<le> n - length c")
    case True
    then have rec: "shift_tail lim (d # rest) (n - length c) True = (cs', n', dropped')" using 1(2) by simp
    have c: "c \<noteq> []" using 1(4) by auto
    from 1(1) [OF True rec] obtain gone where
      g: "concat (d # rest) = gone @ concat cs'" "if gone = [] then dropped' = True else dropped' \<and> lim < n - length c"
      and keep: "cs' \<noteq> [] \<and> n' = length (concat cs') \<and> [] \<notin> set cs' \<and> n' - length (hd cs') < max 1 lim"
      using 1(3,4) by auto
    have "lim < n" using True c 1(3) by (cases c) auto
    then have "concat (c # d # rest) = (c @ gone) @ concat cs'" "dropped' \<and> lim < n"
      using g by (auto split: if_splits)
    then show ?thesis using keep c by (intro conjI exI [of _ "c @ gone"]) auto
  next
    case False
    then show ?thesis using 1(2-5) by auto
  qed
qed (auto simp: max_def)

lemma collector_push:
  assumes "collector_inv limit input h"
  shows "collector_inv limit (input @ chunk) (ht_push chunk h)"
proof -
  let ?room = "ht_headLimit h - ht_headBytes h"
  let ?taken = "take ?room chunk"
  let ?rest = "drop ?room chunk"
  let ?head = "if 0 < ?room then ht_head h @ [?taken] else ht_head h"
  obtain mid where I: "ht_headLimit h + ht_tailLimit h = limit" "ht_headBytes h = length (concat (ht_head h))"
      "ht_headBytes h \<le> ht_headLimit h" "ht_tailBytes h = length (concat (ht_tail h))" "[] \<notin> set (ht_tail h)"
      "ht_tail h \<noteq> [] \<Longrightarrow> ht_headBytes h = ht_headLimit h"
      "ht_tail h \<noteq> [] \<Longrightarrow> ht_tailBytes h - length (hd (ht_tail h)) < max 1 (ht_tailLimit h)"
      "ht_dropped h \<longrightarrow> limit < length input" "input = concat (ht_head h) @ mid @ concat (ht_tail h)"
      "mid \<noteq> [] \<longrightarrow> ht_dropped h \<and> ht_tail h \<noteq> []"
    using assms unfolding collector_inv_def by blast
  have rest: "(if 0 < ?room then drop (length ?taken) chunk else chunk) = ?rest"
    by (cases "length chunk \<le> ?room") auto
  have head: "concat ?head = concat (ht_head h) @ ?taken" "ht_headBytes h + length ?taken \<le> ht_headLimit h"
    using I(3) by (auto simp: min_def)
  have full: "?rest \<noteq> [] \<Longrightarrow> ht_headBytes h + length ?taken = ht_headLimit h" using I(3) by simp
  have tail0: "ht_tail h \<noteq> [] \<Longrightarrow> ?room = 0" using I(6) by simp
  have mid0: "?room \<noteq> 0 \<Longrightarrow> mid = [] \<and> ht_tail h = []" using I(10) tail0 by metis
  have upd: "ht_push chunk h = (let h' = h\<lparr>ht_head := ?head, ht_headBytes := ht_headBytes h + length ?taken\<rparr> in
      if ?rest = [] then h' else case shift_tail (ht_tailLimit h) (ht_tail h @ [?rest]) (ht_tailBytes h + length ?rest) (ht_dropped h) of
        (tail, n, dropped) \<Rightarrow> h'\<lparr>ht_tail := tail, ht_tailBytes := n, ht_dropped := dropped\<rparr>)"
    unfolding ht_push_def Let_def rest by (auto split: prod.split)
  show ?thesis
  proof (cases "?rest = []")
    case True
    then have taken: "?taken = chunk" by simp
    have h': "ht_push chunk h = h\<lparr>ht_head := ?head, ht_headBytes := ht_headBytes h + length ?taken\<rparr>"
      using True by (simp add: upd Let_def)
    have "input @ chunk = concat ?head @ mid @ concat (ht_tail h)"
    proof (cases "?room = 0")
      case False
      then show ?thesis using mid0 I(9) head(1) taken by simp
    qed (use True I(9) in simp)
    moreover have "ht_tail h \<noteq> [] \<longrightarrow> ?taken = []" using tail0 by simp
    ultimately show ?thesis
      unfolding collector_inv_def h' using I head
      by (intro conjI exI [of _ mid]) (simp_all del: concat_append, auto)
  next
    case False
    let ?cs = "ht_tail h @ [?rest]"
    obtain cs n dropped where s: "shift_tail (ht_tailLimit h) ?cs (ht_tailBytes h + length ?rest) (ht_dropped h) = (cs, n, dropped)"
      by (metis surj_pair)
    from shift_tail_correct [OF s] obtain gone where k: "cs \<noteq> []" "n = length (concat cs)" "[] \<notin> set cs"
        "n - length (hd cs) < max 1 (ht_tailLimit h)" "concat ?cs = gone @ concat cs"
        "if gone = [] then dropped = ht_dropped h else dropped \<and> ht_tailLimit h < ht_tailBytes h + length ?rest"
      using I(4,5) False by auto
    have h': "ht_push chunk h = h\<lparr>ht_head := ?head, ht_headBytes := ht_headBytes h + length ?taken,
        ht_tail := cs, ht_tailBytes := n, ht_dropped := dropped\<rparr>"
      using False s by (simp add: upd Let_def)
    have input: "input @ chunk = concat ?head @ (mid @ gone) @ concat cs"
    proof (cases "?room = 0")
      case True
      then show ?thesis using I(9) k(5) by simp
    next
      case False
      then have "input @ chunk = concat (ht_head h) @ ?taken @ ?rest" using mid0 I(9) by simp
      moreover have "?rest = gone @ concat cs" using k(5) mid0 [OF False] by simp
      ultimately show ?thesis using mid0 [OF False] head(1) by (simp only: append_assoc append_Nil)
    qed
    have "limit < length (input @ chunk)" if "dropped"
    proof (cases "gone = []")
      case True
      then show ?thesis using k(6) that I(8) by simp
    next
      case False
      then have "ht_tailLimit h < length (concat ?cs)" using k(6) I(4) by simp
      moreover have "length (concat ?head) = ht_headLimit h" using full [OF \<open>?rest \<noteq> []\<close>] head(1) I(2) by simp
      moreover have "length (concat ?cs) = length gone + length (concat cs)" unfolding k(5) by simp
      moreover have "length (input @ chunk) = length (concat ?head) + length mid + (length gone + length (concat cs))"
        unfolding input by simp
      ultimately show ?thesis using I(1) by linarith
    qed
    moreover have "mid @ gone \<noteq> [] \<longrightarrow> dropped" using I(10) k(6) by (auto split: if_splits)
    ultimately show ?thesis
      unfolding collector_inv_def h' using I(1,2) head full [OF False] k(1-4) input
      by (intro conjI exI [of _ "mid @ gone"]) (simp_all del: concat_append append_assoc)
  qed
qed

lemma collector_read: "collector_inv limit input h \<Longrightarrow> collector_inv limit input (snd (ht_bytes h))"
proof -
  assume inv: "collector_inv limit input h"
  have "limit < length input" if "ht_tailLimit h < length (concat (ht_tail h))"
  proof -
    have "ht_tail h \<noteq> []" using that by auto
    then show ?thesis using inv that by (auto simp: collector_inv_def)
  qed
  then show ?thesis using inv by (auto simp: ht_bytes_def Let_def collector_inv_def)
qed

lemma collected_inv: "collected limit input h \<Longrightarrow> collector_inv limit input h"
proof (induction rule: collected.induct)
  case collect_start
  show ?case by (auto simp: collector_inv_def newHeadAndTail_def Let_def)
qed (simp_all add: collector_push collector_read)

section \<open>Whole lines\<close>

lemma upto_last_newline: "prefix (upto_last_newline s) s \<and> (upto_last_newline s = [] \<or> last (upto_last_newline s) = CHR 0x0A)"
proof -
  let ?r = "dropWhile (\<lambda>c. c \<noteq> CHR 0x0A) (rev s)"
  have "suffix ?r (rev s)" by (rule suffix_dropWhile)
  then have "prefix (rev ?r) s" by (simp add: suffix_to_prefix)
  moreover have "?r \<noteq> [] \<Longrightarrow> hd ?r = CHR 0x0A" using hd_dropWhile [of "\<lambda>c. c \<noteq> CHR 0x0A" "rev s"] by blast
  ultimately show ?thesis by (auto simp: upto_last_newline_def last_rev)
qed

lemma after_first_newline: "after_first_newline s = [] \<or> (\<exists>pre. s = pre @ [CHR 0x0A] @ after_first_newline s)"
proof (cases "dropWhile (\<lambda>c. c \<noteq> CHR 0x0A) s")
  case (Cons c cs)
  then have "c = CHR 0x0A" using hd_dropWhile [of "\<lambda>c. c \<noteq> CHR 0x0A" s] by simp
  then have "s = takeWhile (\<lambda>c. c \<noteq> CHR 0x0A) s @ [CHR 0x0A] @ cs" using Cons takeWhile_dropWhile_id [of _ s] by (metis append_Cons append_Nil)
  then show ?thesis using Cons by (auto simp: after_first_newline_def)
next
  case Nil
  then have "after_first_newline s = []" unfolding after_first_newline_def by (simp only: list.sel)
  then show ?thesis ..
qed

section \<open>Properties\<close>


end
