(* ===== verification/Linux_Network.thy ===== *)
theory Linux_Network
  imports Host_Step_Failure Process_Identity "HOL-Library.Word"
begin

unbundle bit_operations_syntax

text \<open>
  Whether Docker will find an address range for its bridge (\<open>src/src/runtime/environment/linux-docker-network.ts\<close>):
  the host's routes, Docker's default subnets, and the smallest set of routes that leaves none of them free.
  JavaScript's 32-bit operations are those of \<^typ>\<open>32 word\<close>, read unsigned.
\<close>

section \<open>IPv4 networks\<close>

record Ipv4Cidr =
  address :: "32 word"
  prefix_len :: nat

definition maskOf :: "nat \<Rightarrow> 32 word" where
  "maskOf prefix = (if prefix = 0 then 0 else push_bit (nat ((32 - int prefix) mod 32)) 0xffffffff)"

definition toDotted :: "32 word \<Rightarrow> string" where
  "toDotted a = js_join ''.'' (map (\<lambda>w. show_nat (unat w))
     [drop_bit 24 a, drop_bit 16 a AND 0xff, drop_bit 8 a AND 0xff, a AND 0xff])"

definition format_cidr :: "Ipv4Cidr \<Rightarrow> string" where
  "format_cidr cidr = toDotted (address cidr) @ ''/'' @ show_nat (prefix_len cidr)"

text \<open>A group \<open>(\d{1,n})\<close>.\<close>

definition digit_group :: "nat \<Rightarrow> string \<Rightarrow> bool" where
  "digit_group n s \<longleftrightarrow> all_digits s \<and> length s \<le> n"

text \<open>The groups of the address and, where there is one, of the prefix length.\<close>

definition cidr_groups :: "string \<Rightarrow> (string list \<times> string option) option" where
  "cidr_groups text =
     (case js_split (CHR ''/'') text of
        [a] \<Rightarrow> Some (js_split (CHR ''.'') a, None)
      | [a, n] \<Rightarrow> if digit_group 2 n then Some (js_split (CHR ''.'') a, Some n) else None
      | _ \<Rightarrow> None)"

definition parseIpv4Cidr :: "string \<Rightarrow> Ipv4Cidr option" where
  "parseIpv4Cidr text =
     (case cidr_groups (js_trim text) of
        None \<Rightarrow> None
      | Some (parts, n) \<Rightarrow>
          if length parts \<noteq> 4 \<or> \<not> list_all (digit_group 3) parts then None
          else let octets = map digits_value parts;
                   prefix = (case n of None \<Rightarrow> 32 | Some d \<Rightarrow> digits_value d) in
            if list_ex (\<lambda>octet. octet > 255) octets \<or> prefix > 32 then None
            else let a = push_bit 24 (of_nat (octets ! 0)) OR push_bit 16 (of_nat (octets ! 1)) OR
                         push_bit 8 (of_nat (octets ! 2)) OR of_nat (octets ! 3)
              in Some \<lparr>address = a AND maskOf prefix, prefix_len = prefix\<rparr>)"

text \<open>Two networks overlap when the wider one contains the other's network address.\<close>

definition overlaps :: "Ipv4Cidr \<Rightarrow> Ipv4Cidr \<Rightarrow> bool" where
  "overlaps a b =
     (let m = maskOf (min (prefix_len a) (prefix_len b)) in address a AND m = address b AND m)"

section \<open>Docker's default pools\<close>

definition DOCKER_DEFAULT_POOLS :: "(string \<times> nat) list" where
  "DOCKER_DEFAULT_POOLS =
     [(''172.17.0.0/16'', 16), (''172.18.0.0/16'', 16), (''172.19.0.0/16'', 16), (''172.20.0.0/14'', 16),
      (''172.24.0.0/14'', 16), (''172.28.0.0/14'', 16), (''192.168.0.0/16'', 20)]"

definition pool_subnets :: "string \<times> nat \<Rightarrow> string list" where
  "pool_subnets entry =
     (case parseIpv4Cidr (fst entry) of
        None \<Rightarrow> []
      | Some pool \<Rightarrow>
          map (\<lambda>index. format_cidr \<lparr>address = address pool + of_nat (index * 2 ^ (32 - snd entry)), prefix_len = snd entry\<rparr>)
            [0..<2 ^ (snd entry - prefix_len pool)])"

definition DOCKER_DEFAULT_POOL_SUBNETS :: "string list" where
  "DOCKER_DEFAULT_POOL_SUBNETS = concat (map pool_subnets DOCKER_DEFAULT_POOLS)"

section \<open>The routing table\<close>

definition is_hex :: "char \<Rightarrow> bool" where
  "is_hex c \<longleftrightarrow> is_digit c \<or> lower_char c \<in> set ''abcdef''"

definition hex_value :: "char \<Rightarrow> nat" where
  "hex_value c = (if is_digit c then of_char c - 48 else of_char (lower_char c) - 87)"

text \<open>One hexadecimal field, its bytes the other way round.\<close>

definition hexWord :: "string option \<Rightarrow> 32 word option" where
  "hexWord field =
     (case field of
        None \<Rightarrow> None
      | Some f \<Rightarrow>
          if length f \<noteq> 8 \<or> \<not> list_all is_hex f then None
          else let v = of_nat (foldl (\<lambda>acc c. acc * 16 + hex_value c) 0 f) :: 32 word in
            Some (push_bit 24 (v AND 0xff) OR push_bit 16 (drop_bit 8 v AND 0xff) OR
                  push_bit 8 (drop_bit 16 v AND 0xff) OR drop_bit 24 v))"

function prefix_from :: "32 word \<Rightarrow> nat \<Rightarrow> nat" where
  "prefix_from m bits =
     (if bits < 32 \<and> push_bit bits m AND 0x80000000 \<noteq> 0 then prefix_from m (bits + 1) else bits)"
  by pat_completeness auto
termination by (relation "measure (\<lambda>(m, bits). 32 - bits)") auto

declare prefix_from.simps [simp del]

definition prefixOf :: "32 word \<Rightarrow> nat" where
  "prefixOf m = prefix_from m 0"

record LinuxRoute =
  destination :: string
  device :: string

definition nth_field :: "string list \<Rightarrow> nat \<Rightarrow> string option" where
  "nth_field cells i = (if i < length cells then Some (cells ! i) else None)"

definition parse_route :: "string \<Rightarrow> LinuxRoute option" where
  "parse_route raw =
     (let cells = split_ws (js_trim raw) in
      case (hexWord (nth_field cells 1), hexWord (nth_field cells 7)) of
        (Some dest, Some m) \<Rightarrow>
          (let prefix = prefixOf m in
           if prefix = 0 then None
           else Some \<lparr>destination = format_cidr \<lparr>address = dest AND maskOf prefix, prefix_len = prefix\<rparr>,
                      device = cells ! 0\<rparr>)
      | _ \<Rightarrow> None)"

definition parseProcNetRoute :: "string option \<Rightarrow> LinuxRoute list option" where
  "parseProcNetRoute text =
     map_option (\<lambda>t. List.map_filter parse_route (drop 1 (js_split (CHR 0x0A) t))) text"

section \<open>Which routes leave Docker nothing\<close>

text \<open>A route is its place in the table, so that two equal lines stay two routes.\<close>

record candidate =
  cd_route :: nat
  cd_cidr :: Ipv4Cidr
  cd_covers :: "Ipv4Cidr list"

definition candidate_of :: "Ipv4Cidr list \<Rightarrow> nat \<times> LinuxRoute \<Rightarrow> candidate option" where
  "candidate_of pools entry =
     (case parseIpv4Cidr (destination (snd entry)) of
        None \<Rightarrow> None
      | Some cidr \<Rightarrow>
          if prefix_len cidr = 0 then None
          else let covers = filter (overlaps cidr) pools in
            if covers = [] then None else Some \<lparr>cd_route = fst entry, cd_cidr = cidr, cd_covers = covers\<rparr>)"

definition new_count :: "Ipv4Cidr list \<Rightarrow> candidate \<Rightarrow> nat" where
  "new_count uncovered c = length (filter (\<lambda>pool. pool \<in> set uncovered) (cd_covers c))"

definition better :: "Ipv4Cidr list \<Rightarrow> candidate option \<times> nat \<Rightarrow> candidate \<Rightarrow> candidate option \<times> nat" where
  "better uncovered acc c =
     (case acc of (best, bestCount) \<Rightarrow>
        let count = new_count uncovered c in
        if count > bestCount \<or>
           count = bestCount \<and> count > 0 \<and>
             (case best of None \<Rightarrow> False | Some b \<Rightarrow> prefix_len (cd_cidr c) < prefix_len (cd_cidr b))
        then (Some c, count) else acc)"

definition best_candidate :: "candidate list \<Rightarrow> Ipv4Cidr list \<Rightarrow> candidate option" where
  "best_candidate candidates uncovered = fst (foldl (better uncovered) (None, 0) candidates)"

text \<open>What the scan has found so far: nothing new, or a candidate with the most new pools, the widest such.\<close>

fun picked :: "Ipv4Cidr list \<Rightarrow> candidate set \<Rightarrow> candidate option \<times> nat \<Rightarrow> bool" where
  "picked uncovered C (None, n) \<longleftrightarrow> n = 0 \<and> (\<forall>c \<in> C. new_count uncovered c = 0)"
| "picked uncovered C (Some b, n) \<longleftrightarrow> b \<in> C \<and> n = new_count uncovered b \<and> n > 0 \<and>
     (\<forall>c \<in> C. new_count uncovered c \<le> n \<and> (new_count uncovered c = n \<longrightarrow> prefix_len (cd_cidr b) \<le> prefix_len (cd_cidr c)))"

lemma picked_better: "picked uncovered C acc \<Longrightarrow> picked uncovered (insert c C) (better uncovered acc c)"
proof (cases acc)
  case (Pair best n)
  assume "picked uncovered C acc"
  then show ?thesis unfolding Pair by (cases best) (auto simp: better_def Let_def)
qed

lemma picked_foldl: "picked uncovered C acc \<Longrightarrow> picked uncovered (C \<union> set cs) (foldl (better uncovered) acc cs)"
proof (induction cs arbitrary: C acc)
  case (Cons c cs)
  from Cons.IH [OF picked_better [OF Cons.prems]] show ?case by simp
qed simp

lemma best_candidate_picked:
  "picked uncovered (set cs) (best_candidate cs uncovered, case best_candidate cs uncovered of None \<Rightarrow> 0 | Some b \<Rightarrow> new_count uncovered b)"
proof -
  have p: "picked uncovered (set cs) (foldl (better uncovered) (None, 0) cs)"
    using picked_foldl [of uncovered "{}" "(None, 0)" cs] by simp
  obtain b n where bn: "foldl (better uncovered) (None, 0) cs = (b, n)" by fastforce
  from p show ?thesis by (cases b) (auto simp: best_candidate_def bn)
qed

lemma best_candidateD:
  assumes "best_candidate cs uncovered = Some b"
  shows "b \<in> set cs" "new_count uncovered b > 0"
    "c \<in> set cs \<Longrightarrow> new_count uncovered c \<le> new_count uncovered b"
    "c \<in> set cs \<Longrightarrow> new_count uncovered c = new_count uncovered b \<Longrightarrow> prefix_len (cd_cidr b) \<le> prefix_len (cd_cidr c)"
  using best_candidate_picked [of uncovered cs] by (simp_all add: assms)

lemma best_candidate_None: "best_candidate cs uncovered = None \<Longrightarrow> c \<in> set cs \<Longrightarrow> new_count uncovered c = 0"
  using best_candidate_picked [of uncovered cs] by simp

function cover_loop :: "candidate list \<Rightarrow> Ipv4Cidr list \<Rightarrow> nat list \<Rightarrow> nat list option" where
  "cover_loop candidates uncovered chosen =
     (if uncovered = [] then Some chosen
      else case best_candidate candidates uncovered of
          None \<Rightarrow> None
        | Some best \<Rightarrow>
            cover_loop candidates (filter (\<lambda>pool. pool \<notin> set (cd_covers best)) uncovered) (chosen @ [cd_route best]))"
  by pat_completeness auto
termination
proof (relation "measure (\<lambda>(candidates, uncovered, chosen). length uncovered)")
  fix candidates uncovered chosen best
  assume "best_candidate candidates uncovered = Some best"
  from best_candidateD(2) [OF this] obtain p where "p \<in> set (cd_covers best)" "p \<in> set uncovered"
    by (auto simp: new_count_def filter_empty_conv)
  then have "length (filter (\<lambda>pool. pool \<notin> set (cd_covers best)) uncovered) < length uncovered"
    by (intro length_filter_less) auto
  then show "((candidates, filter (\<lambda>pool. pool \<notin> set (cd_covers best)) uncovered, chosen @ [cd_route best]),
      candidates, uncovered, chosen) \<in> measure (\<lambda>(candidates, uncovered, chosen). length uncovered)" by simp
qed simp

declare cover_loop.simps [simp del]

definition default_pools :: "Ipv4Cidr list" where
  "default_pools = List.map_filter parseIpv4Cidr DOCKER_DEFAULT_POOL_SUBNETS"

definition route_candidates :: "LinuxRoute list \<Rightarrow> candidate list" where
  "route_candidates routes = List.map_filter (candidate_of default_pools) (enumerate 0 routes)"

definition routesCoveringDockerPools :: "LinuxRoute list \<Rightarrow> LinuxRoute list option" where
  "routesCoveringDockerPools routes =
     map_option (\<lambda>chosen. map snd (filter (\<lambda>entry. fst entry \<in> set chosen) (enumerate 0 routes)))
       (cover_loop (route_candidates routes) default_pools [])"

section \<open>The warning\<close>

text \<open>What \<open>JSON.parse\<close> made of the file is the argument: its \<open>bip\<close> where that is a string, and the length of its pools where they are an array.\<close>

record daemon_json_read =
  dj_text :: "string option"
  dj_unreadable :: bool

definition daemonJsonSetsAddressPools ::
  "(string \<Rightarrow> (string option \<times> nat option) option) \<Rightarrow> daemon_json_read \<Rightarrow> pools_configured" where
  "daemonJsonSetsAddressPools parse r =
     (if dj_unreadable r then Pools_unknown
      else case dj_text r of
          None \<Rightarrow> Pools_known False
        | Some text \<Rightarrow>
            (case parse text of
               None \<Rightarrow> Pools_unknown
             | Some (bip, pools) \<Rightarrow>
                 Pools_known ((case bip of None \<Rightarrow> False | Some b \<Rightarrow> js_trim b \<noteq> '''') \<or>
                   (case pools of None \<Rightarrow> False | Some n \<Rightarrow> n > 0))))"

record LinuxPlanWarning =
  wn_code :: string
  wn_text :: string
  wn_params :: "(string \<times> string) list"

definition dockerAddressPoolWarning ::
  "bool \<Rightarrow> pools_configured \<Rightarrow> LinuxRoute list option \<Rightarrow> LinuxPlanWarning option" where
  "dockerAddressPoolWarning dockerRunning addressPoolsConfigured routes =
     (case routes of
        None \<Rightarrow> None
      | Some rs \<Rightarrow>
          if dockerRunning \<or> addressPoolsConfigured \<noteq> Pools_known False then None
          else map_option (\<lambda>covering.
              let named = js_join '', '' (map (\<lambda>route. destination route @ '' via '' @ device route) covering);
                  devices = js_unique (map device covering);
                  many = length covering > 1 in
              \<lparr>wn_code = ''docker-address-pools-overlap-routes'',
               wn_text = ''Docker will not be able to start: the route'' @ (if many then ''s'' else '''') @ '' '' @ named @
                 '' (often a full-tunnel VPN) cover'' @ (if many then '''' else ''s'') @
                 '' every address range Docker uses for its networks by default. '' @ DOCKER_ADDRESS_POOLS_INSTRUCTION,
               wn_params = [(''routes'', js_join '','' (map destination covering)), (''devices'', js_join '','' devices)]\<rparr>)
            (routesCoveringDockerPools rs))"

end
