(* ===== verification/Linux_Facts.thy ===== *)
theory Linux_Facts
  imports Complex_Main Linux_Network Canonical_Json
begin

text \<open>
  What a Linux machine can already do, read without changing it: \<open>src/src/runtime/environment/linux-probe.ts\<close> and
  \<open>linux-docker-facts.ts\<close>.  The commands and files are the injected \<open>LinuxProbeDeps\<close>; \<open>JSON.parse\<close> is a parameter that
  answers \<^const>\<open>None\<close> where it throws.  The sizes \<open>nvidia-smi\<close> prints are exact decimals.
\<close>

section \<open>Facts\<close>

datatype package_family = Apt | Dnf | Pacman | Other_family

datatype install_method = Docker_ce | Docker_io | Moby_engine | Snap | Rootless | Docker_desktop | Podman_docker

text \<open>\<open>boolean | 'unknown'\<close>.\<close>

datatype known_or_not = Known bool | Not_known

text \<open>The exit code is \<^const>\<open>None\<close> when the binary is not on the machine at all.\<close>

record command_output =
  co_code :: "int option"
  co_stdout :: string
  co_stderr :: string

record linux_distribution =
  ds_id :: string
  ds_version_id :: string
  ds_id_like :: "string list"
  ds_family :: package_family

record docker_group_facts =
  dg_configured :: known_or_not
  dg_effective :: bool

record gpu_facts =
  gf_gpu_id :: string
  gf_name :: string
  gf_compute_capability :: string
  gf_total_vram_bytes :: "rat option"
  gf_free_vram_bytes :: "rat option"
  gf_driver_version :: "string option"

record docker_facts =
  dk_cli :: bool
  dk_daemon_reachable :: bool
  dk_engine_identity :: "string option"
  dk_version :: "string option"
  dk_install_method :: "install_method option"
  dk_engine_version :: "string option"
  dk_gpu_runtime :: bool
  dk_gpu_runtime_from_config :: bool
  dk_nvidia_runtime :: bool
  dk_address_pools_configured :: pools_configured
  dk_daemon_json_unreadable :: bool
  dk_selinux :: bool
  dk_docker_root_dir :: "string option"
  dk_containers_running :: int
  dk_service_active :: known_or_not
  dk_server_errors :: "string list"

record linux_facts =
  fc_architecture :: "string option"
  fc_distribution :: "linux_distribution option"
  fc_immutable_os :: bool
  fc_systemd :: "bool option"
  fc_driver_version :: "string option"
  fc_gpus :: "gpu_facts list"
  fc_docker :: docker_facts
  fc_docker_group :: docker_group_facts
  fc_toolkit_installed :: bool
  fc_routes :: "LinuxRoute list option"
  fc_free_disk_bytes :: "nat option"
  fc_free_disk_path :: string
  fc_unknown :: "string list"

section \<open>The distribution\<close>

text \<open>\<open>/^([A-Z_]+)=(.*)$/\<close>.\<close>

definition os_release_field :: "string \<Rightarrow> (string \<times> string) option" where
  "os_release_field line =
     (let is_key = (\<lambda>c. let n = of_char c :: nat in 65 \<le> n \<and> n \<le> 90 \<or> c = CHR ''_'');
          key = takeWhile is_key line; rest = dropWhile is_key line in
      if key \<noteq> [] \<and> rest \<noteq> [] \<and> hd rest = CHR ''='' \<and> CHR 0x0D \<notin> set (tl rest) then Some (key, tl rest) else None)"

text \<open>\<open>replace(/^"(.*)"$/, '$1')\<close> for a quote character.\<close>

definition unquote :: "char \<Rightarrow> string \<Rightarrow> string" where
  "unquote q s = (if length s \<ge> 2 \<and> hd s = q \<and> last s = q then butlast (tl s) else s)"

definition APT_FAMILY :: "string list" where "APT_FAMILY = [''debian'', ''ubuntu'']"
definition DNF_FAMILY :: "string list" where
  "DNF_FAMILY = [''fedora'', ''rhel'', ''centos'', ''rocky'', ''almalinux'']"
definition PACMAN_FAMILY :: "string list" where "PACMAN_FAMILY = [''arch'', ''manjaro'', ''endeavouros'']"

definition packageFamilyFor :: "string \<Rightarrow> string list \<Rightarrow> package_family" where
  "packageFamilyFor i idLike =
     (let of_family = (\<lambda>fam. i \<in> set fam \<or> list_ex (\<lambda>e. e \<in> set fam) idLike) in
      if of_family APT_FAMILY then Apt else if of_family DNF_FAMILY then Dnf
      else if of_family PACMAN_FAMILY then Pacman else Other_family)"

definition parseOsRelease :: "string option \<Rightarrow> linux_distribution option" where
  "parseOsRelease text =
     (case text of
        None \<Rightarrow> None
      | Some t \<Rightarrow>
          let entries = List.map_filter (\<lambda>line. map_option
                (\<lambda>(k, v). (k, unquote (CHR 0x27) (unquote (CHR 0x22) (js_trim v)))) (os_release_field (js_trim line)))
                (js_split (CHR 0x0A) t);
              get = map_of (rev entries) in
          case get ''ID'' of
            None \<Rightarrow> None
          | Some i \<Rightarrow>
              if i = '''' then None
              else let versionId = (case get ''VERSION_ID'' of
                       Some v \<Rightarrow> v | None \<Rightarrow> (case get ''BUILD_ID'' of Some v \<Rightarrow> v | None \<Rightarrow> ''''));
                     idLike = filter (\<lambda>e. e \<noteq> '''') (map js_lower
                       (split_ws (case get ''ID_LIKE'' of Some v \<Rightarrow> v | None \<Rightarrow> ''''))) in
                Some \<lparr>ds_id = js_lower i, ds_version_id = versionId, ds_id_like = idLike,
                      ds_family = packageFamilyFor (js_lower i) idLike\<rparr>)"

definition normalizeArchitecture :: "string \<Rightarrow> string" where
  "normalizeArchitecture raw = (let trimmed = js_trim raw in if trimmed = ''arm64'' then ''aarch64'' else trimmed)"

section \<open>The cards\<close>

text \<open>\<open>/^(\d+(?:\.\d+)?)(?:\s*MiB)?$/\<close>, as the digits before and after the point.\<close>

definition mib_match :: "string \<Rightarrow> (string \<times> string) option" where
  "mib_match cell =
     (let whole = takeWhile is_digit cell; r = dropWhile is_digit cell;
          has_frac = (case r of p # d # _ \<Rightarrow> p = CHR ''.'' \<and> is_digit d | _ \<Rightarrow> False);
          frac = (if has_frac then takeWhile is_digit (tl r) else '''');
          unit = (if has_frac then dropWhile is_digit (tl r) else r) in
      if whole \<noteq> '''' \<and> (unit = '''' \<or> dropWhile is_space unit = ''MiB'') then Some (whole, frac) else None)"

definition mibCellBytes :: "string \<Rightarrow> rat option" where
  "mibCellBytes cell =
     map_option (\<lambda>(whole, frac).
       (of_nat (digits_value whole) + of_nat (digits_value frac) / 10 ^ length frac) * 1048576) (mib_match cell)"

definition smi_line :: "string \<Rightarrow> gpu_facts option" where
  "smi_line line =
     (let cells = map js_trim (js_split (CHR '','') line) in
      if length cells < 6 \<or> cells ! 0 = '''' \<or> cells ! 0 = ''uuid'' then None
      else Some \<lparr>gf_gpu_id = cells ! 0, gf_name = cells ! 1, gf_compute_capability = cells ! 2,
                 gf_total_vram_bytes = mibCellBytes (cells ! 3), gf_free_vram_bytes = mibCellBytes (cells ! 4),
                 gf_driver_version = Some (cells ! 5)\<rparr>)"

definition parseNvidiaSmi :: "command_output option \<Rightarrow> string option \<times> gpu_facts list" where
  "parseNvidiaSmi output =
     (case output of
        None \<Rightarrow> (None, [])
      | Some out \<Rightarrow>
          if co_code out \<noteq> Some 0 then (None, [])
          else let gpus = List.map_filter smi_line (js_split (CHR 0x0A) (co_stdout out)) in
            (if gpus = [] then None else gf_driver_version (last gpus), gpus))"

section \<open>Group and service\<close>

definition parseDockerGroup :: "command_output option \<Rightarrow> command_output option \<Rightarrow> string \<Rightarrow> docker_group_facts" where
  "parseDockerGroup sessionGroups groupEntry user =
     (let effective = (case sessionGroups of
            None \<Rightarrow> False | Some s \<Rightarrow> co_code s = Some 0 \<and> ''docker'' \<in> set (split_ws (co_stdout s))) in
      case groupEntry of
        Some g \<Rightarrow>
          if co_code g = Some 2 then \<lparr>dg_configured = Known effective, dg_effective = effective\<rparr>
          else if co_code g \<noteq> Some 0
          then \<lparr>dg_configured = (if effective then Known True else Not_known), dg_effective = effective\<rparr>
          else let parts = js_split (CHR '':'') (co_stdout g);
                   members = filter (\<lambda>m. m \<noteq> '''')
                     (js_split (CHR '','') (js_trim (if length parts > 3 then parts ! 3 else ''''))) in
            \<lparr>dg_configured = Known (effective \<or> user \<in> set members), dg_effective = effective\<rparr>
      | None \<Rightarrow> \<lparr>dg_configured = (if effective then Known True else Not_known), dg_effective = effective\<rparr>)"

definition parseServiceActive :: "command_output option \<Rightarrow> known_or_not" where
  "parseServiceActive output =
     (case output of
        None \<Rightarrow> Not_known
      | Some out \<Rightarrow>
          (case co_code out of
             None \<Rightarrow> Not_known
           | Some code \<Rightarrow> Known (code = 0 \<and> js_trim (co_stdout out) = ''active'')))"

section \<open>What Docker says\<close>

record docker_info_facts =
  di_daemon_reachable :: bool
  di_engine_identity :: "string option"
  di_version :: "string option"
  di_gpu_runtime :: bool
  di_nvidia_runtime :: bool
  di_selinux :: bool
  di_docker_root_dir :: "string option"
  di_containers_running :: int
  di_rootless :: bool
  di_desktop :: bool
  di_server_errors :: "string list"

definition ABSENT :: docker_info_facts where
  "ABSENT = \<lparr>di_daemon_reachable = False, di_engine_identity = None, di_version = None, di_gpu_runtime = False,
     di_nvidia_runtime = False, di_selinux = False, di_docker_root_dir = None, di_containers_running = 0,
     di_rootless = False, di_desktop = False, di_server_errors = []\<rparr>"

definition cdiListsNvidiaGpu :: "command_output option \<Rightarrow> bool" where
  "cdiListsNvidiaGpu cdiList =
     (case cdiList of
        None \<Rightarrow> False | Some out \<Rightarrow> co_code out = Some 0 \<and> js_includes (js_lower (co_stdout out)) ''nvidia.com/gpu'')"

text \<open>
  A property of a parsed value: reading one of \<open>null\<close> throws (\<^const>\<open>None\<close>), a property that is not there is
  \<open>undefined\<close>.  The keys the readers ask for are no built-in properties of strings, numbers or arrays.
\<close>

definition js_get :: "js_value \<Rightarrow> string \<Rightarrow> js_value option" where
  "js_get v key =
     (case v of
        J_null \<Rightarrow> None
      | J_undefined \<Rightarrow> None
      | J_object es \<Rightarrow> Some (case map_of (rev es) key of None \<Rightarrow> J_undefined | Some x \<Rightarrow> x)
      | _ \<Rightarrow> Some J_undefined)"

text \<open>\<open>Object.keys(v ?? {}).includes(name)\<close>, for a name that is no index.\<close>

definition has_key :: "js_value \<Rightarrow> string \<Rightarrow> bool" where
  "has_key v name = (case v of J_object es \<Rightarrow> name \<in> set (map fst es) | _ \<Rightarrow> False)"

datatype daemon_json_evidence = Configured | Not_configured | Unreadable_json

type_synonym json_parse = "string \<Rightarrow> js_value option"

definition daemonJsonNvidiaRuntimeEvidence :: "json_parse \<Rightarrow> daemon_json_read \<Rightarrow> daemon_json_evidence" where
  "daemonJsonNvidiaRuntimeEvidence parse r =
     (if dj_unreadable r then Unreadable_json
      else case dj_text r of
          None \<Rightarrow> Not_configured
        | Some text \<Rightarrow>
            (case Option.bind (parse text) (\<lambda>v. js_get v ''runtimes'') of
               None \<Rightarrow> Unreadable_json
             | Some runtimes \<Rightarrow> if has_key runtimes ''nvidia'' then Configured else Not_configured))"

text \<open>The two settings of the file \<^const>\<open>daemonJsonSetsAddressPools\<close> asks for.\<close>

definition address_pool_settings :: "json_parse \<Rightarrow> string \<Rightarrow> (string option \<times> nat option) option" where
  "address_pool_settings parse text =
     Option.bind (parse text) (\<lambda>v. Option.bind (js_get v ''bip'') (\<lambda>bip. map_option (\<lambda>pools.
       (case bip of J_string b \<Rightarrow> Some b | _ \<Rightarrow> None, case pools of J_array xs \<Rightarrow> Some (length xs) | _ \<Rightarrow> None))
       (js_get v ''default-address-pools'')))"

definition nonempty_string :: "js_value \<Rightarrow> string option" where
  "nonempty_string v = (case v of J_string s \<Rightarrow> if s = '''' then None else Some s | _ \<Rightarrow> None)"

definition stringEntries :: "js_value \<Rightarrow> string list" where
  "stringEntries v =
     (case v of J_array xs \<Rightarrow> List.map_filter (\<lambda>x. case x of J_string s \<Rightarrow> Some s | _ \<Rightarrow> None) xs | _ \<Rightarrow> [])"

definition serverErrorsOf :: "json_parse \<Rightarrow> string \<Rightarrow> string list" where
  "serverErrorsOf parse stdout =
     (case Option.bind (parse stdout) (\<lambda>v. js_get v ''ServerErrors'') of None \<Rightarrow> [] | Some v \<Rightarrow> stringEntries v)"

definition string_or_empty :: "js_value \<Rightarrow> string" where
  "string_or_empty v = (case v of J_string s \<Rightarrow> s | _ \<Rightarrow> '''')"

text \<open>The document \<open>docker info\<close> printed, every property read through \<open>get\<close>.\<close>

definition info_of :: "(string \<Rightarrow> js_value) \<Rightarrow> command_output option \<Rightarrow> docker_info_facts" where
  "info_of get cdiList =
     (let serverErrors = stringEntries (get ''ServerErrors'');
          serverVersion = nonempty_string (get ''ServerVersion'') in
      if serverErrors \<noteq> [] \<and> serverVersion = None then ABSENT\<lparr>di_server_errors := serverErrors\<rparr>
      else let securityOptions = stringEntries (get ''SecurityOptions'');
               nameAndOs = js_lower (string_or_empty (get ''Name'') @ '' '' @ string_or_empty (get ''OperatingSystem'')) in
        \<lparr>di_daemon_reachable = True,
         di_engine_identity = nonempty_string (get ''ID''),
         di_version = serverVersion,
         di_gpu_runtime = cdiListsNvidiaGpu cdiList,
         di_nvidia_runtime = has_key (get ''Runtimes'') ''nvidia'',
         di_selinux = list_ex (\<lambda>o'. js_prefix ''name=selinux'' o') securityOptions,
         di_docker_root_dir = nonempty_string (get ''DockerRootDir''),
         di_containers_running = (case get ''ContainersRunning'' of J_number (Finite n) \<Rightarrow> n | _ \<Rightarrow> 0),
         di_rootless = list_ex (\<lambda>o'. o' = ''rootless'' \<or> js_prefix ''name=rootless'' o') securityOptions,
         di_desktop = (js_includes nameAndOs ''docker desktop'' \<or> js_includes nameAndOs ''docker-desktop''),
         di_server_errors = serverErrors\<rparr>)"

definition parseDockerInfo :: "json_parse \<Rightarrow> command_output option \<Rightarrow> command_output option \<Rightarrow> docker_info_facts" where
  "parseDockerInfo parse output cdiList =
     (case output of
        None \<Rightarrow> ABSENT
      | Some out \<Rightarrow>
          if co_code out = None then ABSENT
          else if co_code out \<noteq> Some 0 then ABSENT\<lparr>di_server_errors := serverErrorsOf parse (co_stdout out)\<rparr>
          else case parse (co_stdout out) of
              None \<Rightarrow> ABSENT
            | Some v \<Rightarrow>
                if v = J_null then ABSENT
                else info_of (\<lambda>key. case js_get v key of None \<Rightarrow> J_undefined | Some x \<Rightarrow> x) cdiList)"

section \<open>What the package databases say\<close>

text \<open>\<open>/(\d+\.\d+\.\d+)/\<close>: at the start of the text, then the first place where it matches.\<close>

definition semver_here :: "string \<Rightarrow> string option" where
  "semver_here s =
     (let a = takeWhile is_digit s; r = dropWhile is_digit s;
          b = takeWhile is_digit (tl r); q = dropWhile is_digit (tl r);
          c = takeWhile is_digit (tl q) in
      if a \<noteq> [] \<and> r \<noteq> [] \<and> hd r = CHR ''.'' \<and> b \<noteq> [] \<and> q \<noteq> [] \<and> hd q = CHR ''.'' \<and> c \<noteq> []
      then Some (a @ ''.'' @ b @ ''.'' @ c) else None)"

fun firstSemverLike :: "string \<Rightarrow> string option" where
  "firstSemverLike [] = None"
| "firstSemverLike (c # cs) =
     (case semver_here (c # cs) of Some v \<Rightarrow> Some v | None \<Rightarrow> firstSemverLike cs)"

definition ENGINE_PACKAGE_NAMES :: "string list" where
  "ENGINE_PACKAGE_NAMES = [''docker-ce'', ''docker.io'', ''moby-engine'']"

text \<open>The first word and what follows the white space after it.\<close>

definition next_word :: "string \<Rightarrow> string \<times> string" where
  "next_word s = (takeWhile (\<lambda>c. \<not> is_space c) s, dropWhile is_space (dropWhile (\<lambda>c. \<not> is_space c) s))"

fun first_some :: "('a \<Rightarrow> 'b option) \<Rightarrow> 'a list \<Rightarrow> 'b option" where
  "first_some f [] = None"
| "first_some f (x # xs) = (case f x of Some y \<Rightarrow> Some y | None \<Rightarrow> first_some f xs)"

definition or_else :: "'a option \<Rightarrow> 'a option \<Rightarrow> 'a option" where
  "or_else a b = (case a of Some x \<Rightarrow> Some x | None \<Rightarrow> b)"

definition dpkgEngineVersion :: "command_output option \<Rightarrow> string option" where
  "dpkgEngineVersion output =
     (case output of
        None \<Rightarrow> None
      | Some out \<Rightarrow> first_some (\<lambda>raw.
          let (status, r) = next_word (js_trim raw); (pkg, version) = next_word r in
          if status = ''ii'' \<and> version \<noteq> '''' \<and> CHR 0x0D \<notin> set version \<and> pkg \<in> set ENGINE_PACKAGE_NAMES
          then firstSemverLike version else None)
          (js_split (CHR 0x0A) (co_stdout out)))"

definition rpmEngineVersion :: "command_output option \<Rightarrow> string option" where
  "rpmEngineVersion output =
     (case output of
        None \<Rightarrow> None
      | Some out \<Rightarrow> first_some (\<lambda>raw.
          let line = js_trim raw in
          if line = '''' \<or> js_includes line ''is not installed'' \<or>
             \<not> list_ex (\<lambda>name. js_prefix (name @ ''-'') line) ENGINE_PACKAGE_NAMES
          then None else firstSemverLike line)
          (js_split (CHR 0x0A) (co_stdout out)))"

text \<open>The places a line of the text begins (\<open>^\<close> with the flag \<open>m\<close>).\<close>

fun line_starts :: "string \<Rightarrow> string list" where
  "line_starts [] = []"
| "line_starts (c # cs) = (if c = CHR 0x0A \<or> c = CHR 0x0D then cs # line_starts cs else line_starts cs)"

definition pacmanEngineVersion :: "command_output option \<Rightarrow> string option" where
  "pacmanEngineVersion output =
     (case output of
        None \<Rightarrow> None
      | Some out \<Rightarrow>
          if co_code out = None then None
          else Option.bind
            (first_some (\<lambda>s. let r = drop 6 s; word = fst (next_word (dropWhile is_space r)) in
               if js_prefix ''docker'' s \<and> r \<noteq> [] \<and> is_space (hd r) \<and> word \<noteq> '''' then Some word else None)
               (co_stdout out # line_starts (co_stdout out)))
            firstSemverLike)"

definition detectEngineVersion ::
  "command_output option \<Rightarrow> command_output option \<Rightarrow> command_output option \<Rightarrow> string option" where
  "detectEngineVersion dpkgQuery rpmQuery pacmanQuery =
     or_else (dpkgEngineVersion dpkgQuery) (or_else (rpmEngineVersion rpmQuery) (pacmanEngineVersion pacmanQuery))"

definition installedDpkgPackages :: "command_output option \<Rightarrow> string list \<Rightarrow> string list" where
  "installedDpkgPackages output candidates =
     (case output of
        None \<Rightarrow> []
      | Some out \<Rightarrow>
          let installed = List.map_filter (\<lambda>raw.
                let (status, r) = next_word (js_trim raw); pkg = fst (next_word r) in
                if status = ''ii'' \<and> pkg \<noteq> '''' then Some pkg else None) (js_split (CHR 0x0A) (co_stdout out))
          in filter (\<lambda>name. name \<in> set installed) candidates)"

definition installedRpmPackages :: "command_output option \<Rightarrow> string list \<Rightarrow> string list" where
  "installedRpmPackages output candidates =
     (case output of
        None \<Rightarrow> []
      | Some out \<Rightarrow>
          js_unique (List.map_filter (\<lambda>raw.
            let line = js_trim raw in
            if line = '''' \<or> js_includes line ''is not installed'' then None
            else find (\<lambda>name. line = name \<or> js_prefix (name @ ''-'') line) candidates)
            (js_split (CHR 0x0A) (co_stdout out))))"

definition installedPacmanPackages :: "command_output option \<Rightarrow> string list \<Rightarrow> string list" where
  "installedPacmanPackages output candidates =
     (case output of
        None \<Rightarrow> []
      | Some out \<Rightarrow>
          let installed = List.map_filter (\<lambda>raw.
                let (name, version) = next_word (js_trim raw) in
                if name \<noteq> '''' \<and> version \<noteq> '''' then Some name else None) (js_split (CHR 0x0A) (co_stdout out))
          in filter (\<lambda>name. name \<in> set installed) candidates)"

definition TOOLKIT_PACKAGE :: string where "TOOLKIT_PACKAGE = ''nvidia-container-toolkit''"

definition fullToolkitInstalled ::
  "package_family option \<Rightarrow> command_output \<Rightarrow> command_output option \<Rightarrow> bool" where
  "fullToolkitInstalled family ctkVersion query =
     (if co_code ctkVersion \<noteq> Some 0 then False
      else case family of
          None \<Rightarrow> True
        | Some Other_family \<Rightarrow> True
        | Some Apt \<Rightarrow> TOOLKIT_PACKAGE \<in> set (installedDpkgPackages query [TOOLKIT_PACKAGE])
        | Some Dnf \<Rightarrow> TOOLKIT_PACKAGE \<in> set (installedRpmPackages query [TOOLKIT_PACKAGE])
        | Some Pacman \<Rightarrow> TOOLKIT_PACKAGE \<in> set (installedPacmanPackages query [TOOLKIT_PACKAGE]))"

definition PACMAN_PACKAGE_CANDIDATES :: "string list" where
  "PACMAN_PACKAGE_CANDIDATES = [''docker'', ''docker-desktop'']"

definition DOCKER_PACKAGE_CANDIDATES :: "string list" where
  "DOCKER_PACKAGE_CANDIDATES = [''docker-ce'', ''docker.io'', ''moby-engine'', ''podman-docker'', ''docker-desktop'']"

record docker_package_signals =
  ps_dockerVersion :: "command_output option"
  ps_dpkgQuery :: "command_output option"
  ps_rpmQuery :: "command_output option"
  ps_pacmanQuery :: "command_output option"
  ps_snapList :: "command_output option"

text \<open>A command that ran and exited with 0.\<close>

definition succeeded :: "command_output option \<Rightarrow> (string \<Rightarrow> bool) \<Rightarrow> bool" where
  "succeeded output test = (case output of None \<Rightarrow> False | Some out \<Rightarrow> co_code out = Some 0 \<and> test (co_stdout out))"

definition found_packages :: "docker_package_signals \<Rightarrow> string set" where
  "found_packages packages =
     set (installedDpkgPackages (ps_dpkgQuery packages) DOCKER_PACKAGE_CANDIDATES @
          installedRpmPackages (ps_rpmQuery packages) DOCKER_PACKAGE_CANDIDATES @
          installedPacmanPackages (ps_pacmanQuery packages) PACMAN_PACKAGE_CANDIDATES)"

definition detectDockerInstallMethod ::
  "docker_info_facts \<Rightarrow> docker_package_signals \<Rightarrow> bool \<Rightarrow> known_or_not \<Rightarrow> install_method option" where
  "detectDockerInstallMethod info packages rootlessSocketPresent serviceActive =
     (if succeeded (ps_dockerVersion packages) (\<lambda>s. js_includes (js_lower s) ''podman'') then Some Podman_docker
      else let found = found_packages packages in
        if ''podman-docker'' \<in> found then Some Podman_docker
        else if succeeded (ps_snapList packages) (\<lambda>s. js_includes s ''docker'') then Some Snap
        else let engineInstalled =
               ''docker-ce'' \<in> found \<or> ''moby-engine'' \<in> found \<or> ''docker.io'' \<in> found \<or> ''docker'' \<in> found in
          if di_desktop info then Some Docker_desktop
          else if ''docker-desktop'' \<in> found \<and> \<not> di_daemon_reachable info \<and> \<not> engineInstalled then Some Docker_desktop
          else if di_rootless info \<or>
                  \<not> di_daemon_reachable info \<and> rootlessSocketPresent \<and> serviceActive \<noteq> Known True then Some Rootless
          else if ''docker-ce'' \<in> found then Some Docker_ce
          else if ''moby-engine'' \<in> found then Some Moby_engine
          else if ''docker.io'' \<in> found then Some Docker_io
          else None)"

section \<open>The probe\<close>

text \<open>\<open>readFile\<close> answers \<open>null\<close> only for a file that is not there and rejects otherwise; so does \<open>pathExists\<close>.\<close>

datatype file_read = Read_text string | Not_there | Read_rejected

record linux_probe_deps =
  pd_exec :: "string \<Rightarrow> string list \<Rightarrow> (string \<times> string option) list \<Rightarrow> command_output"
  pd_readFile :: "string \<Rightarrow> file_read"
  pd_pathExists :: "string \<Rightarrow> bool option"
  pd_freeDiskBytes :: "string \<Rightarrow> nat option"

record linux_probe_options =
  po_user :: string
  po_xdgRuntimeDir :: "string option"

definition DEFAULT_DOCKER_ROOT_DIR :: string where "DEFAULT_DOCKER_ROOT_DIR = ''/var/lib/docker''"
definition DOCKER_SOCKET :: string where "DOCKER_SOCKET = ''unix:///var/run/docker.sock''"
definition STRIP_DOCKER_ENV :: "(string \<times> string option) list" where
  "STRIP_DOCKER_ENV =
     [(''DOCKER_HOST'', None), (''DOCKER_CONTEXT'', None), (''DOCKER_TLS_VERIFY'', None), (''DOCKER_CERT_PATH'', None)]"

text \<open>A check that rejects counts as \<open>false\<close>.\<close>

definition path_there :: "linux_probe_deps \<Rightarrow> string \<Rightarrow> bool" where
  "path_there deps path = (pd_pathExists deps path = Some True)"

text \<open>The segments from the last to the first.\<close>

fun ancestor_from :: "linux_probe_deps \<Rightarrow> string list \<Rightarrow> string" where
  "ancestor_from deps [] = ''/''"
| "ancestor_from deps (s # ss) =
     (let candidate = ''/'' @ js_join ''/'' (rev (s # ss)) in
      if path_there deps candidate then candidate else ancestor_from deps ss)"

definition nearestExistingAncestor :: "linux_probe_deps \<Rightarrow> string \<Rightarrow> string" where
  "nearestExistingAncestor deps path = ancestor_from deps (rev (filter (\<lambda>s. s \<noteq> '''') (js_split (CHR ''/'') path)))"

definition readDaemonJson :: "linux_probe_deps \<Rightarrow> daemon_json_read" where
  "readDaemonJson deps =
     (case pd_readFile deps ''/etc/docker/daemon.json'' of
        Read_text t \<Rightarrow> \<lparr>dj_text = Some t, dj_unreadable = False\<rparr>
      | Not_there \<Rightarrow> \<lparr>dj_text = None, dj_unreadable = False\<rparr>
      | Read_rejected \<Rightarrow> \<lparr>dj_text = None, dj_unreadable = True\<rparr>)"

definition text_or_null :: "file_read \<Rightarrow> string option" where
  "text_or_null r = (case r of Read_text t \<Rightarrow> Some t | _ \<Rightarrow> None)"

definition DPKG_FORMAT :: string where "DPKG_FORMAT = ''${db:Status-Abbrev} ${Package} ${Version}'' @ [CHR 0x0A]"
definition DPKG_TOOLKIT_FORMAT :: string where "DPKG_TOOLKIT_FORMAT = ''${db:Status-Abbrev} ${Package}'' @ [CHR 0x0A]"

text \<open>The package query of the distribution's family for the toolkit.\<close>

definition toolkit_query :: "linux_probe_deps \<Rightarrow> package_family option \<Rightarrow> command_output option" where
  "toolkit_query deps family =
     (case family of
        Some Apt \<Rightarrow> Some (pd_exec deps ''dpkg-query'' [''-W'', ''-f'', DPKG_TOOLKIT_FORMAT, TOOLKIT_PACKAGE] [])
      | Some Dnf \<Rightarrow> Some (pd_exec deps ''rpm'' [''-q'', TOOLKIT_PACKAGE] [])
      | Some Pacman \<Rightarrow> Some (pd_exec deps ''pacman'' [''-Q'', TOOLKIT_PACKAGE] [])
      | _ \<Rightarrow> None)"

definition package_signals :: "linux_probe_deps \<Rightarrow> package_family option \<Rightarrow> docker_package_signals" where
  "package_signals deps family =
     \<lparr>ps_dockerVersion = Some (pd_exec deps ''docker'' [''--version''] []),
      ps_dpkgQuery = Some (pd_exec deps ''dpkg-query'' ([''-W'', ''-f'', DPKG_FORMAT] @ DOCKER_PACKAGE_CANDIDATES) []),
      ps_rpmQuery = Some (pd_exec deps ''rpm'' (''-q'' # DOCKER_PACKAGE_CANDIDATES) []),
      ps_pacmanQuery =
        (if family = Some Pacman then Some (pd_exec deps ''pacman'' (''-Q'' # PACMAN_PACKAGE_CANDIDATES) []) else None),
      ps_snapList = Some (pd_exec deps ''snap'' [''list'', ''docker''] [])\<rparr>"

definition probeLinux :: "json_parse \<Rightarrow> linux_probe_deps \<Rightarrow> linux_probe_options \<Rightarrow> linux_facts" where
  "probeLinux parse deps options =
     (let run = (\<lambda>cmd args. pd_exec deps cmd args []);
          distribution = parseOsRelease (text_or_null (pd_readFile deps ''/etc/os-release''));
          family = map_option ds_family distribution;
          unameM = run ''uname'' [''-m''];
          smi = run ''nvidia-smi'' [''--query-gpu=uuid,name,compute_cap,memory.total,memory.free,driver_version'',
            ''--format=csv,noheader,nounits''];
          packages = package_signals deps family;
          dockerInfo = pd_exec deps ''docker'' [''-H'', DOCKER_SOCKET, ''info'', ''--format'', ''{{json .}}''] STRIP_DOCKER_ENV;
          cdiList = Some (run ''nvidia-ctk'' [''cdi'', ''list'']);
          systemd = pd_pathExists deps ''/run/systemd/system'';
          daemonJsonRead = readDaemonJson deps;
          nvidia = parseNvidiaSmi (Some smi);
          cli = succeeded (ps_dockerVersion packages) (\<lambda>_. True);
          info = parseDockerInfo parse (if cli then Some dockerInfo else None) cdiList;
          serviceActive = parseServiceActive (Some (run ''systemctl'' [''is-active'', ''docker'']));
          rootlessSocketPresent = (case po_xdgRuntimeDir options of
            None \<Rightarrow> False | Some dir \<Rightarrow> path_there deps (dir @ ''/docker.sock''));
          evidence = daemonJsonNvidiaRuntimeEvidence parse daemonJsonRead;
          diskCheckTarget = (case di_docker_root_dir info of Some d \<Rightarrow> d | None \<Rightarrow> DEFAULT_DOCKER_ROOT_DIR);
          disk = pd_freeDiskBytes deps (nearestExistingAncestor deps diskCheckTarget)
      in \<lparr>fc_architecture = (if co_code unameM = Some 0 then Some (normalizeArchitecture (co_stdout unameM)) else None),
          fc_distribution = distribution,
          fc_immutable_os = path_there deps ''/run/ostree-booted'',
          fc_systemd = systemd,
          fc_driver_version = fst nvidia,
          fc_gpus = snd nvidia,
          fc_docker =
            \<lparr>dk_cli = cli, dk_daemon_reachable = di_daemon_reachable info, dk_engine_identity = di_engine_identity info,
             dk_version = di_version info,
             dk_install_method = detectDockerInstallMethod info packages rootlessSocketPresent serviceActive,
             dk_engine_version = detectEngineVersion (ps_dpkgQuery packages) (ps_rpmQuery packages) (ps_pacmanQuery packages),
             dk_gpu_runtime = di_gpu_runtime info, dk_gpu_runtime_from_config = cdiListsNvidiaGpu cdiList,
             dk_nvidia_runtime = (if di_daemon_reachable info then di_nvidia_runtime info else evidence = Configured),
             dk_address_pools_configured = daemonJsonSetsAddressPools (address_pool_settings parse) daemonJsonRead,
             dk_daemon_json_unreadable = (evidence = Unreadable_json), dk_selinux = di_selinux info,
             dk_docker_root_dir = di_docker_root_dir info, dk_containers_running = di_containers_running info,
             dk_service_active = serviceActive, dk_server_errors = di_server_errors info\<rparr>,
          fc_docker_group = parseDockerGroup (Some (run ''id'' [''-nG''])) (Some (run ''getent'' [''group'', ''docker'']))
            (po_user options),
          fc_toolkit_installed =
            fullToolkitInstalled family (run ''nvidia-ctk'' [''--version'']) (toolkit_query deps family),
          fc_routes = parseProcNetRoute (text_or_null (pd_readFile deps ''/proc/net/route'')),
          fc_free_disk_bytes = disk,
          fc_free_disk_path = diskCheckTarget,
          fc_unknown =
            (if distribution = None then [''distribution''] else []) @
            (if co_code unameM \<noteq> Some 0 then [''architecture''] else []) @
            (if systemd = None then [''init-system''] else []) @
            (if co_code smi = None then [''nvidia-driver''] else []) @
            (if disk = None then [''free-disk''] else [])\<rparr>)"

text \<open>A fact that could not be read is named, so that nothing later has to guess it.\<close>

definition well_read :: "linux_facts \<Rightarrow> bool" where
  "well_read facts \<longleftrightarrow> (fc_distribution facts = None \<longrightarrow> ''distribution'' \<in> set (fc_unknown facts)) \<and>
     (fc_architecture facts = None \<longrightarrow> ''architecture'' \<in> set (fc_unknown facts)) \<and>
     (fc_systemd facts = None \<longrightarrow> ''init-system'' \<in> set (fc_unknown facts)) \<and>
     (fc_free_disk_bytes facts = None \<longrightarrow> ''free-disk'' \<in> set (fc_unknown facts)) \<and>
     (dk_gpu_runtime (fc_docker facts) \<longrightarrow> dk_daemon_reachable (fc_docker facts)) \<and>
     (dk_daemon_reachable (fc_docker facts) \<longrightarrow> dk_cli (fc_docker facts)) \<and>
     (dg_effective (fc_docker_group facts) \<longrightarrow> dg_configured (fc_docker_group facts) = Known True)"

lemma info_of_reachable: "di_gpu_runtime (info_of get cdi) \<Longrightarrow> di_daemon_reachable (info_of get cdi)"
  unfolding info_of_def Let_def by (simp add: ABSENT_def split: if_splits)

lemma parseDockerInfo_reachable:
  "di_gpu_runtime (parseDockerInfo parse res cdi) \<Longrightarrow> di_daemon_reachable (parseDockerInfo parse res cdi)"
  using info_of_reachable by (cases res) (fastforce simp: parseDockerInfo_def ABSENT_def split: option.splits if_splits)+

lemma parseDockerInfo_None: "di_daemon_reachable (parseDockerInfo parse None cdi) = False"
  by (simp add: parseDockerInfo_def ABSENT_def)

lemma parseDockerGroup_effective:
  "dg_effective (parseDockerGroup s g user) \<Longrightarrow> dg_configured (parseDockerGroup s g user) = Known True"
  by (auto simp: parseDockerGroup_def Let_def split: option.splits if_splits)

lemma probeLinux_well_read: "well_read (probeLinux parse deps options)"
proof -
  let ?f = "probeLinux parse deps options"
  have "fc_distribution ?f = None \<longrightarrow> ''distribution'' \<in> set (fc_unknown ?f)"
    "fc_architecture ?f = None \<longrightarrow> ''architecture'' \<in> set (fc_unknown ?f)"
    "fc_systemd ?f = None \<longrightarrow> ''init-system'' \<in> set (fc_unknown ?f)"
    "fc_free_disk_bytes ?f = None \<longrightarrow> ''free-disk'' \<in> set (fc_unknown ?f)"
    by (simp_all add: probeLinux_def Let_def)
  moreover have "dk_gpu_runtime (fc_docker ?f) \<longrightarrow> dk_daemon_reachable (fc_docker ?f)"
    by (simp add: probeLinux_def Let_def parseDockerInfo_reachable)
  moreover have "dk_daemon_reachable (fc_docker ?f) \<longrightarrow> dk_cli (fc_docker ?f)"
    by (simp add: probeLinux_def Let_def parseDockerInfo_None)
  moreover have "dg_effective (fc_docker_group ?f) \<longrightarrow> dg_configured (fc_docker_group ?f) = Known True"
    by (simp add: probeLinux_def Let_def parseDockerGroup_effective)
  ultimately show ?thesis unfolding well_read_def by blast
qed

end
