(* ===== verification/Linux_Blockers.thy ===== *)
theory Linux_Blockers
  imports Linux_Facts
begin

text \<open>
  The reasons a Linux host is refused, with their words and commands
  (\<open>src/src/runtime/environment/linux-blockers.ts\<close>).  Text is its UTF-8 bytes.
\<close>

datatype blocker_reason =
    Unknown_fact | Unsupported_architecture | Driver_missing | Driver_too_old | No_gpu | Compute_capability_too_low
  | Docker_snap | Docker_rootless | Docker_desktop_only | Podman_docker_shim | Docker_unrecognised | Immutable_os
  | Distribution_not_in_recipe | Environment_manifest_unavailable | Arch_manual_install | Insufficient_disk
  | Daemon_json_unreadable | Docker_access_unexplained | Docker_group_manual | Relogin_required | Docker_cli_missing
  | Toolkit_missing | Gpu_runtime_not_configured | Docker_service_inactive | Init_not_systemd

record linux_blocker =
  bk_reason :: blocker_reason
  bk_message :: string
  bk_params :: "(string \<times> string) list option"
  bk_commands :: "string list option"

definition blocker :: "blocker_reason \<Rightarrow> string \<Rightarrow> (string \<times> string) list option \<Rightarrow> string list option \<Rightarrow> linux_blocker" where
  "blocker reason message params commands =
     \<lparr>bk_reason = reason, bk_message = message, bk_params = params, bk_commands = commands\<rparr>"

definition em_dash :: string where "em_dash = [CHR 0xE2, CHR 0x80, CHR 0x94]"

fun installMethodBlocker :: "install_method option \<Rightarrow> linux_blocker option" where
  "installMethodBlocker (Some Snap) = Some (blocker Docker_snap
     (''Docker was installed from the snap store, which does not support the NVIDIA Container '' @
      ''Toolkit. Switch to the docker-ce package instead; nothing here removes the snap install.'') None None)"
| "installMethodBlocker (Some Rootless) = Some (blocker Docker_rootless
     (''Rootless Docker is not supported for this runtime. Switch to a standard (rootful) docker-ce '' @
      ''installation; nothing here removes the rootless install.'') None None)"
| "installMethodBlocker (Some Docker_desktop) = Some (blocker Docker_desktop_only
     (''Docker Desktop without a separate system Docker Engine cannot be configured for this runtime. '' @
      ''Install docker-ce as the system engine; nothing here changes the Docker Desktop install.'') None None)"
| "installMethodBlocker (Some Podman_docker) = Some (blocker Podman_docker_shim
     (''The docker command here is Podman's compatibility shim, not Docker Engine; Podman is not '' @
      ''supported by this runtime. podman-docker conflicts with docker-ce at the package level, so '' @
      ''it must be removed first; install Docker Engine (docker-ce) afterward. Nothing here removes '' @
      ''Podman itself or installs docker-ce over it automatically.'') None None)"
| "installMethodBlocker _ = None"

definition effectiveGpuRuntime :: "linux_facts \<Rightarrow> bool" where
  "effectiveGpuRuntime facts =
     (if dk_daemon_reachable (fc_docker facts) then dk_gpu_runtime (fc_docker facts)
      else dk_gpu_runtime_from_config (fc_docker facts))"

definition groupOnlyCommands :: "bool \<Rightarrow> string \<Rightarrow> string list" where
  "groupOnlyCommands immutableOs user =
     (let usermod = ''sudo usermod -aG docker '' @ user in
      if \<not> immutableOs then [usermod]
      else [''grep -q '^docker:' /etc/group || grep -E '^docker:' /usr/lib/group | sudo tee -a /etc/group'', usermod])"

definition GENERATE_CDI_COMMAND :: string where
  "GENERATE_CDI_COMMAND = ''sudo nvidia-ctk cdi generate --output=/var/run/cdi/nvidia.yaml''"

definition archCommands :: "string \<Rightarrow> bool \<Rightarrow> string list" where
  "archCommands user groupNeeded =
     [''sudo pacman -Syu --needed docker nvidia-container-toolkit'',
      ''sudo nvidia-ctk runtime configure --runtime=docker'',
      GENERATE_CDI_COMMAND,
      ''sudo systemctl restart docker'',
      ''sudo systemctl enable --now docker''] @
     (if groupNeeded \<and> user \<noteq> ''root'' then [''sudo usermod -aG docker '' @ user] else [])"

definition reloginRequiredBlocker :: linux_blocker where
  "reloginRequiredBlocker = blocker Relogin_required
     (''This account is already a member of the docker group, but this login session started before that '' @
      ''took effect. Log out and back in (or restart this session) to pick it up.'') None (Some [])"

datatype install_gate = Gate_recipe | Gate_immutable | Gate_pacman | Gate_unrecognised | Gate_manifest_unavailable | Gate_unqualified

definition gateBlockerApplies :: "install_gate \<Rightarrow> linux_facts \<Rightarrow> bool" where
  "gateBlockerApplies gate facts =
     (case gate of
        Gate_recipe \<Rightarrow> False
      | Gate_immutable \<Rightarrow> \<not> dk_cli (fc_docker facts) \<or> \<not> fc_toolkit_installed facts
      | _ \<Rightarrow> True)"

definition immutableOsBlocker :: "linux_facts \<Rightarrow> linux_blocker" where
  "immutableOsBlocker facts =
     (let missing = (if \<not> dk_cli (fc_docker facts) then [(''docker'', ''Docker Engine'')] else []) @
            (if \<not> fc_toolkit_installed facts then [(''nvidia-container-toolkit'', ''the NVIDIA Container Toolkit'')] else []);
          base = ''This system uses an immutable base (rpm-ostree '' @ em_dash @ '' Silverblue, Kinoite, Bazzite, or similar)'' in
      if missing = []
      then blocker Immutable_os
        (base @ ''. Automatic setup is not offered here; finish the remaining Docker setup by hand, then try again.'') None None
      else let names = js_join '' and '' (map snd missing); plural = length missing > 1 in
        blocker Immutable_os
          (base @ '', and '' @ names @ '' '' @ (if plural then ''are'' else ''is'') @ '' not installed. Installing a package here means '' @
           ''layering it and rebooting, which this integration does not do automatically. '' @
           ''Layer '' @ (if plural then ''them'' else ''it'') @ '' yourself, then try again.'')
          (Some [(''missing'', js_join '','' (map fst missing))]) None)"

definition dockerGroupManualBlocker :: "bool \<Rightarrow> string \<Rightarrow> bool \<Rightarrow> linux_blocker" where
  "dockerGroupManualBlocker immutableOs user everythingElseReady =
     (let commands = groupOnlyCommands immutableOs user;
          run = ''run '' @ js_join '', then '' (map (\<lambda>c. [CHR 0x60] @ c @ [CHR 0x60]) commands) @ '', then log out and back in.'' in
      blocker Docker_group_manual
        (if everythingElseReady
         then ''Everything else is ready '' @ em_dash @ '' Docker, the toolkit and the NVIDIA runtime are all configured. '' @
           ''This account just needs to join the docker group, which is not something this distribution's '' @
           ''automatic install can add for you: '' @ run
         else ''This account also needs to join the docker group: '' @ run)
        (Some [(''user'', user)]) (Some commands))"

definition environmentManifestUnavailableBlocker :: linux_blocker where
  "environmentManifestUnavailableBlocker = blocker Environment_manifest_unavailable
     (''The list of systems where setup can install Docker and the NVIDIA Container Toolkit could not be '' @
      ''loaded, and none was saved before. Check the internet connection and try again.'') None None"

text \<open>Why automatic setup is not offered; the code never asks this of \<open>recipe\<close>, which has no blocker.\<close>

definition gateBlocker :: "install_gate \<Rightarrow> linux_facts \<Rightarrow> linux_distribution \<Rightarrow> string \<Rightarrow> linux_blocker option" where
  "gateBlocker gate facts distribution user =
     (case gate of
        Gate_recipe \<Rightarrow> None
      | Gate_immutable \<Rightarrow> Some (immutableOsBlocker facts)
      | Gate_pacman \<Rightarrow>
          (let groupNeeded = (user \<noteq> ''root'' \<and> dg_configured (fc_docker_group facts) \<noteq> Known True) in
           Some (blocker Arch_manual_install
             (''Arch and its derivatives don't support a partial package install: adding just these two '' @
              ''packages without a full system sync can leave the system inconsistent, so the commands '' @
              ''below run a full '' @ [CHR 0x60] @ ''pacman -Syu'' @ [CHR 0x60] @ '' instead '' @ em_dash @
              '' which may itself update your kernel and NVIDIA '' @
              ''driver. Reboot afterward if it does'' @
              (if groupNeeded then '', then log out and back in so the new docker group membership takes effect.'' else ''.'') @
              '' Automatic install is not offered here.'')
             (Some [(''family'', ''pacman'')]) (Some (archCommands user groupNeeded))))
      | Gate_unrecognised \<Rightarrow> Some (blocker Docker_unrecognised
          (''This machine's docker command does not match any Docker install this integration '' @
           ''recognises (not docker-ce, docker.io, moby-engine, snap, rootless, Docker Desktop, or the '' @
           ''podman-docker shim). Nothing will be installed over it automatically.'') None None)
      | Gate_manifest_unavailable \<Rightarrow> Some environmentManifestUnavailableBlocker
      | Gate_unqualified \<Rightarrow> Some (blocker Distribution_not_in_recipe
          ''Setting the runtime up automatically is only qualified on some distributions so far.''
          (Some [(''id'', ds_id distribution), (''version_id'', ds_version_id distribution),
            (''arch'', case fc_architecture facts of Some a \<Rightarrow> a | None \<Rightarrow> ''unknown'')]) None))"

definition initNotSystemdBlocker :: linux_blocker where
  "initNotSystemdBlocker =
     blocker Init_not_systemd ''This system does not run systemd, which the Docker install needs.'' None None"

definition daemonJsonUnreadableBlocker :: linux_blocker where
  "daemonJsonUnreadableBlocker = blocker Daemon_json_unreadable
     (''/etc/docker/daemon.json exists but could not be read or parsed, so this integration cannot tell '' @
      ''whether the NVIDIA runtime is already configured there. Fix the file's permissions or contents '' @
      ''by hand, then try again '' @ em_dash @ '' nothing here will overwrite a file it cannot read back.'') None None"

definition CONFIGURE_RUNTIME_COMMANDS :: "string list" where
  "CONFIGURE_RUNTIME_COMMANDS =
     [''sudo nvidia-ctk runtime configure --runtime=docker'', GENERATE_CDI_COMMAND, ''sudo systemctl restart docker'']"

definition ENABLE_SERVICE_COMMANDS :: "string list" where
  "ENABLE_SERVICE_COMMANDS = [''sudo systemctl enable --now docker'']"

definition later :: "string \<Rightarrow> string" where
  "later what = '' After you log back in, setup will offer to '' @ what @ ''.''"

definition packageStep :: "install_gate \<Rightarrow> blocker_reason \<Rightarrow> string \<Rightarrow> string \<Rightarrow> linux_blocker" where
  "packageStep gate reason subj pacmanPackage = blocker reason
     (subj @ '' is not installed.'' @
      (if gate = Gate_recipe then later ''install it''
       else if gate = Gate_pacman
       then '' Install it with a full system sync (Arch does not support partial upgrades); reboot '' @
         ''afterward if the kernel or NVIDIA driver was updated.''
       else if gate = Gate_manifest_unavailable
       then '' Whether setup can install it for you is not known until the list of supported '' @
         ''systems loads; try again with a working internet connection.''
       else '' Automatic install is not offered on this system; install it yourself.''))
     None (Some (if gate = Gate_pacman then [''sudo pacman -Syu --needed '' @ pacmanPackage] else []))"

definition runtime_step :: "linux_facts \<Rightarrow> install_gate \<Rightarrow> linux_blocker" where
  "runtime_step facts gate =
     (let recipe = (gate = Gate_recipe); specOnly = dk_nvidia_runtime (fc_docker facts) in
      if dk_daemon_json_unreadable (fc_docker facts) \<and> \<not> specOnly then daemonJsonUnreadableBlocker
      else blocker Gpu_runtime_not_configured
        ((if specOnly then ''Docker has no NVIDIA CDI specification, so it cannot pass the GPU into a container.''
          else ''Docker is not configured with the NVIDIA runtime and has no NVIDIA CDI specification. '' @
            ''Configuring it restarts Docker, which stops any running containers.'') @
         (if recipe then later ''configure it'' else '' Configure it yourself with the commands below.''))
        None (Some (if recipe then [] else if specOnly then [GENERATE_CDI_COMMAND] else CONFIGURE_RUNTIME_COMMANDS)))"

definition service_step :: "install_gate \<Rightarrow> linux_blocker" where
  "service_step gate = blocker Docker_service_inactive
     (''docker.service is not running.'' @
      (if gate = Gate_recipe then later ''enable and start it'' else '' Enable and start it with the command below.''))
     None (Some (if gate = Gate_recipe then [] else ENABLE_SERVICE_COMMANDS))"

definition missingComponentBlockers :: "linux_facts \<Rightarrow> install_gate \<Rightarrow> linux_blocker list" where
  "missingComponentBlockers facts gate =
     (if \<not> dk_cli (fc_docker facts) then [packageStep gate Docker_cli_missing ''Docker Engine'' ''docker''] else []) @
     (if \<not> fc_toolkit_installed facts
      then [packageStep gate Toolkit_missing ''The NVIDIA Container Toolkit'' ''nvidia-container-toolkit''] else []) @
     (if \<not> effectiveGpuRuntime facts then [runtime_step facts gate] else []) @
     (if dk_service_active (fc_docker facts) = Known False then [service_step gate] else [])"

end
