(* ===== verification/Linux_Plan.thy ===== *)
theory Linux_Plan
  imports Linux_Blockers
begin

text \<open>
  Turning the facts of a Linux host into a verdict: adopt it, install what is missing, or explain why neither
  is possible (\<open>src/src/runtime/environment/linux-plan.ts\<close>).

  The parameter \<open>num\<close> is \<open>Number(segment) || 0\<close> for a segment of a dotted version, into any ordered type with a
  zero.  Past the universal blockers the code takes the distribution for read; the model answers \<^const>\<open>None\<close> where it
  is not, which no probed host reaches (\<open>probed_host_has_a_verdict\<close>).
\<close>

section \<open>Plans\<close>

datatype change_code =
    Add_repository | Install_packages | Configure_nvidia_runtime | Generate_cdi_spec | Enable_docker_service
  | Add_user_to_docker_group | Restart_docker

record linux_system_change =
  ch_code :: change_code
  ch_text :: string
  ch_params :: "(string \<times> string) list option"

record linux_install_plan =
  ip_recipe_id :: string
  ip_requires_elevation :: bool
  ip_may_require_relogin :: bool
  ip_system_changes :: "linux_system_change list"

record linux_verdict =
  vd_availability :: managed_availability
  vd_adopts_existing_engine :: bool
  vd_install_plan :: "linux_install_plan option"
  vd_blockers :: "linux_blocker list"

record linux_assessment =
  as_verdict :: linux_verdict
  as_warnings :: "LinuxPlanWarning list"

record recipe_distribution =
  rd_id :: string
  rd_version_id :: string
  rd_arch :: string

record linux_assessment_options =
  op_recipeId :: string
  op_recipeDistributions :: "recipe_distribution list option"
  op_minimumDriverVersion :: string
  op_minimumComputeCapability :: string
  op_requiredDiskBytes :: "nat option"
  op_currentUser :: string

definition SUPPORTED_ARCHITECTURES :: "string list" where
  "SUPPORTED_ARCHITECTURES = [''x86_64'', ''aarch64'']"

section \<open>Versions\<close>

fun compare_segments :: "'n :: {linorder, zero} list \<Rightarrow> 'n list \<Rightarrow> int" where
  "compare_segments [] [] = 0"
| "compare_segments (x # xs) [] = (if x \<noteq> 0 then (if x < 0 then -1 else 1) else compare_segments xs [])"
| "compare_segments [] (y # ys) = (if 0 \<noteq> y then (if 0 < y then -1 else 1) else compare_segments [] ys)"
| "compare_segments (x # xs) (y # ys) = (if x \<noteq> y then (if x < y then -1 else 1) else compare_segments xs ys)"

definition compareDottedVersions :: "(string \<Rightarrow> 'n :: {linorder, zero}) \<Rightarrow> string \<Rightarrow> string \<Rightarrow> int" where
  "compareDottedVersions num a b =
     compare_segments (map num (js_split (CHR ''.'') a)) (map num (js_split (CHR ''.'') b))"

definition best_gpu :: "(string \<Rightarrow> 'n :: {linorder, zero}) \<Rightarrow> gpu_facts list \<Rightarrow> gpu_facts" where
  "best_gpu num gpus = foldl (\<lambda>champion gpu.
     if compareDottedVersions num (gf_compute_capability gpu) (gf_compute_capability champion) > 0 then gpu else champion)
     (hd gpus) (tl gpus)"

section \<open>The gate\<close>

definition dockerInstallRecognised :: "linux_facts \<Rightarrow> linux_distribution \<Rightarrow> bool" where
  "dockerInstallRecognised facts distribution =
     (dk_install_method (fc_docker facts) \<noteq> None \<or> ds_family distribution = Pacman \<and> dk_cli (fc_docker facts))"

definition installGate :: "linux_facts \<Rightarrow> linux_distribution \<Rightarrow> linux_assessment_options \<Rightarrow> install_gate" where
  "installGate facts distribution options =
     (if fc_immutable_os facts then Gate_immutable
      else if ds_family distribution = Pacman then Gate_pacman
      else if dk_cli (fc_docker facts) \<and> dk_install_method (fc_docker facts) = None then Gate_unrecognised
      else case op_recipeDistributions options of
          None \<Rightarrow> Gate_manifest_unavailable
        | Some entries \<Rightarrow>
            if list_ex (\<lambda>entry. rd_id entry = ds_id distribution \<and> rd_version_id entry = ds_version_id distribution \<and>
                 Some (rd_arch entry) = fc_architecture facts) entries
            then Gate_recipe else Gate_unqualified)"

section \<open>Blockers no install fixes\<close>

definition driver_blockers :: "(string \<Rightarrow> 'n :: {linorder, zero}) \<Rightarrow> linux_facts \<Rightarrow> linux_assessment_options \<Rightarrow> linux_blocker list" where
  "driver_blockers num facts options =
     (case fc_driver_version facts of
        None \<Rightarrow>
          if ''nvidia-driver'' \<in> set (fc_unknown facts) then []
          else [blocker Driver_missing ''No NVIDIA driver was found. Install the driver for your card, then try again.'' None None]
      | Some driver \<Rightarrow>
          (if compareDottedVersions num driver (op_minimumDriverVersion options) < 0
           then [blocker Driver_too_old
             (''The NVIDIA driver is too old: this engine needs '' @ op_minimumDriverVersion options @
              '' or newer, this machine has '' @ driver @ ''.'')
             (Some [(''required'', op_minimumDriverVersion options), (''actual'', driver)]) None]
           else []) @
          (if fc_gpus facts = []
           then [blocker No_gpu ''The NVIDIA driver is installed but reports no usable GPU.'' None None]
           else let best = gf_compute_capability (best_gpu num (fc_gpus facts)) in
             if compareDottedVersions num best (op_minimumComputeCapability options) < 0
             then [blocker Compute_capability_too_low
               (''Needs a GPU with compute capability '' @ op_minimumComputeCapability options @
                '' or newer (Ampere+); the best card here has '' @ best @ ''.'')
               (Some [(''required'', op_minimumComputeCapability options), (''actual'', best)]) None]
             else []))"

definition disk_blockers :: "linux_facts \<Rightarrow> linux_assessment_options \<Rightarrow> linux_blocker list" where
  "disk_blockers facts options =
     (case (op_requiredDiskBytes options, fc_free_disk_bytes facts) of
        (Some required, Some free) \<Rightarrow>
          if free < required
          then [blocker Insufficient_disk ''There is not enough free disk space for the runtime image.''
            (Some [(''free'', show_nat free), (''required'', show_nat required)]) None]
          else []
      | _ \<Rightarrow> [])"

definition universal_blockers :: "(string \<Rightarrow> 'n :: {linorder, zero}) \<Rightarrow> linux_facts \<Rightarrow> linux_assessment_options \<Rightarrow> linux_blocker list" where
  "universal_blockers num facts options =
     map (\<lambda>name. blocker Unknown_fact (''Could not determine '' @ name @ '' on this system.'') (Some [(''fact'', name)]) None)
       (fc_unknown facts) @
     (case fc_architecture facts of
        None \<Rightarrow> []
      | Some arch \<Rightarrow>
          if arch \<in> set SUPPORTED_ARCHITECTURES then []
          else [blocker Unsupported_architecture
            (''This machine's architecture ('' @ arch @ '') is not supported; only x86_64 and aarch64 can run this runtime.'')
            (Some [(''actual'', arch)]) None]) @
     driver_blockers num facts options @
     (case installMethodBlocker (dk_install_method (fc_docker facts)) of None \<Rightarrow> [] | Some b \<Rightarrow> [b]) @
     disk_blockers facts options"

section \<open>The install plan\<close>

definition group_change :: "linux_assessment_options \<Rightarrow> linux_system_change" where
  "group_change options =
     \<lparr>ch_code = Add_user_to_docker_group,
      ch_text = ''Add '' @ op_currentUser options @ '' to the docker group. This grants access equivalent to root on this machine.'',
      ch_params = Some [(''user'', op_currentUser options)]\<rparr>"

fun family_name :: "package_family \<Rightarrow> string" where
  "family_name Apt = ''apt''" | "family_name Dnf = ''dnf''" | "family_name Pacman = ''pacman''"
| "family_name Other_family = ''other''"

definition familyLabel :: "package_family \<Rightarrow> string" where
  "familyLabel family = (case family of Apt \<Rightarrow> ''apt'' | Dnf \<Rightarrow> ''dnf'' | _ \<Rightarrow> ''package'')"

definition dockerPackages :: "linux_facts \<Rightarrow> string list" where
  "dockerPackages facts =
     (if dk_install_method (fc_docker facts) = None then [''docker-ce'', ''docker-ce-cli'', ''containerd.io''] else [])"

definition toolkitPackages :: "linux_facts \<Rightarrow> string list" where
  "toolkitPackages facts = (if fc_toolkit_installed facts then [] else [''nvidia-container-toolkit''])"

definition package_changes :: "linux_facts \<Rightarrow> linux_distribution \<Rightarrow> linux_system_change list" where
  "package_changes facts distribution =
     (let family = ds_family distribution; missingPackages = dockerPackages facts @ toolkitPackages facts in
      (if dockerPackages facts \<noteq> []
       then [\<lparr>ch_code = Add_repository,
         ch_text = ''Add Docker's official '' @ familyLabel family @ '' repository and signing key (download.docker.com).'',
         ch_params = Some [(''vendor'', ''docker''), (''family'', family_name family)]\<rparr>]
       else []) @
      (if toolkitPackages facts \<noteq> []
       then [\<lparr>ch_code = Add_repository,
         ch_text = ''Add the NVIDIA Container Toolkit '' @ familyLabel family @
           '' repository and signing key (nvidia.github.io/libnvidia-container).'',
         ch_params = Some [(''vendor'', ''nvidia''), (''family'', family_name family)]\<rparr>]
       else []) @
      (if missingPackages \<noteq> []
       then [\<lparr>ch_code = Install_packages,
         ch_text = ''Install the missing packages: '' @ js_join '', '' missingPackages @ ''.'',
         ch_params = Some [(''packages'', js_join '','' missingPackages)]\<rparr>]
       else []))"

definition runtime_changes :: "linux_facts \<Rightarrow> linux_system_change list" where
  "runtime_changes facts =
     (let gpuReady = effectiveGpuRuntime facts in
      (if \<not> gpuReady \<and> \<not> dk_nvidia_runtime (fc_docker facts)
       then [\<lparr>ch_code = Configure_nvidia_runtime,
         ch_text = ''Configure the NVIDIA runtime for Docker (nvidia-ctk runtime configure --runtime=docker).'',
         ch_params = None\<rparr>]
       else []) @
      (if \<not> gpuReady
       then [\<lparr>ch_code = Generate_cdi_spec,
         ch_text =
           ''Generate the NVIDIA CDI specification Docker uses to pass the GPU into containers '' @
           ''(nvidia-ctk cdi generate --output=/var/run/cdi/nvidia.yaml), and keep it current after '' @
           ''driver updates and reboots with nvidia-cdi-refresh.path where the toolkit provides it.'',
         ch_params = None\<rparr>]
       else []))"

definition access_changes :: "linux_facts \<Rightarrow> linux_assessment_options \<Rightarrow> linux_system_change list" where
  "access_changes facts options =
     (if dk_daemon_reachable (fc_docker facts) then []
      else (if dk_service_active (fc_docker facts) \<noteq> Known True
            then [\<lparr>ch_code = Enable_docker_service, ch_text = ''Enable and start docker.service.'', ch_params = None\<rparr>]
            else []) @
           (if dg_configured (fc_docker_group facts) \<noteq> Known True \<and> op_currentUser options \<noteq> ''root''
            then [group_change options] else []))"

definition restart_changes :: "linux_facts \<Rightarrow> linux_system_change list" where
  "restart_changes facts =
     (let live = dk_daemon_reachable (fc_docker facts);
          configureRuntime = (\<not> effectiveGpuRuntime facts \<and> \<not> dk_nvidia_runtime (fc_docker facts)) in
      if configureRuntime \<and> (live \<or> dk_service_active (fc_docker facts) = Known True)
      then let count = (if live then Some (dk_containers_running (fc_docker facts)) else None) in
        [\<lparr>ch_code = Restart_docker,
          ch_text =
            (case count of
               None \<Rightarrow> ''Restart Docker to load the new runtime configuration; any running containers will stop.''
             | Some n \<Rightarrow>
                 if n > 0 then ''Restart Docker to load the new runtime configuration; '' @ show_int n @
                   '' running container(s) will stop.''
                 else ''Restart Docker to load the new runtime configuration.''),
          ch_params = Some [(''running_containers'', case count of None \<Rightarrow> ''unknown'' | Some n \<Rightarrow> show_int n)]\<rparr>]
      else [])"

definition buildInstallPlan :: "linux_facts \<Rightarrow> linux_distribution \<Rightarrow> linux_assessment_options \<Rightarrow> linux_install_plan" where
  "buildInstallPlan facts distribution options =
     (let changes = package_changes facts distribution @ runtime_changes facts @ access_changes facts options @
            restart_changes facts in
      \<lparr>ip_recipe_id = op_recipeId options, ip_requires_elevation = (changes \<noteq> []), ip_may_require_relogin = True,
       ip_system_changes = changes\<rparr>)"

section \<open>The verdict\<close>

definition blocked :: "linux_blocker list \<Rightarrow> linux_verdict" where
  "blocked blockers = \<lparr>vd_availability = Prerequisite_blocked, vd_adopts_existing_engine = False, vd_install_plan = None,
     vd_blockers = blockers\<rparr>"

definition adopted :: linux_verdict where
  "adopted = \<lparr>vd_availability = Setup_required, vd_adopts_existing_engine = True, vd_install_plan = None, vd_blockers = []\<rparr>"

definition planned :: "linux_install_plan \<Rightarrow> linux_verdict" where
  "planned plan = \<lparr>vd_availability = Setup_required, vd_adopts_existing_engine = False, vd_install_plan = Some plan,
     vd_blockers = []\<rparr>"

definition unexplained_member :: linux_blocker where
  "unexplained_member = blocker Docker_access_unexplained
     (''The docker group already includes this account and this login session already has it, and '' @
      ''the daemon still did not answer over the system socket. Something other than group '' @
      ''membership is blocking access '' @ em_dash @ '' check the socket's permissions or an AppArmor/SELinux '' @
      ''policy '' @ em_dash @ '' this integration cannot fix it automatically.'') None None"

definition unexplained_root :: linux_blocker where
  "unexplained_root = blocker Docker_access_unexplained
     (''Running as root, and docker.service is active, but the daemon still did not answer over the '' @
      ''system socket. This is not a group-membership problem '' @ em_dash @ '' root needs none '' @ em_dash @ '' and this '' @
      ''integration has no further diagnosis to offer automatically.'') None None"

text \<open>The gate's blocker as a list, for a gate that has one.\<close>

definition gate_blockers :: "install_gate \<Rightarrow> linux_facts \<Rightarrow> linux_distribution \<Rightarrow> string \<Rightarrow> linux_blocker list" where
  "gate_blockers gate facts distribution user =
     (case gateBlocker gate facts distribution user of None \<Rightarrow> [] | Some b \<Rightarrow> [b])"

text \<open>The daemon did not answer though the account is a member of the group.\<close>

definition member_path ::
  "linux_facts \<Rightarrow> linux_distribution \<Rightarrow> install_gate \<Rightarrow> linux_assessment_options \<Rightarrow> linux_verdict option" where
  "member_path facts distribution gate options =
     (if \<not> dk_daemon_reachable (fc_docker facts) \<and> dg_configured (fc_docker_group facts) = Known True then
        let components = missingComponentBlockers facts gate in
        if \<not> dg_effective (fc_docker_group facts) \<and> op_currentUser options \<noteq> ''root''
        then Some (blocked ([reloginRequiredBlocker] @ components @
          (if components \<noteq> [] \<and> gate \<noteq> Gate_recipe \<and> gate \<noteq> Gate_pacman \<and> gateBlockerApplies gate facts
           then gate_blockers gate facts distribution (op_currentUser options) else [])))
        else if dg_effective (fc_docker_group facts) \<and> components = [] then Some (blocked [unexplained_member])
        else None
      else None)"

definition readyExceptAccess :: "linux_facts \<Rightarrow> linux_distribution \<Rightarrow> bool" where
  "readyExceptAccess facts distribution \<longleftrightarrow>
     dk_cli (fc_docker facts) \<and> fc_toolkit_installed facts \<and> dockerInstallRecognised facts distribution \<and>
     effectiveGpuRuntime facts \<and> dk_service_active (fc_docker facts) = Known True \<and>
     \<not> dk_daemon_reachable (fc_docker facts)"

definition access_verdict ::
  "linux_facts \<Rightarrow> linux_distribution \<Rightarrow> install_gate \<Rightarrow> linux_assessment_options \<Rightarrow> linux_verdict" where
  "access_verdict facts distribution gate options =
     (if op_currentUser options = ''root'' then blocked [unexplained_root]
      else if gate = Gate_manifest_unavailable
      then blocked (gate_blockers gate facts distribution (op_currentUser options))
      else if gate \<noteq> Gate_recipe
      then blocked [dockerGroupManualBlocker (fc_immutable_os facts) (op_currentUser options) True]
      else planned \<lparr>ip_recipe_id = op_recipeId options, ip_requires_elevation = True, ip_may_require_relogin = True,
                    ip_system_changes = [group_change options]\<rparr>)"

definition gated_verdict ::
  "linux_facts \<Rightarrow> linux_distribution \<Rightarrow> install_gate \<Rightarrow> linux_assessment_options \<Rightarrow> linux_verdict" where
  "gated_verdict facts distribution gate options =
     (let user = op_currentUser options in
      if gateBlockerApplies gate facts then blocked (gate_blockers gate facts distribution user)
      else let groupNeeded = (\<not> dk_daemon_reachable (fc_docker facts) \<and> user \<noteq> ''root'' \<and>
                 dg_configured (fc_docker_group facts) \<noteq> Known True);
               steps = missingComponentBlockers facts gate @
                 (if groupNeeded then [dockerGroupManualBlocker (fc_immutable_os facts) user False] else []) in
        blocked (if steps \<noteq> [] then steps else gate_blockers gate facts distribution user))"

definition verdict ::
  "(string \<Rightarrow> 'n :: {linorder, zero}) \<Rightarrow> linux_facts \<Rightarrow> linux_assessment_options \<Rightarrow> linux_verdict option" where
  "verdict num facts options =
     (let universal = universal_blockers num facts options; docker = fc_docker facts in
      if universal \<noteq> [] then Some (blocked universal)
      else if dk_daemon_reachable docker \<and> dk_gpu_runtime docker then Some adopted
      else case fc_distribution facts of
          None \<Rightarrow> None
        | Some distribution \<Rightarrow>
            let gate = installGate facts distribution options in
            Some (case member_path facts distribution gate options of
                Some v \<Rightarrow> v
              | None \<Rightarrow>
                  if readyExceptAccess facts distribution then access_verdict facts distribution gate options
                  else if gate \<noteq> Gate_recipe then gated_verdict facts distribution gate options
                  else if \<not> effectiveGpuRuntime facts \<and> \<not> dk_nvidia_runtime docker \<and> dk_daemon_json_unreadable docker
                  then blocked [daemonJsonUnreadableBlocker]
                  else if fc_systemd facts = Some False then blocked [initNotSystemdBlocker]
                  else planned (buildInstallPlan facts distribution options)))"

definition assessLinux ::
  "(string \<Rightarrow> 'n :: {linorder, zero}) \<Rightarrow> linux_facts \<Rightarrow> linux_assessment_options \<Rightarrow> linux_assessment option" where
  "assessLinux num facts options =
     map_option (\<lambda>v.
       \<lparr>as_verdict = v,
        as_warnings = (case dockerAddressPoolWarning
          (dk_daemon_reachable (fc_docker facts) \<or> dk_service_active (fc_docker facts) = Known True)
          (dk_address_pools_configured (fc_docker facts)) (fc_routes facts) of None \<Rightarrow> [] | Some w \<Rightarrow> [w])\<rparr>)
       (verdict num facts options)"

end
