(* ===== verification/Linux_Plan_Props.thy ===== *)
theory Linux_Plan_Props
  imports Linux_Plan
begin

text \<open>
  What a verdict promises: it is one of three, a plan is made only where the host qualifies and adds only what
  is missing, and carrying a plan out leaves a host that needs no second one.
\<close>

section \<open>The shape of a verdict\<close>

lemma blocked_simps [simp]:
  "vd_install_plan (blocked bs) = None" "vd_adopts_existing_engine (blocked bs) = False" "vd_blockers (blocked bs) = bs"
  "vd_availability (blocked bs) = Prerequisite_blocked"
  "vd_install_plan (planned p) = Some p" "vd_adopts_existing_engine (planned p) = False" "vd_blockers (planned p) = []"
  "vd_install_plan adopted = None" "vd_adopts_existing_engine adopted = True" "vd_blockers adopted = []"
  "planned p \<noteq> blocked bs" "blocked bs \<noteq> planned p" "planned p \<noteq> adopted" "adopted \<noteq> planned p" "adopted \<noteq> blocked bs"
  "blocked bs \<noteq> adopted" "planned p = planned q \<longleftrightarrow> p = q" "blocked bs = blocked cs \<longleftrightarrow> bs = cs"
  by (auto simp: blocked_def planned_def adopted_def)

lemma gate_blockers_ne: "gate \<noteq> Gate_recipe \<Longrightarrow> gate_blockers gate facts d user \<noteq> []"
  by (cases gate) (simp_all add: gate_blockers_def gateBlocker_def Let_def)

lemma member_path_blocked:
  "member_path facts d gate options = Some v \<Longrightarrow> \<exists>bs. bs \<noteq> [] \<and> v = blocked bs"
  by (auto simp: member_path_def Let_def split: if_splits)

lemma gated_verdict_blocked:
  "gate \<noteq> Gate_recipe \<Longrightarrow> \<exists>bs. bs \<noteq> [] \<and> gated_verdict facts d gate options = blocked bs"
  by (auto simp: gated_verdict_def Let_def gate_blockers_ne)

text \<open>The paths to a plan, and what was checked on the way.\<close>

definition plan_ready :: "(string \<Rightarrow> 'n :: {linorder, zero}) \<Rightarrow> linux_facts \<Rightarrow> linux_assessment_options \<Rightarrow> linux_distribution \<Rightarrow> bool" where
  "plan_ready num facts options d \<longleftrightarrow>
     universal_blockers num facts options = [] \<and> \<not> (dk_daemon_reachable (fc_docker facts) \<and> dk_gpu_runtime (fc_docker facts)) \<and>
     fc_distribution facts = Some d \<and> installGate facts d options = Gate_recipe \<and>
     member_path facts d Gate_recipe options = None"

lemma verdict_later:
  assumes "universal_blockers num facts options = []" "\<not> (dk_daemon_reachable (fc_docker facts) \<and> dk_gpu_runtime (fc_docker facts))"
    "fc_distribution facts = Some d" "installGate facts d options = gate"
  shows "verdict num facts options = Some (case member_path facts d gate options of
      Some v \<Rightarrow> v
    | None \<Rightarrow>
        if readyExceptAccess facts d then access_verdict facts d gate options
        else if gate \<noteq> Gate_recipe then gated_verdict facts d gate options
        else if \<not> effectiveGpuRuntime facts \<and> \<not> dk_nvidia_runtime (fc_docker facts) \<and> dk_daemon_json_unreadable (fc_docker facts)
        then blocked [daemonJsonUnreadableBlocker]
        else if fc_systemd facts = Some False then blocked [initNotSystemdBlocker]
        else planned (buildInstallPlan facts d options))"
  unfolding verdict_def Let_def using assms by auto

lemma verdict_total:
  assumes "well_read facts"
  shows "\<exists>v. verdict num facts options = Some v"
proof (cases "fc_distribution facts")
  case None
  then have "universal_blockers num facts options \<noteq> []"
    using assms by (auto simp: well_read_def universal_blockers_def)
  then show ?thesis by (simp add: verdict_def)
next
  case (Some d)
  then show ?thesis unfolding verdict_def Let_def by simp
qed

lemma verdict_cases:
  assumes "verdict num facts options = Some v"
  obtains (blocked) bs where "bs \<noteq> []" "v = blocked bs"
    | (adopted) "v = adopted" "dk_daemon_reachable (fc_docker facts)" "dk_gpu_runtime (fc_docker facts)"
        "universal_blockers num facts options = []"
    | (group) d plan where "v = planned plan" "plan_ready num facts options d" "readyExceptAccess facts d"
        "op_currentUser options \<noteq> ''root''" "ip_system_changes plan = [group_change options]"
        "ip_requires_elevation plan" "ip_recipe_id plan = op_recipeId options"
    | (install) d where "v = planned (buildInstallPlan facts d options)" "plan_ready num facts options d"
        "\<not> readyExceptAccess facts d" "fc_systemd facts \<noteq> Some False"
        "\<not> (\<not> effectiveGpuRuntime facts \<and> \<not> dk_nvidia_runtime (fc_docker facts) \<and> dk_daemon_json_unreadable (fc_docker facts))"
proof (cases "universal_blockers num facts options \<noteq> [] \<or> dk_daemon_reachable (fc_docker facts) \<and> dk_gpu_runtime (fc_docker facts)")
  case True
  with assms blocked adopted show thesis by (auto simp: verdict_def Let_def split: if_splits)
next
  case False
  then obtain d where d: "fc_distribution facts = Some d" using assms by (auto simp: verdict_def Let_def split: option.splits)
  let ?g = "installGate facts d options"
  note later = verdict_later [OF _ _ d refl, of num options, unfolded assms option.inject]
  show thesis
  proof (cases "member_path facts d ?g options")
    case (Some w)
    with later False have "v = w" by simp
    with blocked member_path_blocked [OF Some] show thesis by blast
  next
    case None
    show thesis
    proof (cases "?g = Gate_recipe")
      case g: True
      have ready: "plan_ready num facts options d" using False d None g by (simp add: plan_ready_def)
      have v: "v = (if readyExceptAccess facts d then access_verdict facts d Gate_recipe options
          else if \<not> effectiveGpuRuntime facts \<and> \<not> dk_nvidia_runtime (fc_docker facts) \<and> dk_daemon_json_unreadable (fc_docker facts)
          then blocked [daemonJsonUnreadableBlocker]
          else if fc_systemd facts = Some False then blocked [initNotSystemdBlocker]
          else planned (buildInstallPlan facts d options))"
        using later False None g by simp
      show thesis
      proof (cases "readyExceptAccess facts d")
        case True
        with v have "v = access_verdict facts d Gate_recipe options" by simp
        with blocked group [OF _ ready True] show thesis by (auto simp: access_verdict_def split: if_splits)
      next
        case r: False
        with v blocked install [OF _ ready r] show thesis by (auto split: if_splits)
      qed
    next
      case g: False
      have v: "v = (if readyExceptAccess facts d then access_verdict facts d ?g options else gated_verdict facts d ?g options)"
        using later False None g by simp
      have "\<exists>bs. bs \<noteq> [] \<and> access_verdict facts d ?g options = blocked bs"
        using g by (auto simp: access_verdict_def gate_blockers_ne)
      with v blocked gated_verdict_blocked [OF g] show thesis by (metis (full_types))
    qed
  qed
qed

text \<open>
  C25. A host that was probed always gets a verdict, and it is one of three: it is adopted as it stands, it gets a
  plan, or it is refused with at least one reason.
\<close>

theorem probed_host_gets_one_of_three:
  "\<exists>a. assessLinux num (probeLinux parse deps po) options = Some a \<and>
     (as_verdict a = adopted \<or> (\<exists>plan. as_verdict a = planned plan) \<or> (\<exists>bs. bs \<noteq> [] \<and> as_verdict a = blocked bs))"
proof -
  let ?f = "probeLinux parse deps po"
  obtain v where v: "verdict num ?f options = Some v" using verdict_total [OF probeLinux_well_read] by blast
  then have "v = adopted \<or> (\<exists>plan. v = planned plan) \<or> (\<exists>bs. bs \<noteq> [] \<and> v = blocked bs)"
    by (cases rule: verdict_cases) auto
  with v show ?thesis by (simp add: assessLinux_def)
qed

section \<open>A plan adds only what is missing\<close>

text \<open>What justifies a change on this host.\<close>

fun needed :: "linux_facts \<Rightarrow> linux_assessment_options \<Rightarrow> linux_system_change \<Rightarrow> bool" where
  "needed facts options change =
     (let docker = fc_docker facts;
          no_docker = (\<not> dk_cli docker \<and> dk_install_method docker = None);
          no_runtime = (\<not> effectiveGpuRuntime facts \<and> \<not> dk_nvidia_runtime docker);
          systemd = (fc_systemd facts \<noteq> Some False) in
      case ch_code change of
        Add_repository \<Rightarrow>
          if ch_params change = Some [(''vendor'', ''nvidia''), (''family'', case fc_distribution facts of
               Some d \<Rightarrow> family_name (ds_family d) | None \<Rightarrow> '''')]
          then \<not> fc_toolkit_installed facts else no_docker
      | Install_packages \<Rightarrow> no_docker \<or> \<not> fc_toolkit_installed facts
      | Configure_nvidia_runtime \<Rightarrow> no_runtime \<and> \<not> dk_daemon_json_unreadable docker
      | Generate_cdi_spec \<Rightarrow> \<not> effectiveGpuRuntime facts
      | Enable_docker_service \<Rightarrow> systemd \<and> \<not> dk_daemon_reachable docker \<and> dk_service_active docker \<noteq> Known True
      | Add_user_to_docker_group \<Rightarrow> \<not> dk_daemon_reachable docker \<and> op_currentUser options \<noteq> ''root'' \<and>
          dg_configured (fc_docker_group facts) \<noteq> Known True
      | Restart_docker \<Rightarrow> systemd \<and> no_runtime \<and> (dk_daemon_reachable docker \<or> dk_service_active docker = Known True))"

text \<open>The host qualifies for the recipe, and nothing of it is of a kind the recipe does not touch.\<close>

definition qualifies :: "linux_facts \<Rightarrow> linux_assessment_options \<Rightarrow> bool" where
  "qualifies facts options \<longleftrightarrow> fc_unknown facts = [] \<and> \<not> fc_immutable_os facts \<and>
     dk_install_method (fc_docker facts) \<in> {None, Some Docker_ce, Some Docker_io, Some Moby_engine} \<and>
     (\<exists>d entries. fc_distribution facts = Some d \<and> ds_family d \<noteq> Pacman \<and> op_recipeDistributions options = Some entries \<and>
        (\<exists>e \<in> set entries. rd_id e = ds_id d \<and> rd_version_id e = ds_version_id d \<and> Some (rd_arch e) = fc_architecture facts))"

lemma installMethodBlocker_None:
  "installMethodBlocker m = None \<longleftrightarrow> m \<in> {None, Some Docker_ce, Some Docker_io, Some Moby_engine}"
  by (cases m rule: installMethodBlocker.cases) simp_all

lemma plan_ready_qualifies:
  assumes "plan_ready num facts options d"
  shows "qualifies facts options" "\<not> (dk_cli (fc_docker facts) \<and> dk_install_method (fc_docker facts) = None)"
proof -
  have u: "fc_unknown facts = []" "installMethodBlocker (dk_install_method (fc_docker facts)) = None"
    using assms by (auto simp: plan_ready_def universal_blockers_def split: option.splits)
  have g: "installGate facts d options = Gate_recipe" "fc_distribution facts = Some d" using assms by (simp_all add: plan_ready_def)
  then show "qualifies facts options"
    using u by (auto simp: qualifies_def installMethodBlocker_None installGate_def list_ex_iff split: if_splits option.splits)
  show "\<not> (dk_cli (fc_docker facts) \<and> dk_install_method (fc_docker facts) = None)"
    using g(1) by (auto simp: installGate_def split: if_splits)
qed

lemma ready_has_all_components: "readyExceptAccess facts d \<Longrightarrow> missingComponentBlockers facts gate = []"
  by (simp add: readyExceptAccess_def missingComponentBlockers_def)

text \<open>
  C23. A plan is made only for a host on the recipe, with every fact read and no Docker the recipe would not touch;
  and every change it lists answers something that is missing: Docker's packages only where there is no
  Docker, the runtime never over an unreadable configuration, no service step without systemd, and nobody
  joins the group who is root or a member.
\<close>

theorem plan_adds_only_what_is_missing:
  assumes "verdict num facts options = Some (planned plan)"
  shows "qualifies facts options \<and> list_all (needed facts options) (ip_system_changes plan)"
  using assms
proof (cases rule: verdict_cases)
  case (group d plan')
  have "dg_configured (fc_docker_group facts) \<noteq> Known True"
    using group(2,3,4) ready_has_all_components [OF group(3)]
    by (auto simp: plan_ready_def member_path_def readyExceptAccess_def Let_def split: if_splits)
  with group plan_ready_qualifies [OF group(2)] show ?thesis
    by (simp add: group_change_def readyExceptAccess_def)
next
  case (install d)
  note q = plan_ready_qualifies [OF install(2)]
  have d: "fc_distribution facts = Some d" using install(2) by (simp add: plan_ready_def)
  have "list_all (needed facts options) (package_changes facts d)"
    using q(2) d by (auto simp: package_changes_def dockerPackages_def toolkitPackages_def Let_def)
  moreover have "list_all (needed facts options) (runtime_changes facts)"
    using install(5) by (auto simp: runtime_changes_def Let_def)
  moreover have "list_all (needed facts options) (access_changes facts options)"
    using install(4) by (auto simp: access_changes_def group_change_def)
  moreover have "list_all (needed facts options) (restart_changes facts)"
    using install(4) by (auto simp: restart_changes_def Let_def)
  ultimately show ?thesis using q(1) install(1) by (simp add: buildInstallPlan_def Let_def)
qed simp_all

section \<open>One plan is enough\<close>

text \<open>
  What each change means for the facts of the next probe: packages bring their commands, the specification
  brings the device, the service runs, the account is a member.  Whether the daemon answers is another matter.
\<close>

definition packages_of :: "linux_system_change \<Rightarrow> string" where
  "packages_of change = (case ch_params change of Some [(k, v)] \<Rightarrow> v | _ \<Rightarrow> '''')"

fun carry_out :: "linux_system_change \<Rightarrow> linux_facts \<Rightarrow> linux_facts" where
  "carry_out change facts =
     (let docker = fc_docker facts in
      case ch_code change of
        Add_repository \<Rightarrow> facts
      | Install_packages \<Rightarrow>
          facts\<lparr>fc_toolkit_installed := fc_toolkit_installed facts \<or> js_includes (packages_of change) TOOLKIT_PACKAGE,
                fc_docker := if js_includes (packages_of change) ''docker-ce-cli''
                  then docker\<lparr>dk_cli := True, dk_install_method := Some Docker_ce\<rparr> else docker\<rparr>
      | Configure_nvidia_runtime \<Rightarrow> facts\<lparr>fc_docker := docker\<lparr>dk_nvidia_runtime := True\<rparr>\<rparr>
      | Generate_cdi_spec \<Rightarrow>
          facts\<lparr>fc_docker := docker\<lparr>dk_gpu_runtime_from_config := True, dk_gpu_runtime := dk_daemon_reachable docker\<rparr>\<rparr>
      | Enable_docker_service \<Rightarrow> facts\<lparr>fc_docker := docker\<lparr>dk_service_active := Known True\<rparr>\<rparr>
      | Add_user_to_docker_group \<Rightarrow>
          facts\<lparr>fc_docker_group := (fc_docker_group facts)\<lparr>dg_configured := Known True\<rparr>\<rparr>
      | Restart_docker \<Rightarrow> facts)"

definition carried_out :: "linux_install_plan \<Rightarrow> linux_facts \<Rightarrow> linux_facts" where
  "carried_out plan facts = fold carry_out (ip_system_changes plan) facts"

definition daemon_answers :: "linux_facts \<Rightarrow> linux_facts" where
  "daemon_answers facts =
     facts\<lparr>fc_docker := (fc_docker facts)\<lparr>dk_daemon_reachable := True, dk_gpu_runtime := dk_gpu_runtime_from_config (fc_docker facts)\<rparr>\<rparr>"

text \<open>What the four groups of changes leave.\<close>

lemma carry_out_packages:
  assumes "\<not> (dk_cli (fc_docker facts) \<and> dk_install_method (fc_docker facts) = None)"
  shows "fold carry_out (package_changes facts d) f =
    f\<lparr>fc_toolkit_installed := fc_toolkit_installed f \<or> \<not> fc_toolkit_installed facts,
      fc_docker := if dk_install_method (fc_docker facts) = None
        then (fc_docker f)\<lparr>dk_cli := True, dk_install_method := Some Docker_ce\<rparr> else fc_docker f\<rparr>"
  by (cases "dk_install_method (fc_docker facts)"; cases "fc_toolkit_installed facts")
    (simp_all add: package_changes_def dockerPackages_def toolkitPackages_def packages_of_def TOOLKIT_PACKAGE_def Let_def)

lemma carry_out_runtime:
  "fold carry_out (runtime_changes facts) f =
    (if effectiveGpuRuntime facts then f
     else f\<lparr>fc_docker := (fc_docker f)\<lparr>dk_nvidia_runtime := dk_nvidia_runtime (fc_docker f) \<or> \<not> dk_nvidia_runtime (fc_docker facts),
       dk_gpu_runtime_from_config := True, dk_gpu_runtime := dk_daemon_reachable (fc_docker f)\<rparr>\<rparr>)"
  by (cases "dk_nvidia_runtime (fc_docker facts)") (simp_all add: runtime_changes_def Let_def)

lemma carry_out_restart: "fold carry_out (restart_changes facts) f = f"
  by (simp add: restart_changes_def Let_def)

lemma carry_out_access:
  "fold carry_out (access_changes facts options) f =
    (if dk_daemon_reachable (fc_docker facts) then f
     else f\<lparr>fc_docker := if dk_service_active (fc_docker facts) \<noteq> Known True
         then (fc_docker f)\<lparr>dk_service_active := Known True\<rparr> else fc_docker f,
       fc_docker_group := if dg_configured (fc_docker_group facts) \<noteq> Known True \<and> op_currentUser options \<noteq> ''root''
         then (fc_docker_group f)\<lparr>dg_configured := Known True\<rparr> else fc_docker_group f\<rparr>)"
  by (simp add: access_changes_def group_change_def)

definition same_host :: "linux_facts \<Rightarrow> linux_facts \<Rightarrow> bool" where
  "same_host f f' \<longleftrightarrow> fc_unknown f' = fc_unknown f \<and> fc_architecture f' = fc_architecture f \<and>
     fc_driver_version f' = fc_driver_version f \<and> fc_gpus f' = fc_gpus f \<and> fc_free_disk_bytes f' = fc_free_disk_bytes f \<and>
     fc_distribution f' = fc_distribution f \<and> fc_immutable_os f' = fc_immutable_os f \<and>
     (dk_install_method (fc_docker f') = dk_install_method (fc_docker f) \<or>
      dk_install_method (fc_docker f) = None \<and> dk_install_method (fc_docker f') = Some Docker_ce)"

text \<open>Everything a container needs is there; a member of the group, or root, is asking.\<close>

definition complete :: "linux_facts \<Rightarrow> linux_assessment_options \<Rightarrow> bool" where
  "complete f options \<longleftrightarrow> dk_cli (fc_docker f) \<and> dk_install_method (fc_docker f) \<noteq> None \<and> fc_toolkit_installed f \<and>
     dk_gpu_runtime_from_config (fc_docker f) \<and>
     (if dk_daemon_reachable (fc_docker f) then dk_gpu_runtime (fc_docker f)
      else dk_service_active (fc_docker f) = Known True \<and>
        (op_currentUser options = ''root'' \<or> dg_configured (fc_docker_group f) = Known True))"

lemma install_completes:
  assumes "\<not> (dk_cli (fc_docker facts) \<and> dk_install_method (fc_docker facts) = None)"
    and "dk_cli (fc_docker facts) \<or> dk_install_method (fc_docker facts) = None"
    and "\<not> (dk_daemon_reachable (fc_docker facts) \<and> dk_gpu_runtime (fc_docker facts))"
  shows "same_host facts (carried_out (buildInstallPlan facts d options) facts)"
    "complete (carried_out (buildInstallPlan facts d options) facts) options"
  using assms
  by (auto simp: carried_out_def buildInstallPlan_def Let_def carry_out_packages carry_out_runtime carry_out_access
      carry_out_restart same_host_def complete_def effectiveGpuRuntime_def split: if_splits)

lemma group_completes:
  assumes "readyExceptAccess facts d" "ds_family d \<noteq> Pacman" "ip_system_changes plan = [group_change options]"
  shows "same_host facts (carried_out plan facts)" "complete (carried_out plan facts) options"
  using assms
  by (auto simp: carried_out_def group_change_def same_host_def complete_def effectiveGpuRuntime_def readyExceptAccess_def
      dockerInstallRecognised_def)

lemma same_host_universal:
  assumes "same_host f f'" "universal_blockers num f options = []"
  shows "universal_blockers num f' options = []"
proof -
  have "driver_blockers num f' options = driver_blockers num f options" "disk_blockers f' options = disk_blockers f options"
    using assms(1) by (simp_all only: same_host_def driver_blockers_def disk_blockers_def)
  moreover have "installMethodBlocker (dk_install_method (fc_docker f')) = None"
    using assms by (auto simp: same_host_def universal_blockers_def split: option.splits)
  ultimately show ?thesis using assms by (simp add: same_host_def universal_blockers_def)
qed

lemma complete_adopted:
  assumes "universal_blockers num f options = []" "complete f options"
  shows "verdict num (daemon_answers f) options = Some adopted"
proof -
  have "same_host f (daemon_answers f)" by (simp add: same_host_def daemon_answers_def)
  from same_host_universal [OF this assms(1)] assms(2) show ?thesis
    by (simp add: verdict_def complete_def daemon_answers_def)
qed

lemma complete_no_plan:
  assumes "complete f options"
  shows "verdict num f options \<noteq> Some (planned plan)"
proof
  assume "verdict num f options = Some (planned plan)"
  then show False
  proof (cases rule: verdict_cases)
    case (group d plan')
    with assms ready_has_all_components [OF group(3)] show False
      by (auto simp: plan_ready_def member_path_def readyExceptAccess_def complete_def Let_def split: if_splits)
  next
    case (install d)
    with assms show False
      by (auto simp: plan_ready_def readyExceptAccess_def complete_def dockerInstallRecognised_def effectiveGpuRuntime_def
          split: if_splits)
  qed simp_all
qed


section \<open>After the next login\<close>

definition logged_back_in :: "linux_facts \<Rightarrow> linux_facts" where
  "logged_back_in facts = facts\<lparr>fc_docker_group := (fc_docker_group facts)\<lparr>dg_effective := True\<rparr>\<rparr>"

lemma universal_not_relogin: "b \<in> set (universal_blockers num facts options) \<Longrightarrow> bk_reason b \<noteq> Relogin_required"
  by (cases "dk_install_method (fc_docker facts)" rule: installMethodBlocker.cases)
    (auto simp: universal_blockers_def driver_blockers_def disk_blockers_def blocker_def Let_def split: option.splits if_splits)

lemma relogin_reason: "bk_reason reloginRequiredBlocker = Relogin_required"
  by (simp add: reloginRequiredBlocker_def blocker_def)

lemma logged_back_in_simps [simp]:
  "fc_docker (logged_back_in facts) = fc_docker facts" "fc_distribution (logged_back_in facts) = fc_distribution facts"
  "fc_systemd (logged_back_in facts) = fc_systemd facts" "fc_toolkit_installed (logged_back_in facts) = fc_toolkit_installed facts"
  "dg_effective (fc_docker_group (logged_back_in facts))"
  "effectiveGpuRuntime (logged_back_in facts) = effectiveGpuRuntime facts"
  "installGate (logged_back_in facts) d options = installGate facts d options"
  "missingComponentBlockers (logged_back_in facts) gate = missingComponentBlockers facts gate"
  "readyExceptAccess (logged_back_in facts) d = readyExceptAccess facts d"
  by (simp_all add: logged_back_in_def effectiveGpuRuntime_def installGate_def missingComponentBlockers_def runtime_step_def
      readyExceptAccess_def dockerInstallRecognised_def split: option.split)

text \<open>The relogin path, taken by a host on the recipe.\<close>

lemma relogin_path:
  assumes "verdict num facts options = Some (blocked (reloginRequiredBlocker # bs))"
    and "fc_distribution facts = Some d" "installGate facts d options = Gate_recipe"
  shows "universal_blockers num facts options = []" "\<not> dk_daemon_reachable (fc_docker facts)"
    "bs = missingComponentBlockers facts Gate_recipe"
proof -
  have "reloginRequiredBlocker \<notin> set (universal_blockers num facts options)"
    using universal_not_relogin relogin_reason by metis
  then have u: "universal_blockers num facts options = []" and na: "\<not> (dk_daemon_reachable (fc_docker facts) \<and> dk_gpu_runtime (fc_docker facts))"
    using assms(1) unfolding verdict_def Let_def by (auto split: if_splits)
  show "universal_blockers num facts options = []" by (rule u)
  have other: "reloginRequiredBlocker \<noteq> x" if "bk_reason x \<noteq> Relogin_required" for x using that relogin_reason by auto
  from verdict_later [OF u na assms(2,3)] assms(1)
  have "member_path facts d Gate_recipe options = Some (blocked (reloginRequiredBlocker # bs))"
    by (auto simp: access_verdict_def other daemonJsonUnreadableBlocker_def initNotSystemdBlocker_def unexplained_root_def
        blocker_def relogin_reason split: option.splits if_splits)
  then show "\<not> dk_daemon_reachable (fc_docker facts)" "bs = missingComponentBlockers facts Gate_recipe"
    by (auto simp: member_path_def Let_def unexplained_member_def blocker_def reloginRequiredBlocker_def split: if_splits)
qed

text \<open>
  A member of the group who is asked to log in again is told what setup will offer then; after the login the
  same host indeed gets a plan, on a host that runs systemd and whose \<open>daemon.json\<close> was not among the blockers.
\<close>

theorem relogin_leads_to_a_plan:
  assumes relogin: "verdict num facts options = Some (blocked (reloginRequiredBlocker # b # bs))"
    and d: "fc_distribution facts = Some d" "installGate facts d options = Gate_recipe"
    and systemd: "fc_systemd facts \<noteq> Some False" and json: "daemonJsonUnreadableBlocker \<notin> set (b # bs)"
  shows "\<exists>plan. verdict num (logged_back_in facts) options = Some (planned plan)"
proof -
  note path = relogin_path [OF relogin d]
  have components: "missingComponentBlockers facts Gate_recipe \<noteq> []" using path(3) by auto
  have "same_host facts (logged_back_in facts)" by (simp add: same_host_def logged_back_in_def)
  from same_host_universal [OF this path(1)] have u: "universal_blockers num (logged_back_in facts) options = []" .
  have "member_path (logged_back_in facts) d Gate_recipe options = None"
    using components by (simp add: member_path_def Let_def)
  moreover have "\<not> readyExceptAccess facts d" using ready_has_all_components components by blast
  moreover have "\<not> (\<not> effectiveGpuRuntime facts \<and> \<not> dk_nvidia_runtime (fc_docker facts) \<and> dk_daemon_json_unreadable (fc_docker facts))"
    using json path(3) by (auto simp: missingComponentBlockers_def runtime_step_def)
  ultimately show ?thesis
    using verdict_later [OF u, of d Gate_recipe] path(2) d systemd by simp
qed

section \<open>Two hosts the promises miss\<close>

text \<open>Ubuntu 24.04 with a supported card, Docker as given.\<close>

definition ex_docker :: docker_facts where
  "ex_docker = \<lparr>dk_cli = False, dk_daemon_reachable = False, dk_engine_identity = None, dk_version = None,
     dk_install_method = None, dk_engine_version = None, dk_gpu_runtime = False, dk_gpu_runtime_from_config = False,
     dk_nvidia_runtime = False, dk_address_pools_configured = Pools_known False, dk_daemon_json_unreadable = False,
     dk_selinux = False, dk_docker_root_dir = None, dk_containers_running = 0, dk_service_active = Known False,
     dk_server_errors = []\<rparr>"

definition ex_host :: "docker_facts \<Rightarrow> docker_group_facts \<Rightarrow> bool \<Rightarrow> bool \<Rightarrow> linux_facts" where
  "ex_host docker member toolkit systemd =
     \<lparr>fc_architecture = Some ''x86_64'',
      fc_distribution = Some \<lparr>ds_id = ''ubuntu'', ds_version_id = ''24.04'', ds_id_like = [''debian''], ds_family = Apt\<rparr>,
      fc_immutable_os = False, fc_systemd = Some systemd, fc_driver_version = Some ''580'',
      fc_gpus = [\<lparr>gf_gpu_id = ''g'', gf_name = ''n'', gf_compute_capability = ''8'', gf_total_vram_bytes = None,
        gf_free_vram_bytes = None, gf_driver_version = Some ''580''\<rparr>],
      fc_docker = docker, fc_docker_group = member, fc_toolkit_installed = toolkit, fc_routes = None,
      fc_free_disk_bytes = Some 1000, fc_free_disk_path = ''/var/lib/docker'', fc_unknown = []\<rparr>"

definition ex_linux_options :: linux_assessment_options where
  "ex_linux_options = \<lparr>op_recipeId = ''linux.install-container-runtime'',
     op_recipeDistributions = Some [\<lparr>rd_id = ''ubuntu'', rd_version_id = ''24.04'', rd_arch = ''x86_64''\<rparr>],
     op_minimumDriverVersion = ''570'', op_minimumComputeCapability = ''8'', op_requiredDiskBytes = Some 10,
     op_currentUser = ''ann''\<rparr>"

lemma ex_universal:
  "installMethodBlocker (dk_install_method docker) = None \<Longrightarrow>
   universal_blockers digits_value (ex_host docker member toolkit systemd) ex_linux_options = []"
  by (simp add: universal_blockers_def driver_blockers_def disk_blockers_def best_gpu_def compareDottedVersions_def
      ex_host_def ex_linux_options_def SUPPORTED_ARCHITECTURES_def digits_value_def)

lemma ex_gate:
  "\<not> (dk_cli docker \<and> dk_install_method docker = None) \<Longrightarrow>
   installGate (ex_host docker member toolkit systemd)
     \<lparr>ds_id = ''ubuntu'', ds_version_id = ''24.04'', ds_id_like = [''debian''], ds_family = Apt\<rparr> ex_linux_options = Gate_recipe"
  by (simp add: installGate_def ex_host_def ex_linux_options_def)

definition ex_member :: docker_group_facts where
  "ex_member = \<lparr>dg_configured = Known True, dg_effective = True\<rparr>"

text \<open>
  The engine's package without its command (Debian keeps them apart): the plan installs nothing, asks for no
  elevation, and leaves the command missing.
\<close>

definition cli_less :: docker_facts where
  "cli_less = ex_docker\<lparr>dk_install_method := Some Docker_io, dk_gpu_runtime_from_config := True, dk_service_active := Known True\<rparr>"

theorem plan_forgets_the_missing_command:
  "\<exists>plan. verdict digits_value (ex_host cli_less ex_member True True) ex_linux_options = Some (planned plan) \<and>
     well_read (ex_host cli_less ex_member True True) \<and> ip_system_changes plan = [] \<and>
     \<not> dk_cli (fc_docker (carried_out plan (ex_host cli_less ex_member True True)))"
proof -
  let ?f = "ex_host cli_less ex_member True True"
  let ?d = "\<lparr>ds_id = ''ubuntu'', ds_version_id = ''24.04'', ds_id_like = [''debian''], ds_family = Apt\<rparr>"
  have "verdict digits_value ?f ex_linux_options = Some (planned (buildInstallPlan ?f ?d ex_linux_options))"
    by (subst verdict_later [OF ex_universal _ _ ex_gate])
      (simp_all add: ex_host_def cli_less_def ex_docker_def ex_member_def member_path_def missingComponentBlockers_def
        readyExceptAccess_def effectiveGpuRuntime_def)
  moreover have "ip_system_changes (buildInstallPlan ?f ?d ex_linux_options) = []"
    by (simp add: buildInstallPlan_def Let_def package_changes_def dockerPackages_def toolkitPackages_def runtime_changes_def
        access_changes_def restart_changes_def effectiveGpuRuntime_def ex_host_def cli_less_def ex_docker_def ex_member_def)
  moreover have "well_read ?f" by (simp add: well_read_def ex_host_def cli_less_def ex_docker_def ex_member_def)
  ultimately show ?thesis by (simp add: carried_out_def ex_host_def cli_less_def ex_docker_def)
qed

text \<open>Without systemd the words of the relogin blockers are not kept: after the login the host is refused.\<close>

theorem relogin_without_systemd:
  "\<exists>b. verdict digits_value (ex_host ex_docker (ex_member\<lparr>dg_effective := False\<rparr>) True False) ex_linux_options =
       Some (blocked (reloginRequiredBlocker # b)) \<and> packageStep Gate_recipe Docker_cli_missing ''Docker Engine'' ''docker'' \<in> set b \<and>
     verdict digits_value (logged_back_in (ex_host ex_docker (ex_member\<lparr>dg_effective := False\<rparr>) True False)) ex_linux_options =
       Some (blocked [initNotSystemdBlocker])"
proof -
  let ?f = "ex_host ex_docker (ex_member\<lparr>dg_effective := False\<rparr>) True False"
  have later: "logged_back_in ?f = ex_host ex_docker ex_member True False"
    by (simp add: logged_back_in_def ex_host_def ex_member_def)
  have "verdict digits_value ?f ex_linux_options = Some (blocked (reloginRequiredBlocker # missingComponentBlockers ?f Gate_recipe))"
    by (subst verdict_later [OF ex_universal _ _ ex_gate])
      (simp_all add: ex_host_def ex_docker_def ex_member_def member_path_def ex_linux_options_def)
  moreover have "packageStep Gate_recipe Docker_cli_missing ''Docker Engine'' ''docker'' \<in> set (missingComponentBlockers ?f Gate_recipe)"
    by (simp add: missingComponentBlockers_def ex_host_def ex_docker_def)
  moreover have "verdict digits_value (ex_host ex_docker ex_member True False) ex_linux_options = Some (blocked [initNotSystemdBlocker])"
    by (subst verdict_later [OF ex_universal _ _ ex_gate])
      (simp_all add: ex_host_def ex_docker_def ex_member_def member_path_def missingComponentBlockers_def
        readyExceptAccess_def effectiveGpuRuntime_def)
  ultimately show ?thesis unfolding later by blast
qed

end
