(* ===== verification/Laminar_Cover.thy ===== *)
theory Laminar_Cover
  imports Main
begin

text \<open>
  Covering with sets that are pairwise nested or disjoint: choosing, again and again, a set with the most
  elements not yet covered gives pairwise disjoint, maximal sets, and no cover is smaller than they are.
\<close>

locale laminar_cover =
  fixes C :: "'c set" and cover :: "'c \<Rightarrow> 'p set"
  assumes laminar: "c \<in> C \<Longrightarrow> d \<in> C \<Longrightarrow> cover c \<inter> cover d = {} \<or> cover c \<subseteq> cover d \<or> cover d \<subseteq> cover c"
    and finite_cover: "c \<in> C \<Longrightarrow> finite (cover c)"
    and covers_some: "c \<in> C \<Longrightarrow> cover c \<noteq> {}"
begin

text \<open>A choice: some of the sets, maximal and pairwise disjoint.\<close>

definition choice :: "'c set \<Rightarrow> bool" where
  "choice B \<longleftrightarrow> B \<subseteq> C \<and> (\<forall>b \<in> B. \<forall>d \<in> C. cover b \<subseteq> cover d \<longrightarrow> cover d = cover b) \<and>
     (\<forall>b \<in> B. \<forall>d \<in> B. b \<noteq> d \<longrightarrow> cover b \<inter> cover d = {})"

lemma choiceD:
  assumes "choice B"
  shows "b \<in> B \<Longrightarrow> b \<in> C" "b \<in> B \<Longrightarrow> d \<in> C \<Longrightarrow> cover b \<subseteq> cover d \<Longrightarrow> cover d = cover b"
    "b \<in> B \<Longrightarrow> d \<in> B \<Longrightarrow> b \<noteq> d \<Longrightarrow> cover b \<inter> cover d = {}"
  using assms unfolding choice_def by blast+

lemma choice_empty: "choice {}"
  by (simp add: choice_def)

text \<open>A set that still covers something new is disjoint from all that was chosen.\<close>

lemma new_is_disjoint:
  assumes "choice B" "c \<in> C" "cover c \<inter> (P - \<Union> (cover ` B)) \<noteq> {}" "b \<in> B"
  shows "cover b \<inter> cover c = {}"
proof (rule ccontr)
  assume meet: "cover b \<inter> cover c \<noteq> {}"
  have b: "b \<in> C" using choiceD(1) [OF assms(1,4)] .
  from laminar [OF b assms(2)] meet have "cover b \<subseteq> cover c \<or> cover c \<subseteq> cover b" by blast
  then have "cover c \<subseteq> cover b" using choiceD(2) [OF assms(1,4,2)] by blast
  then show False using assms(3,4) by blast
qed

lemma choice_step:
  assumes ch: "choice B" and b: "b \<in> C" and new: "cover b \<inter> (P - \<Union> (cover ` B)) \<noteq> {}"
    and inside: "\<And>d. d \<in> C \<Longrightarrow> cover d \<subseteq> P"
    and most: "\<And>d. d \<in> C \<Longrightarrow> card (cover d \<inter> (P - \<Union> (cover ` B))) \<le> card (cover b \<inter> (P - \<Union> (cover ` B)))"
  shows "choice (insert b B)" "b \<notin> B"
proof -
  have apart: "cover a \<inter> cover b = {}" if "a \<in> B" for a using new_is_disjoint [OF ch b new that] .
  have whole: "cover d \<inter> (P - \<Union> (cover ` B)) = cover d"
    if "d \<in> C" "cover d \<inter> (P - \<Union> (cover ` B)) \<noteq> {}" for d
    using new_is_disjoint [OF ch that] inside [OF that(1)] by blast
  have "cover d = cover b" if d: "d \<in> C" "cover b \<subseteq> cover d" for d
  proof -
    have "cover d \<inter> (P - \<Union> (cover ` B)) \<noteq> {}" using d(2) new by blast
    from whole [OF d(1) this] whole [OF b new] most [OF d(1)] have "card (cover d) \<le> card (cover b)" by simp
    then show ?thesis using card_seteq [OF finite_cover [OF d(1)] d(2)] by simp
  qed
  then show "choice (insert b B)" using ch b apart by (auto simp: choice_def)
  show "b \<notin> B" using new by blast
qed

text \<open>No cover of the same elements is smaller than a choice.\<close>

lemma choice_smallest:
  assumes ch: "choice B" and R: "R \<subseteq> C" "finite R" and all: "\<Union> (cover ` B) \<subseteq> \<Union> (cover ` R)"
  shows "card B \<le> card R"
proof -
  have "\<exists>r \<in> R. cover r \<subseteq> cover b" if bB: "b \<in> B" for b
  proof -
    have b: "b \<in> C" using choiceD(1) [OF ch bB] .
    from covers_some [OF this] obtain p where p: "p \<in> cover b" by blast
    with bB all have "p \<in> \<Union> (cover ` R)" by blast
    then obtain r where r: "r \<in> R" "p \<in> cover r" by blast
    have rC: "r \<in> C" using r(1) R(1) by (rule subsetD [rotated])
    have "cover b \<inter> cover r \<noteq> {}" using p r(2) by blast
    with laminar [OF b rC] have "cover b \<subseteq> cover r \<or> cover r \<subseteq> cover b" by blast
    then have "cover r \<subseteq> cover b" using choiceD(2) [OF ch bB rC] by blast
    with r(1) show ?thesis by blast
  qed
  then obtain f where f: "f b \<in> R" "cover (f b) \<subseteq> cover b" if "b \<in> B" for b by metis
  have "inj_on f B"
  proof (rule inj_onI, rule ccontr)
    fix a b assume ab: "a \<in> B" "b \<in> B" "f a = f b" "a \<noteq> b"
    then have "cover a \<inter> cover b = {}" using choiceD(3) [OF ch] by blast
    then have "cover (f a) = {}" using f(2) [OF ab(1)] f(2) [OF ab(2)] ab(3) by auto
    then show False using covers_some [of "f a"] f(1) [OF ab(1)] R(1) by blast
  qed
  then show ?thesis using card_inj_on_le [of f B R] f(1) R(2) by blast
qed

end

end
