(* ===== verification/Linux_Network_Props.thy ===== *)
theory Linux_Network_Props
  imports Linux_Network Laminar_Cover
begin

unbundle bit_operations_syntax

text \<open>
  Printing and parsing a network are inverse; two networks are nested or disjoint; and the routes that
  \<^const>\<open>routesCoveringDockerPools\<close> names are a smallest set that covers every default subnet of Docker.
\<close>

section \<open>Print and parse\<close>

lemma js_split_none: "c \<notin> set s \<Longrightarrow> js_split c s = [s]"
  by (induction s) auto

lemma js_split_at: "c \<notin> set a \<Longrightarrow> js_split c (a @ c # b) = a # js_split c b"
  by (induction a) auto

lemma show_nat_no: "\<not> is_digit c \<Longrightarrow> c \<notin> set (show_nat n)"
  using show_nat_digits by blast

lemma is_digit_not_space: "is_digit c \<Longrightarrow> \<not> is_space c"
  by (auto simp: is_digit_def is_space_def Let_def)

lemma dropWhile_id: "s \<noteq> [] \<Longrightarrow> \<not> P (hd s) \<Longrightarrow> dropWhile P s = s"
  by (cases s) auto

lemma js_trim_id: "s \<noteq> [] \<Longrightarrow> \<not> is_space (hd s) \<Longrightarrow> \<not> is_space (last s) \<Longrightarrow> js_trim s = s"
  by (simp add: js_trim_def dropWhile_id hd_rev)

lemma show_nat_ends: "is_digit (hd (show_nat n))" "is_digit (last (show_nat n))"
  using show_nat_digits hd_in_set [OF show_nat_nonempty] last_in_set [OF show_nat_nonempty] by blast+

lemma length_show_nat: "n < 10 ^ k \<Longrightarrow> 0 < k \<Longrightarrow> length (show_nat n) \<le> k"
proof (induction k arbitrary: n)
  case (Suc k)
  show ?case
  proof (cases "n < 10")
    case True then show ?thesis by (simp add: show_nat.simps)
  next
    case False
    with Suc.prems have "k > 0" by (cases k) auto
    moreover have "n div 10 < 10 ^ k" using Suc.prems by (simp add: less_mult_imp_div_less mult.commute)
    ultimately show ?thesis using Suc.IH [of "n div 10"] False by (simp add: show_nat.simps [of n])
  qed
qed simp

lemma digit_group_show: "n < 10 ^ k \<Longrightarrow> 0 < k \<Longrightarrow> digit_group k (show_nat n)"
  by (simp add: digit_group_def all_digits_def show_nat_nonempty list_all_iff show_nat_digits length_show_nat)

lemma and_ff: "a AND 0xff = take_bit 8 a" for a :: "32 word"
  by (simp add: take_bit_eq_mask mask_eq_exp_minus_1)

lemma octets_join:
  "push_bit 24 (drop_bit 24 a) OR push_bit 16 (take_bit 8 (drop_bit 16 a)) OR push_bit 8 (take_bit 8 (drop_bit 8 a)) OR
   take_bit 8 a = a" for a :: "32 word"
proof (rule bit_word_eqI)
  fix n assume "n < LENGTH(32)"
  then consider "n < 8" | "8 \<le> n" "n < 16" | "16 \<le> n" "n < 24" | "24 \<le> n" "n < 32" by fastforce
  then show "bit (push_bit 24 (drop_bit 24 a) OR push_bit 16 (take_bit 8 (drop_bit 16 a)) OR
      push_bit 8 (take_bit 8 (drop_bit 8 a)) OR take_bit 8 a) n = bit a n"
    by cases (auto simp: bit_simps)
qed

definition wf_cidr :: "Ipv4Cidr \<Rightarrow> bool" where
  "wf_cidr c \<longleftrightarrow> prefix_len c \<le> 32 \<and> address c AND maskOf (prefix_len c) = address c"

lemma octet_bound: "unat (drop_bit 24 (a :: 32 word)) < 256" "unat (take_bit 8 (a :: 32 word)) < 256"
proof -
  have "unat a < 2 ^ 32" using unsigned_less [of a, where ?'a = nat] by simp
  then have "drop_bit 24 (unat a) < 256" by (simp add: drop_bit_eq_div less_mult_imp_div_less)
  then show "unat (drop_bit 24 a) < 256" by (simp add: unat_drop_bit_eq)
  show "unat (take_bit 8 a) < 256" using take_bit_nat_less_exp [of 8 "unat a"] by (simp add: unsigned_take_bit_eq)
qed

lemma cidr_groups_format:
  "cidr_groups (format_cidr c) =
     (if digit_group 2 (show_nat (prefix_len c))
      then Some (map (\<lambda>w. show_nat (unat w)) [drop_bit 24 (address c), drop_bit 16 (address c) AND 0xff,
        drop_bit 8 (address c) AND 0xff, address c AND 0xff], Some (show_nat (prefix_len c)))
      else None)"
proof -
  have no: "CHR ''/'' \<notin> set (show_nat n)" "CHR ''.'' \<notin> set (show_nat n)" for n
    by (rule show_nat_no; simp add: is_digit_def)+
  let ?dots = "\<lambda>c. map (\<lambda>w. show_nat (unat w))
    [drop_bit 24 (address c), drop_bit 16 (address c) AND 0xff, drop_bit 8 (address c) AND 0xff, address c AND 0xff]"
  have "CHR ''/'' \<notin> set (toDotted (address c))" using no by (simp add: toDotted_def)
  then have "js_split (CHR ''/'') (format_cidr c) = [toDotted (address c), show_nat (prefix_len c)]"
    using no by (simp add: format_cidr_def js_split_at js_split_none)
  moreover have "js_split (CHR ''.'') (toDotted (address c)) = ?dots c"
    using no by (simp add: toDotted_def js_split_at js_split_none)
  ultimately show ?thesis by (simp add: cidr_groups_def)
qed

lemma js_trim_format: "js_trim (format_cidr c) = format_cidr c"
  by (rule js_trim_id)
    (simp_all add: format_cidr_def toDotted_def show_nat_nonempty show_nat_ends is_digit_not_space)

theorem parse_format_cidr:
  assumes "wf_cidr c"
  shows "parseIpv4Cidr (format_cidr c) = Some c"
proof -
  have group: "digit_group 3 (show_nat (unat w))" if "unat w < 256" for w :: "32 word"
    using that by (intro digit_group_show) simp_all
  have n: "digit_group 2 (show_nat (prefix_len c))"
    using assms by (intro digit_group_show) (simp_all add: wf_cidr_def)
  show ?thesis
    using assms n octet_bound [of "address c"] octet_bound(2) [of "drop_bit 16 (address c)"] octet_bound(2) [of "drop_bit 8 (address c)"]
    by (simp add: parseIpv4Cidr_def js_trim_format cidr_groups_format group digits_value_show and_ff octets_join wf_cidr_def
        Let_def)
qed

section \<open>The default pools\<close>

definition subnets_of :: "32 word \<Rightarrow> nat \<Rightarrow> nat \<Rightarrow> Ipv4Cidr list" where
  "subnets_of base n count =
     map (\<lambda>i. \<lparr>address = base + of_nat (i * 2 ^ (32 - n)), prefix_len = n\<rparr>) [0..<count]"

definition default_cidrs :: "Ipv4Cidr list" where
  "default_cidrs = subnets_of 0xAC110000 16 1 @ subnets_of 0xAC120000 16 1 @ subnets_of 0xAC130000 16 1 @
     subnets_of 0xAC140000 16 4 @ subnets_of 0xAC180000 16 4 @ subnets_of 0xAC1C0000 16 4 @ subnets_of 0xC0A80000 20 16"

lemma pool_bases:
  "parseIpv4Cidr ''172.17.0.0/16'' = Some \<lparr>address = 0xAC110000, prefix_len = 16\<rparr>"
  "parseIpv4Cidr ''172.18.0.0/16'' = Some \<lparr>address = 0xAC120000, prefix_len = 16\<rparr>"
  "parseIpv4Cidr ''172.19.0.0/16'' = Some \<lparr>address = 0xAC130000, prefix_len = 16\<rparr>"
  "parseIpv4Cidr ''172.20.0.0/14'' = Some \<lparr>address = 0xAC140000, prefix_len = 14\<rparr>"
  "parseIpv4Cidr ''172.24.0.0/14'' = Some \<lparr>address = 0xAC180000, prefix_len = 14\<rparr>"
  "parseIpv4Cidr ''172.28.0.0/14'' = Some \<lparr>address = 0xAC1C0000, prefix_len = 14\<rparr>"
  "parseIpv4Cidr ''192.168.0.0/16'' = Some \<lparr>address = 0xC0A80000, prefix_len = 16\<rparr>"
  by (simp add: parseIpv4Cidr_def cidr_groups_def js_trim_def is_space_def digit_group_def all_digits_def is_digit_def
      digits_value_def maskOf_def Let_def)+

lemma DOCKER_DEFAULT_POOL_SUBNETS_cidrs: "DOCKER_DEFAULT_POOL_SUBNETS = map format_cidr default_cidrs"
  by (simp add: DOCKER_DEFAULT_POOL_SUBNETS_def DOCKER_DEFAULT_POOLS_def pool_subnets_def pool_bases default_cidrs_def
      subnets_of_def)

lemma default_cidrs_wf: "list_all wf_cidr default_cidrs"
  by (simp add: default_cidrs_def subnets_of_def wf_cidr_def maskOf_def upt_conv_Cons)

lemma map_filter_parse: "list_all wf_cidr cs \<Longrightarrow> List.map_filter parseIpv4Cidr (map format_cidr cs) = cs"
  by (induction cs) (simp_all add: parse_format_cidr)

lemma default_pools_cidrs: "default_pools = default_cidrs"
  by (simp add: default_pools_def DOCKER_DEFAULT_POOL_SUBNETS_cidrs map_filter_parse default_cidrs_wf)

section \<open>Networks are nested or disjoint\<close>

text \<open>Two addresses agree in their first bits.\<close>

definition same_top :: "nat \<Rightarrow> 32 word \<Rightarrow> 32 word \<Rightarrow> bool" where
  "same_top n a b \<longleftrightarrow> drop_bit (32 - n) a = drop_bit (32 - n) b"

lemma word32_eq: "x = y \<longleftrightarrow> (\<forall>k<32. bit x k = bit y k)" for x y :: "32 word"
  by (auto intro: bit_word_eqI)

lemma bit_maskOf: "n \<le> 32 \<Longrightarrow> bit (maskOf n) k \<longleftrightarrow> 32 - n \<le> k \<and> k < 32"
proof (cases "n = 0")
  case False
  assume "n \<le> 32"
  with False have "(32 - int n) mod 32 = 32 - int n" by (intro mod_pos_pos_trivial) simp_all
  then have "nat ((32 - int n) mod 32) = 32 - n" using \<open>n \<le> 32\<close> by (simp only: nat_diff_distrib nat_int)
  then have "maskOf n = push_bit (32 - n) 0xffffffff" using False by (simp only: maskOf_def if_False)
  moreover have "(0xffffffff :: 32 word) = - 1" by simp
  ultimately have "maskOf n = push_bit (32 - n) (- 1)" by (simp only:)
  then show ?thesis by (auto simp: bit_simps)
qed (simp add: maskOf_def)

lemma masked_same_top:
  assumes "n \<le> 32"
  shows "a AND maskOf n = b AND maskOf n \<longleftrightarrow> same_top n a b"
proof -
  have "a AND maskOf n = b AND maskOf n \<longleftrightarrow> (\<forall>k<32. 32 - n \<le> k \<longrightarrow> bit a k = bit b k)"
    using assms by (auto simp: word32_eq bit_simps bit_maskOf)
  also have "\<dots> \<longleftrightarrow> (\<forall>k<32. bit a (32 - n + k) = bit b (32 - n + k))"
  proof (rule iffI; intro allI impI)
    fix k :: nat assume "\<forall>k<32. 32 - n \<le> k \<longrightarrow> bit a k = bit b k" "k < 32"
    then show "bit a (32 - n + k) = bit b (32 - n + k)"
      by (cases "32 - n + k < 32") (auto dest: bit_imp_le_length)
  next
    fix k :: nat
    assume all: "\<forall>k<32. bit a (32 - n + k) = bit b (32 - n + k)" and k: "k < 32" "32 - n \<le> k"
    have "k - (32 - n) < 32" using k by simp
    with all have "bit a (32 - n + (k - (32 - n))) = bit b (32 - n + (k - (32 - n)))" by blast
    then show "bit a k = bit b k" using k by simp
  qed
  also have "\<dots> \<longleftrightarrow> same_top n a b"
    by (auto simp: same_top_def word32_eq bit_simps)
  finally show ?thesis .
qed

lemma same_top_mono: "same_top n a b \<Longrightarrow> m \<le> n \<Longrightarrow> same_top m a b"
proof -
  assume h: "same_top n a b" "m \<le> n"
  then have split: "32 - m = ((32 - m) - (32 - n)) + (32 - n)" by simp
  have "drop_bit (32 - m) x = drop_bit ((32 - m) - (32 - n)) (drop_bit (32 - n) x)" for x :: "32 word"
    by (subst split) (simp only: drop_bit_drop_bit)
  with h(1) show ?thesis by (simp only: same_top_def)
qed

lemma same_top_trans: "same_top n a b \<Longrightarrow> same_top n a c \<Longrightarrow> same_top n b c"
  by (simp add: same_top_def)

lemma same_top_sym: "same_top n a b \<Longrightarrow> same_top n b a"
  by (simp add: same_top_def)

lemma overlaps_top:
  "prefix_len a \<le> 32 \<Longrightarrow> overlaps a b \<longleftrightarrow> same_top (min (prefix_len a) (prefix_len b)) (address a) (address b)"
  by (simp add: overlaps_def Let_def masked_same_top)

lemma overlaps_sym: "overlaps a b \<longleftrightarrow> overlaps b a"
  by (auto simp: overlaps_def Let_def min.commute)

text \<open>Of two networks that meet a common network, among pairwise disjoint ones, the wider meets all the narrower meets.\<close>

lemma wider_overlaps:
  assumes len: "prefix_len c \<le> prefix_len d" "prefix_len d \<le> 32"
    and u: "overlaps c u" "overlaps d u" and v: "overlaps d v"
    and apart: "overlaps u v \<Longrightarrow> prefix_len u \<le> 32 \<Longrightarrow> u = v"
  shows "overlaps c v"
proof -
  let ?a = address
  let ?n = prefix_len
  have cu: "same_top (min (?n c) (?n u)) (?a c) (?a u)" and du: "same_top (min (?n d) (?n u)) (?a d) (?a u)"
    and dv: "same_top (min (?n d) (?n v)) (?a d) (?a v)"
    using u v len by (simp_all add: overlaps_top)
  show ?thesis
  proof (cases "?n c \<le> ?n u")
    case True
    then have "same_top (?n c) (?a u) (?a c)" using cu by (simp add: same_top_sym)
    moreover have "same_top (?n c) (?a u) (?a d)" using same_top_mono [OF du] True len by (simp add: same_top_sym)
    ultimately have "same_top (?n c) (?a d) (?a c)" by (rule same_top_trans [rotated])
    then have "same_top (min (?n c) (?n v)) (?a d) (?a c)" by (rule same_top_mono) simp
    moreover have "same_top (min (?n c) (?n v)) (?a d) (?a v)" by (rule same_top_mono [OF dv]) (use len in simp)
    ultimately have "same_top (min (?n c) (?n v)) (?a c) (?a v)" by (rule same_top_trans)
    then show ?thesis using len by (simp add: overlaps_top)
  next
    case False
    then have "same_top (min (?n u) (?n v)) (?a d) (?a u)" by (intro same_top_mono [OF du]) (use len in simp)
    moreover have "same_top (min (?n u) (?n v)) (?a d) (?a v)" by (intro same_top_mono [OF dv]) (use len False in simp)
    ultimately have "same_top (min (?n u) (?n v)) (?a u) (?a v)" by (rule same_top_trans)
    then have "overlaps u v" using False len by (simp add: overlaps_top)
    then have "u = v" using apart False len by simp
    with u(1) show ?thesis by simp
  qed
qed

lemma default_pools_sorts:
  "list_all (\<lambda>u. prefix_len u = 16 \<and> address u AND maskOf 16 \<noteq> 0xC0A80000 \<or>
     prefix_len u = 20 \<and> address u AND maskOf 16 = 0xC0A80000) default_cidrs"
  by (simp add: default_cidrs_def subnets_of_def maskOf_def upt_conv_Cons)

lemma default_pools_distinct: "distinct default_pools"
  by (simp add: default_pools_cidrs default_cidrs_def subnets_of_def upt_conv_Cons)

lemma default_pools_apart:
  assumes "u \<in> set default_pools" "v \<in> set default_pools" "overlaps u v"
  shows "u = v"
proof -
  have s: "prefix_len u = 16 \<and> address u AND maskOf 16 \<noteq> 0xC0A80000 \<or> prefix_len u = 20 \<and> address u AND maskOf 16 = 0xC0A80000"
    "prefix_len v = 16 \<and> address v AND maskOf 16 \<noteq> 0xC0A80000 \<or> prefix_len v = 20 \<and> address v AND maskOf 16 = 0xC0A80000"
    using default_pools_sorts assms(1,2) by (auto simp: default_pools_cidrs list_all_iff)
  then have n: "prefix_len u = prefix_len v" using assms(3) by (auto simp: overlaps_def)
  have "wf_cidr u" "wf_cidr v" using default_cidrs_wf assms(1,2) by (auto simp: default_pools_cidrs list_all_iff)
  with n assms(3) have "address u = address v" by (simp add: overlaps_def wf_cidr_def)
  with n show ?thesis by simp
qed

section \<open>The routes that are named\<close>

lemma parsed_prefix_len: "parseIpv4Cidr text = Some c \<Longrightarrow> prefix_len c \<le> 32"
  by (auto simp: parseIpv4Cidr_def Let_def split: option.splits if_splits prod.splits)

text \<open>The route leaves the pool no place: it is no default route and overlaps the pool.\<close>

definition route_covers :: "LinuxRoute \<Rightarrow> Ipv4Cidr \<Rightarrow> bool" where
  "route_covers route pool \<longleftrightarrow>
     (case parseIpv4Cidr (destination route) of None \<Rightarrow> False | Some cidr \<Rightarrow> prefix_len cidr \<noteq> 0 \<and> overlaps cidr pool)"

lemma set_map_filter: "set (List.map_filter f xs) = {y. \<exists>x \<in> set xs. f x = Some y}"
  by (induction xs) (auto split: option.splits)

lemma candidate_of_Some:
  "candidate_of pools (i, r) = Some c \<longleftrightarrow> cd_route c = i \<and> parseIpv4Cidr (destination r) = Some (cd_cidr c) \<and>
     prefix_len (cd_cidr c) \<noteq> 0 \<and> cd_covers c = filter (overlaps (cd_cidr c)) pools \<and> cd_covers c \<noteq> []"
proof (cases "parseIpv4Cidr (destination r)")
  case (Some cidr)
  then show ?thesis by (cases c) (auto simp: candidate_of_def Let_def)
qed (simp add: candidate_of_def)

lemma route_candidate_iff:
  "c \<in> set (route_candidates routes) \<longleftrightarrow> cd_route c < length routes \<and>
     parseIpv4Cidr (destination (routes ! cd_route c)) = Some (cd_cidr c) \<and> prefix_len (cd_cidr c) \<noteq> 0 \<and>
     cd_covers c = filter (overlaps (cd_cidr c)) default_pools \<and> cd_covers c \<noteq> []"
proof -
  have "c \<in> set (route_candidates routes) \<longleftrightarrow>
      (\<exists>i < length routes. candidate_of default_pools (i, routes ! i) = Some c)"
    unfolding route_candidates_def set_map_filter by (auto simp: in_set_enumerate_eq)
  then show ?thesis unfolding candidate_of_Some by blast
qed

lemma candidate_covers: "c \<in> set (route_candidates routes) \<Longrightarrow>
    set (cd_covers c) = {pool \<in> set default_pools. route_covers (routes ! cd_route c) pool}"
  by (auto simp: route_candidate_iff route_covers_def)

lemma covering_candidate:
  assumes "i < length routes" "pool \<in> set default_pools" "route_covers (routes ! i) pool"
  shows "\<exists>c \<in> set (route_candidates routes). cd_route c = i \<and> pool \<in> set (cd_covers c)"
proof -
  obtain cidr where cidr: "parseIpv4Cidr (destination (routes ! i)) = Some cidr" "prefix_len cidr \<noteq> 0" "overlaps cidr pool"
    using assms(3) by (auto simp: route_covers_def split: option.splits)
  let ?c = "\<lparr>cd_route = i, cd_cidr = cidr, cd_covers = filter (overlaps cidr) default_pools\<rparr>"
  have "?c \<in> set (route_candidates routes)"
    using assms cidr by (auto simp: route_candidate_iff filter_empty_conv)
  moreover have "cd_route ?c = i" "pool \<in> set (cd_covers ?c)" using assms cidr by simp_all
  ultimately show ?thesis by blast
qed

lemma candidate_route_inj:
  "c \<in> set (route_candidates routes) \<Longrightarrow> d \<in> set (route_candidates routes) \<Longrightarrow> cd_route c = cd_route d \<Longrightarrow> c = d"
  by (cases c; cases d) (auto simp: route_candidate_iff)

lemma wider_candidate_covers:
  assumes "c \<in> set (route_candidates routes)" "d \<in> set (route_candidates routes)"
    and "prefix_len (cd_cidr c) \<le> prefix_len (cd_cidr d)" and meet: "set (cd_covers c) \<inter> set (cd_covers d) \<noteq> {}"
  shows "set (cd_covers d) \<subseteq> set (cd_covers c)"
proof
  fix v assume v: "v \<in> set (cd_covers d)"
  obtain u where u: "u \<in> set (cd_covers c)" "u \<in> set (cd_covers d)" using meet by blast
  have d32: "prefix_len (cd_cidr d) \<le> 32" using assms(2) parsed_prefix_len by (auto simp: route_candidate_iff)
  have "overlaps (cd_cidr c) v"
    using wider_overlaps [OF assms(3) d32, of u v] u v assms(1,2) default_pools_apart [of u v]
    by (auto simp: route_candidate_iff)
  with v assms show "v \<in> set (cd_covers c)" by (auto simp: route_candidate_iff)
qed

interpretation docker_pools: laminar_cover "set (route_candidates routes)" "\<lambda>c. set (cd_covers c)" for routes
proof
  fix c d assume cd: "c \<in> set (route_candidates routes)" "d \<in> set (route_candidates routes)"
  show "set (cd_covers c) \<inter> set (cd_covers d) = {} \<or> set (cd_covers c) \<subseteq> set (cd_covers d) \<or> set (cd_covers d) \<subseteq> set (cd_covers c)"
    using wider_candidate_covers [OF cd] wider_candidate_covers [OF cd(2) cd(1)]
    by (cases "prefix_len (cd_cidr c) \<le> prefix_len (cd_cidr d)") (auto simp: Int_commute)
  have "cd_covers c \<noteq> []" using cd(1) unfolding route_candidate_iff by blast
  then show "set (cd_covers c) \<noteq> {}" by simp
qed simp

lemma new_count_card:
  assumes "c \<in> set (route_candidates routes)"
  shows "new_count uncovered c = card (set (cd_covers c) \<inter> set uncovered)"
proof -
  have "distinct (cd_covers c)" using assms default_pools_distinct by (simp add: route_candidate_iff)
  then show ?thesis by (simp add: new_count_def distinct_card [symmetric] Int_def)
qed

text \<open>The loop, from any choice of candidates that accounts for what is covered.\<close>

lemma cover_loop_choice:
  assumes "docker_pools.choice routes (set bs)" "distinct bs"
    and "set uncovered = set default_pools - \<Union> ((\<lambda>c. set (cd_covers c)) ` set bs)"
  shows "case cover_loop (route_candidates routes) uncovered (map cd_route bs) of
      None \<Rightarrow> \<exists>pool \<in> set default_pools. \<forall>c \<in> set (route_candidates routes). pool \<notin> set (cd_covers c)
    | Some chosen \<Rightarrow> \<exists>bs'. chosen = map cd_route bs' \<and> distinct bs' \<and> docker_pools.choice routes (set bs') \<and>
        set default_pools \<subseteq> \<Union> ((\<lambda>c. set (cd_covers c)) ` set bs')"
  using assms
proof (induction "route_candidates routes" uncovered "map cd_route bs" arbitrary: bs rule: cover_loop.induct)
  case (1 uncovered)
  let ?cs = "route_candidates routes"
  show ?case
  proof (cases "uncovered = []")
    case True
    with 1(4) have "set default_pools \<subseteq> \<Union> ((\<lambda>c. set (cd_covers c)) ` set bs)" by auto
    with 1(2,3) True show ?thesis by (auto simp: cover_loop.simps)
  next
    case ne: False
    show ?thesis
    proof (cases "best_candidate ?cs uncovered")
      case None
      obtain pool where pool: "pool \<in> set uncovered" using ne by (cases uncovered) auto
      have "pool \<notin> set (cd_covers c)" if c: "c \<in> set ?cs" for c
        using best_candidate_None [OF None c] pool by (auto simp: new_count_card [OF c])
      with pool 1(4) ne None show ?thesis by (auto simp: cover_loop.simps [of ?cs uncovered])
    next
      case (Some b)
      note best = best_candidateD [OF Some]
      let ?rest = "filter (\<lambda>pool. pool \<notin> set (cd_covers b)) uncovered"
      have new: "set (cd_covers b) \<inter> (set default_pools - \<Union> ((\<lambda>c. set (cd_covers c)) ` set bs)) \<noteq> {}"
        using best(2) by (auto simp: new_count_card [OF best(1)] 1(4))
      have inside: "set (cd_covers d) \<subseteq> set default_pools" if "d \<in> set ?cs" for d
        using candidate_covers [OF that] by blast
      have most: "card (set (cd_covers d) \<inter> (set default_pools - \<Union> ((\<lambda>c. set (cd_covers c)) ` set bs))) \<le>
          card (set (cd_covers b) \<inter> (set default_pools - \<Union> ((\<lambda>c. set (cd_covers c)) ` set bs)))" if "d \<in> set ?cs" for d
        using best(3) [OF that] by (simp add: new_count_card [OF best(1)] new_count_card [OF that] 1(4))
      note step = docker_pools.choice_step [OF 1(2) best(1) new inside most]
      have "set ?rest = set default_pools - \<Union> ((\<lambda>c. set (cd_covers c)) ` set (bs @ [b]))" by (auto simp: 1(4))
      from 1(1) [OF ne Some, of "bs @ [b]"] step 1(3) this
      show ?thesis by (simp add: cover_loop.simps [of ?cs uncovered] ne Some)
    qed
  qed
qed

lemma nths_enumerate: "map snd (filter (\<lambda>entry. fst entry \<in> A) (enumerate 0 xs)) = nths xs A"
proof -
  have "enumerate 0 xs = map prod.swap (zip xs [0..<length xs])"
    by (simp add: enumerate_eq_zip zip_commute [of "[0..<length xs]"] prod.swap_def case_prod_beta)
  then show ?thesis by (simp add: nths_def filter_map comp_def)
qed

text \<open>
  C26. Docker's default subnets are all taken exactly when routes are named, and the routes named are then a
  smallest set of lines of the table that takes them all, in the table's order.
\<close>

theorem named_routes_are_a_smallest_cover:
  "(routesCoveringDockerPools routes = None \<longleftrightarrow>
      (\<exists>pool \<in> set default_pools. \<forall>i < length routes. \<not> route_covers (routes ! i) pool)) \<and>
   (\<forall>covering. routesCoveringDockerPools routes = Some covering \<longrightarrow>
      (\<exists>I \<subseteq> {..<length routes}. covering = nths routes I \<and>
         (\<forall>pool \<in> set default_pools. \<exists>i \<in> I. route_covers (routes ! i) pool) \<and>
         (\<forall>J \<subseteq> {..<length routes}. (\<forall>pool \<in> set default_pools. \<exists>j \<in> J. route_covers (routes ! j) pool) \<longrightarrow>
            card I \<le> card J)))"
proof (cases "cover_loop (route_candidates routes) default_pools []")
  case None
  with cover_loop_choice [of routes "[]" default_pools] docker_pools.choice_empty
  obtain pool where pool: "pool \<in> set default_pools" "\<forall>c \<in> set (route_candidates routes). pool \<notin> set (cd_covers c)"
    by auto
  then have "\<not> route_covers (routes ! i) pool" if "i < length routes" for i
    using covering_candidate [OF that pool(1)] by blast
  with pool(1) None show ?thesis by (auto simp: routesCoveringDockerPools_def)
next
  case (Some chosen)
  let ?C = "\<lambda>c. set (cd_covers c)"
  from Some cover_loop_choice [of routes "[]" default_pools] docker_pools.choice_empty
  obtain bs where bs: "chosen = map cd_route bs" "distinct bs" "docker_pools.choice routes (set bs)"
      "set default_pools \<subseteq> \<Union> (?C ` set bs)" by auto
  have sub: "b \<in> set (route_candidates routes)" if "b \<in> set bs" for b using docker_pools.choiceD(1) [OF bs(3) that] .
  have I: "set chosen \<subseteq> {..<length routes}" using sub by (auto simp: bs(1) route_candidate_iff)
  have covered: "\<exists>i \<in> set chosen. route_covers (routes ! i) pool" if "pool \<in> set default_pools" for pool
  proof -
    from that bs(4) obtain b where "b \<in> set bs" "pool \<in> ?C b" by blast
    then show ?thesis using candidate_covers [OF sub] by (auto simp: bs(1))
  qed
  have smallest: "card (set chosen) \<le> card J"
    if J: "J \<subseteq> {..<length routes}" "\<forall>pool \<in> set default_pools. \<exists>j \<in> J. route_covers (routes ! j) pool" for J
  proof -
    let ?R = "{c \<in> set (route_candidates routes). cd_route c \<in> J}"
    have "\<Union> (?C ` set bs) \<subseteq> \<Union> (?C ` ?R)"
    proof
      fix pool assume "pool \<in> \<Union> (?C ` set bs)"
      then have pool: "pool \<in> set default_pools" using candidate_covers [OF sub] by auto
      then obtain j where j: "j \<in> J" "route_covers (routes ! j) pool" using J(2) by blast
      from covering_candidate [OF _ pool j(2)] J(1) j(1) show "pool \<in> \<Union> (?C ` ?R)" by auto
    qed
    then have "card (set bs) \<le> card ?R" by (intro docker_pools.choice_smallest [OF bs(3)]) auto
    also have "\<dots> \<le> card J"
      by (rule card_inj_on_le [of cd_route]) (use finite_subset [OF J(1)] candidate_route_inj [of _ routes] in \<open>auto simp: inj_on_def\<close>)
    finally show ?thesis using card_image_le [of "set bs" cd_route] by (simp add: bs(1))
  qed
  have "routesCoveringDockerPools routes = Some (nths routes (set chosen))"
    by (simp add: routesCoveringDockerPools_def Some nths_enumerate)
  moreover have "\<not> (\<exists>pool \<in> set default_pools. \<forall>i < length routes. \<not> route_covers (routes ! i) pool)"
    using covered I by blast
  ultimately show ?thesis using I covered smallest by (simp only: option.distinct option.inject) blast
qed

end
