(* ===== verification/Linux_Witness.thy ===== *)
theory Linux_Witness
  imports Linux_Plan_Props Linux_Network_Props
begin

text \<open>The properties of the Linux host's assessment applied to concrete hosts and routing tables.\<close>

section \<open>Routes\<close>

text \<open>A full-tunnel VPN beside a home network.\<close>

definition vpn_routes :: "LinuxRoute list" where
  "vpn_routes = [\<lparr>destination = ''0.0.0.0/1'', device = ''tun0''\<rparr>, \<lparr>destination = ''128.0.0.0/1'', device = ''tun0''\<rparr>,
     \<lparr>destination = ''192.168.1.0/24'', device = ''eth0''\<rparr>]"

lemma vpn_half: "parseIpv4Cidr ''128.0.0.0/1'' = Some \<lparr>address = 0x80000000, prefix_len = 1\<rparr>"
  by (simp add: parseIpv4Cidr_def cidr_groups_def js_trim_def is_space_def digit_group_def all_digits_def is_digit_def
      digits_value_def maskOf_def Let_def)

lemma vpn_covers: "pool \<in> set default_pools \<Longrightarrow> route_covers (vpn_routes ! 1) pool"
proof -
  have "list_all (overlaps \<lparr>address = 0x80000000, prefix_len = 1\<rparr>) default_cidrs"
    by (simp add: default_cidrs_def subnets_of_def overlaps_def maskOf_def upt_conv_Cons)
  then show "pool \<in> set default_pools \<Longrightarrow> route_covers (vpn_routes ! 1) pool"
    by (simp add: route_covers_def vpn_routes_def vpn_half default_pools_cidrs list_all_iff)
qed

theorem named_routes_are_a_smallest_cover_witness:
  "\<exists>covering. routesCoveringDockerPools vpn_routes = Some covering \<and> length covering \<le> 1"
proof -
  have "\<not> (\<exists>pool \<in> set default_pools. \<forall>i < length vpn_routes. \<not> route_covers (vpn_routes ! i) pool)"
    using vpn_covers by (auto simp: vpn_routes_def)
  with named_routes_are_a_smallest_cover [of vpn_routes] obtain covering where c: "routesCoveringDockerPools vpn_routes = Some covering"
    by (cases "routesCoveringDockerPools vpn_routes") auto
  with named_routes_are_a_smallest_cover [of vpn_routes] obtain I where I: "I \<subseteq> {..<length vpn_routes}" "covering = nths vpn_routes I"
    and small: "\<And>J. J \<subseteq> {..<length vpn_routes} \<Longrightarrow> (\<forall>pool \<in> set default_pools. \<exists>j \<in> J. route_covers (vpn_routes ! j) pool) \<Longrightarrow> card I \<le> card J"
    by blast
  have "card I \<le> card {1 :: nat}" by (rule small) (use vpn_covers in \<open>auto simp: vpn_routes_def\<close>)
  moreover have "length covering = card I"
    using I(1) by (simp add: I(2) length_nths Int_absorb1 subset_eq Collect_conj_eq lessThan_def)
  ultimately show ?thesis using c by auto
qed

theorem parse_format_cidr_witness:
  "parseIpv4Cidr (format_cidr \<lparr>address = 0xAC110000, prefix_len = 16\<rparr>) = Some \<lparr>address = 0xAC110000, prefix_len = 16\<rparr>"
  by (rule parse_format_cidr) (simp add: wf_cidr_def maskOf_def)

section \<open>Plans\<close>

text \<open>A clean host: nothing of Docker is there, and Ann is in no group.\<close>

definition clean_host :: linux_facts where
  "clean_host = ex_host ex_docker \<lparr>dg_configured = Known False, dg_effective = False\<rparr> False True"

abbreviation (input) ubuntu :: linux_distribution where
  "ubuntu \<equiv> \<lparr>ds_id = ''ubuntu'', ds_version_id = ''24.04'', ds_id_like = [''debian''], ds_family = Apt\<rparr>"

lemma clean_host_plan:
  "verdict digits_value clean_host ex_linux_options = Some (planned (buildInstallPlan clean_host ubuntu ex_linux_options))"
  unfolding clean_host_def
  by (subst verdict_later [OF ex_universal _ _ ex_gate])
    (simp_all add: ex_host_def ex_docker_def member_path_def readyExceptAccess_def effectiveGpuRuntime_def)

theorem plan_adds_only_what_is_missing_witness:
  "qualifies clean_host ex_linux_options \<and>
   list_all (needed clean_host ex_linux_options) (ip_system_changes (buildInstallPlan clean_host ubuntu ex_linux_options))"
  by (rule plan_adds_only_what_is_missing [OF clean_host_plan])


text \<open>A member whose session is older than the membership, on a host without the toolkit.\<close>

definition waiting_host :: linux_facts where
  "waiting_host = ex_host ex_docker \<lparr>dg_configured = Known True, dg_effective = False\<rparr> False True"

theorem relogin_leads_to_a_plan_witness:
  "\<exists>plan. verdict digits_value (logged_back_in waiting_host) ex_linux_options = Some (planned plan)"
proof -
  have components: "missingComponentBlockers waiting_host Gate_recipe =
      [packageStep Gate_recipe Docker_cli_missing ''Docker Engine'' ''docker'',
       packageStep Gate_recipe Toolkit_missing ''The NVIDIA Container Toolkit'' ''nvidia-container-toolkit'',
       runtime_step waiting_host Gate_recipe, service_step Gate_recipe]"
    by (simp add: missingComponentBlockers_def waiting_host_def ex_host_def ex_docker_def effectiveGpuRuntime_def)
  have r: "verdict digits_value waiting_host ex_linux_options =
      Some (blocked (reloginRequiredBlocker # missingComponentBlockers waiting_host Gate_recipe))"
    unfolding waiting_host_def
    by (subst verdict_later [OF ex_universal _ _ ex_gate])
      (simp_all add: ex_host_def ex_docker_def member_path_def ex_linux_options_def)
  have j: "daemonJsonUnreadableBlocker \<notin> set (missingComponentBlockers waiting_host Gate_recipe)"
    unfolding components
    by (simp add: daemonJsonUnreadableBlocker_def packageStep_def runtime_step_def service_step_def blocker_def Let_def
        waiting_host_def ex_host_def ex_docker_def)
  have d: "fc_distribution waiting_host = Some ubuntu" "fc_systemd waiting_host \<noteq> Some False"
    "installGate waiting_host ubuntu ex_linux_options = Gate_recipe"
    by (simp add: waiting_host_def ex_host_def, simp add: waiting_host_def ex_host_def,
        simp only: waiting_host_def, rule ex_gate, simp add: ex_docker_def)
  show ?thesis
    by (rule relogin_leads_to_a_plan [OF r [unfolded components] d(1) d(3) d(2) j [unfolded components]])
qed

end
