(* ===== verification/Spec2Isabelle.thy ===== *)
theory Spec2Isabelle
  imports Machine_Witness Service_Witness Models_Witness Runtime_Witness Linux_Witness
begin

text \<open>
  A verification development of atomic-chat-core.  Its first part is the managed-runtime environment, the
  part of \<open>src/src/runtime/environment\<close> that decides what may be done to a user's machine, under which
  consent, and how that survives crashes, restarts and a second core on the same shared root.  Its second
  part is the path a model takes to an answer: reading its file, claiming it and the GPU, loading and
  cancelling it, routing requests to it, and keeping its engine up to date.

  \<^bold>\<open>The program.\<close>  A client begins a setup, update or removal.  The service (\<open>service.ts\<close>) stores it as a
  durable operation (\<open>store.ts\<close>), whose every next state is decided by a pure reducer (\<open>state.ts\<close>); the one
  effect a state asks for is run by a host provisioner, and its answer comes back as an event bound to
  the effect and the revision it was issued at.  A privileged step is handed to the app and answered by
  a receipt.  A core that starts later recovers what a dead one left (\<open>recovery.ts\<close>,
  \<open>lock/process-identity.ts\<close>).  Digests of plans and requests come from one canonical writer
  (\<open>canonical-json.ts\<close>), file names from one encoding (\<open>config/paths.ts\<close>).

  What a Linux host needs before a container can run on its GPU is read by \<open>linux-probe.ts\<close> and decided by
  \<open>linux-plan.ts\<close>; the plan it makes is the one the user consents to.

  A load goes through \<open>core/sessions.ts\<close>: it registers for cancellation (\<open>runtime/shared/load-cancel.ts\<close>), takes
  the model's claim on disk (\<open>lock/model-claim.ts\<close>), and its runtime claims the GPU (\<open>core/gpu\<close>), which may
  stop another engine's idle session.  What the model is made of is read from its GGUF header
  (\<open>models/gguf\<close>).  A request to the public server finds its backend by \<open>router/resolve.ts\<close> and
  \<open>server/public/forward.ts\<close>; the update each engine is offered comes from \<open>engines/versions.ts\<close> and the
  descriptor order.

  \<^bold>\<open>The theories.\<close>
  \<^item> \<open>Prelude\<close>: strings as JavaScript uses them, reachability and the invariant locale \<open>invariant_system\<close>.
    \<open>Errors\<close>: error bodies and the result type (a thrown error is an \<open>Inl\<close>).  \<open>Env_Types\<close>: the records of
    \<open>contracts/environment.ts\<close>.  \<open>Host_Step_Failure\<close>: what a failed privileged step becomes.
  \<^item> \<open>Machine\<close>: \<open>startOperation\<close> and \<open>reduceOperation\<close>, one definition per event.  \<open>Machine_Inv\<close>: the machine
    invariant, kept by every accepted event.  \<open>Machine_Props\<close>: consent, effect identity, progress,
    cancellation and removal.
  \<^item> \<open>Managed_Ids\<close>, \<open>Process_Identity\<close>, \<open>Canonical_Json\<close> with \<open>Canonical_Json_Props\<close>: the three services every
    other part leans on; round trip, injectivity and safety of file names, the takeover rule, and that
    the canonical text is a normal form.
  \<^item> \<open>Store\<close>: the file system as an association list, the three moments of a write and the disks a crash
    leaves between them, the lock and its takeover, and every store operation.  \<open>Store_Files\<close>: the
    interface \<open>record_store\<close> its clients use, interpreted on the store.  \<open>Store_Props\<close>, \<open>Store_Runs\<close>: crash
    safety, commits and begins, for one call and for all histories.  \<open>Store_Lock\<close>: mutual exclusion of the
    lock protocol cut into file system calls.  \<open>Store_Locked\<close>: calls made under the lock while others
    interfere.  \<open>Store_Reset\<close>: reset and receipts.
  \<^item> \<open>Recovery\<close>: \<open>recoverOperation\<close>.  \<open>Service\<close>: every method of \<open>EnvironmentService\<close> that changes state.
    \<open>Service_Props\<close>: the invariant through the service, abandoned operations, receipts.  \<open>Service_Flow\<close>:
    finishing an effect, and four sequences in which the parts do not fit as their comments say.
  \<^item> \<open>Removal\<close>: the installation store, its interface \<open>installation_store\<close>, and the removal plan.
  \<^item> \<open>Linux_Facts\<close>: the probe of a Linux host with every parser it uses.  \<open>Linux_Blockers\<close>, \<open>Linux_Plan\<close>: the reasons a
    host is refused, and the verdict with its install plan.  \<open>Linux_Plan_Props\<close>: the three kinds of verdict, what a
    plan may contain, and that one plan is enough.  \<open>Linux_Network\<close>, \<open>Linux_Network_Props\<close>: networks as 32-bit words,
    the routing table and Docker's default subnets; the routes named by the warning are a smallest cover, an
    interpretation of the locale of \<open>Laminar_Cover\<close>.
  \<^item> \<open>Gguf_Cursor\<close>: the byte cursor as a reader monad, its two laws (a reader moves forward inside the buffer,
    and an answer survives a longer buffer), and the locale \<open>prefix_parser\<close> with the loop over growing
    prefixes.  \<open>Gguf_Reader\<close>, \<open>Gguf_Reader_Props\<close>: the metadata reader, its bounds and the first interpretation.
    \<open>Gguf_Format\<close>: the format as a specification, and that the reader implements it.  \<open>Gguf_Tensors\<close>: the
    tensor-table reader, the second interpretation, and the accounting of its summary.
  \<^item> \<open>Gpu_Policy\<close>, \<open>Gpu_Residency\<close>: who may hold a card, and the claim that makes room; exclusivity over all
    histories.  \<open>Claim_Queue\<close>: the promise chains of \<open>turn\<close> and \<open>FifoLock\<close>.  \<open>Load_Cancel\<close>: the cancellation
    registry.  \<open>Model_Claim\<close>: the claim protocol cut into file-system calls, safe while owners live, and the
    takeover that is not.  \<open>Instance_Lock\<close>: the instance lock of a data folder in the same manner, with the
    election among recovering processes; one owner, and the one late verdict that breaks it.  \<open>Local_Sessions\<close>: acquire and unload over the claims.  \<open>Bounded_Output\<close>: the
    head-and-tail collector of a child's output.
  \<^item> \<open>Router\<close>: resolution, the route of a request and the list of models.  \<open>Descriptor_Order\<close>, \<open>Engine_Versions\<close>:
    which descriptor is newer, and what each engine's entry offers.
  \<^item> \<open>Machine_Witness\<close>, \<open>Store_Witness\<close>, \<open>Service_Witness\<close>, \<open>Models_Witness\<close>, \<open>Runtime_Witness\<close>, \<open>Linux_Witness\<close>: concrete
    runs at which the properties apply.

  \<^bold>\<open>How state and effects are modelled.\<close>  A method of the service or the store is a function from the
  state to a result and the state it leaves.  What is not in the repository is a parameter: the
  provisioner, the effect inventory, the process probes, SHA-256, the clock and the ids drawn; so are the
  engine's float printing and string-to-number conversion, the commands and files of the Linux probe, and what a runtime's \<open>load\<close> answers.  Other
  cores are a \<open>lock_schedule\<close>: what they do to the disk between two attempts for the lock.  Work in flight
  is a list of tasks; \<open>perform\<close> is what happens when one answers.  Revisions are natural numbers, and a
  record is readable up to JavaScript's largest safe integer, as in the code.

  \<^bold>\<open>Bounds.\<close>  The loops of the code are bounded as it bounds them: \<open>lockAttempts\<close> for the lock and three
  attempts for a receipt.  The lock protocol's premise, that a critical section is shorter than the
  lock's time to live, is the guard of its clock step.  The metadata reader's recursion carries a bound,
  one more than the bytes of the buffer; an array costs twelve bytes before its elements, so the bound is
  never reached (\<open>readGgufMetadata_not_too_deep\<close>).  The prefix loop is a partial function that is shown to
  return.  Integers read from a file are exact; \<open>to_number\<close> rounds where the code keeps a 64-bit count.

  \<^bold>\<open>What is not modelled.\<close>  The provisioners that carry a plan out, the Windows host, descriptors and manifests, the wiring; the engine
  processes and the HTTP to and from them; downloads, the backend catalogue and advisor, the KV-cache
  estimate, settings, diffusion, audio, the decision service, the client and the command line; reads and
  writes that fail for another reason than a crash; abort signals beyond the fact that they were raised;
  the engine's call-stack limit.
\<close>

end
